(* ===== verification/Prelude.thy ===== *)
theory Prelude
  imports Complex_Main "HOL-Library.AList" "HOL-Library.Char_ord" "HOL-Library.List_Lexorder"
begin

text \<open>
  The vocabulary shared by every component: Python's exceptions as values, a result type for
  pure code that may raise, a command type for code that may raise and mutates a state, Python
  dictionaries as association lists in insertion order, and clock values. The named collections
  \<open>dict_simps\<close> and \<open>cmd_simps\<close> carry the component proofs.
\<close>

named_theorems dict_simps \<open>rewriting of Python dictionary operations\<close>
named_theorems cmd_simps \<open>unfolding of commands and results\<close>

subsection \<open>Exceptions\<close>

text \<open>
  One constructor per exception class the program raises or lets through. A message text is
  kept only where the program shows it to somebody; otherwise the constructor carries the value
  the message is about.
\<close>

datatype exn =
    KeyError string
  | IndexError
  | TypeError
  | AttributeError
  | ValueError
  | AssertionError
  | OverflowError
  | ValidationError
  | SqlOperationalError
  | SqlIntegrityError
  | SqlProgrammingError
  | UnknownToolError string
  | InvalidTableConfigError string
  | TableAlreadyExistsError string
  | UnknownTableError string
  | UnknownColumnError string
  | ColumnAlreadyExistsError string
  | InvalidToolLinkedTableError string
  | BusinessConfigError
  | BusinessDisabledError string
  | ConfigPatchError
  | InvalidBusinessIdError string
  | BusinessAlreadyExistsError string
  | OwnerEmailAlreadyExistsError string
  | UnknownToolProviderError string
  | UnknownLLMProviderError string
  | ContextDirectoryNotFoundError
  | InvalidTokenError
  | AdminAuthError
  | AdminForbiddenError
  | InvalidConfirmationTokenError
  | HTTPException nat
  | ExternalError string

type_synonym 'a result = "exn + 'a"
type_synonym ('s, 'a) cmd = "'s \<Rightarrow> 'a result \<times> 's"

subsection \<open>Results and commands\<close>

definition bindR :: "'a result \<Rightarrow> ('a \<Rightarrow> 'b result) \<Rightarrow> 'b result" where
  "bindR r f = (case r of Inl e \<Rightarrow> Inl e | Inr x \<Rightarrow> f x)"

definition mapR :: "('a \<Rightarrow> 'b) \<Rightarrow> 'a result \<Rightarrow> 'b result" where
  "mapR f r = (case r of Inl e \<Rightarrow> Inl e | Inr x \<Rightarrow> Inr (f x))"

definition ret :: "'a \<Rightarrow> ('s, 'a) cmd" where
  "ret x = (\<lambda>s. (Inr x, s))"

definition raise :: "exn \<Rightarrow> ('s, 'a) cmd" where
  "raise e = (\<lambda>s. (Inl e, s))"

definition bindC :: "('s, 'a) cmd \<Rightarrow> ('a \<Rightarrow> ('s, 'b) cmd) \<Rightarrow> ('s, 'b) cmd" where
  "bindC m f = (\<lambda>s. case m s of (Inl e, s') \<Rightarrow> (Inl e, s') | (Inr x, s') \<Rightarrow> f x s')"

definition gets :: "('s \<Rightarrow> 'a) \<Rightarrow> ('s, 'a) cmd" where
  "gets f = (\<lambda>s. (Inr (f s), s))"

definition modify :: "('s \<Rightarrow> 's) \<Rightarrow> ('s, unit) cmd" where
  "modify f = (\<lambda>s. (Inr (), f s))"

definition liftR :: "'a result \<Rightarrow> ('s, 'a) cmd" where
  "liftR r = (\<lambda>s. (r, s))"

text \<open>
  \<open>mapMR\<close> runs a fallible function over a list and stops at the first exception: a Python
  comprehension whose element expression may raise.
\<close>

fun mapMR :: "('a \<Rightarrow> 'b result) \<Rightarrow> 'a list \<Rightarrow> 'b list result" where
  "mapMR f [] = Inr []"
| "mapMR f (x # xs) = bindR (f x) (\<lambda>y. mapR ((#) y) (mapMR f xs))"

lemma bindR_simps [simp, cmd_simps]:
  "bindR (Inl e) f = Inl e" "bindR (Inr x) f = f x"
  by (simp_all add: bindR_def)

lemma mapR_simps [simp, cmd_simps]:
  "mapR f (Inl e) = Inl e" "mapR f (Inr x) = Inr (f x)"
  by (simp_all add: mapR_def)

lemma cmd_apply [simp, cmd_simps]:
  "ret x s = (Inr x, s)"
  "raise e s = (Inl e, s)"
  "gets g s = (Inr (g s), s)"
  "modify h s = (Inr (), h s)"
  "liftR r s = (r, s)"
  by (simp_all add: ret_def raise_def gets_def modify_def liftR_def)

lemma bindC_apply [cmd_simps]:
  "bindC m f s = (case m s of (Inl e, s') \<Rightarrow> (Inl e, s') | (Inr x, s') \<Rightarrow> f x s')"
  by (simp add: bindC_def)

lemma bindC_Inr: "m s = (Inr x, s') \<Longrightarrow> bindC m f s = f x s'"
  by (simp add: bindC_def)

lemma bindC_Inl: "m s = (Inl e, s') \<Longrightarrow> bindC m f s = (Inl e, s')"
  by (simp add: bindC_def)

lemma bindC_InrE:
  assumes "bindC m f s = (Inr y, t)"
  obtains x s' where "m s = (Inr x, s')" and "f x s' = (Inr y, t)"
  using assms by (auto simp: bindC_def split: prod.splits sum.splits)

lemma bindC_assoc: "bindC (bindC m f) g = bindC m (\<lambda>x. bindC (f x) g)"
  by (rule ext) (auto simp: bindC_def split: prod.splits sum.splits)

lemma bindR_Inr_iff: "bindR r f = Inr y \<longleftrightarrow> (\<exists>x. r = Inr x \<and> f x = Inr y)"
  by (cases r) auto

lemma bindR_Inl_iff: "bindR r f = Inl e \<longleftrightarrow> r = Inl e \<or> (\<exists>x. r = Inr x \<and> f x = Inl e)"
  by (cases r) auto

lemma mapR_Inr_iff: "mapR f r = Inr y \<longleftrightarrow> (\<exists>x. r = Inr x \<and> y = f x)"
  by (cases r) auto

lemma mapMR_Inr_length: "mapMR f xs = Inr ys \<Longrightarrow> length ys = length xs"
  by (induction xs arbitrary: ys) (auto simp: bindR_Inr_iff mapR_Inr_iff)

lemma mapMR_Inr_nth: "mapMR f xs = Inr ys \<Longrightarrow> i < length xs \<Longrightarrow> f (xs ! i) = Inr (ys ! i)"
proof (induction xs arbitrary: ys i)
  case Nil
  then show ?case by simp
next
  case (Cons x xs)
  then show ?case
    by (cases i) (auto simp: bindR_Inr_iff mapR_Inr_iff)
qed

lemma mapMR_all_Inr: "(\<And>x. x \<in> set xs \<Longrightarrow> f x = Inr (g x)) \<Longrightarrow> mapMR f xs = Inr (map g xs)"
  by (induction xs) auto

subsection \<open>Exceptions caught, parts of a state\<close>

text \<open>
  \<open>catch m h\<close> is \<open>try: m except\<close>: the handler gets the exception and the state the
  failed block left. \<open>rethrow f\<close> is a block whose handlers only raise another exception.
  \<open>zoom\<close> runs a command on one part of a larger state, and \<open>raises_only P m\<close> says which
  exceptions a command can end with.
\<close>

definition catch :: "('s, 'a) cmd \<Rightarrow> (exn \<Rightarrow> ('s, 'a) cmd) \<Rightarrow> ('s, 'a) cmd" where
  "catch m h = (\<lambda>s. case m s of (Inl e, s') \<Rightarrow> h e s' | (Inr x, s') \<Rightarrow> (Inr x, s'))"

definition rethrow :: "(exn \<Rightarrow> exn) \<Rightarrow> ('s, 'a) cmd \<Rightarrow> ('s, 'a) cmd" where
  "rethrow f m = catch m (\<lambda>e. raise (f e))"

definition zoom :: "('s \<Rightarrow> 'a) \<Rightarrow> ('a \<Rightarrow> 's \<Rightarrow> 's) \<Rightarrow> ('a, 'r) cmd \<Rightarrow> ('s, 'r) cmd" where
  "zoom get put m = (\<lambda>s. case m (get s) of (r, a) \<Rightarrow> (r, put a s))"

definition raises_only :: "(exn \<Rightarrow> bool) \<Rightarrow> ('s, 'a) cmd \<Rightarrow> bool" where
  "raises_only P m \<longleftrightarrow> (\<forall>s e s'. m s = (Inl e, s') \<longrightarrow> P e)"

named_theorems raises_intros \<open>composition rules of raises\_only\<close>

lemma raises_onlyD: "raises_only P m \<Longrightarrow> m s = (Inl e, s') \<Longrightarrow> P e"
  unfolding raises_only_def by blast

lemma raises_basic [raises_intros]:
  "raises_only P (ret x)" "raises_only P (gets g)" "raises_only P (modify f)"
  "P e \<Longrightarrow> raises_only P (raise e)" "(\<And>e. r = Inl e \<Longrightarrow> P e) \<Longrightarrow> raises_only P (liftR r)"
  by (auto simp: raises_only_def)

lemma raises_bindC [raises_intros]:
  "raises_only P m \<Longrightarrow> (\<And>x. raises_only P (f x)) \<Longrightarrow> raises_only P (bindC m f)"
  unfolding raises_only_def bindC_def by (auto split: prod.splits sum.splits)

lemma raises_zoom [raises_intros]: "raises_only P m \<Longrightarrow> raises_only P (zoom get put m)"
  unfolding raises_only_def zoom_def by (auto split: prod.splits)

lemma raises_if [raises_intros]:
  "(b \<Longrightarrow> raises_only P m) \<Longrightarrow> (\<not> b \<Longrightarrow> raises_only P m') \<Longrightarrow> raises_only P (if b then m else m')"
  by simp

lemma rethrow_apply [cmd_simps]:
  "rethrow f m s = (case m s of (Inl e, s') \<Rightarrow> (Inl (f e), s') | (Inr x, s') \<Rightarrow> (Inr x, s'))"
  by (simp add: rethrow_def catch_def raise_def)

subsection \<open>Python dictionaries\<close>

text \<open>
  A \<open>dict\<close> with string keys is an association list in insertion order.
  \<open>AList.update\<close> is \<open>d[k] = v\<close> (in place when the key is there, at the end otherwise),
  \<open>AList.delete\<close> is \<open>del d[k]\<close>, \<open>map_of d k\<close> is \<open>d.get(k)\<close>, and \<open>dmerge a b\<close>
  is \<open>{**a, **b}\<close>.
\<close>

type_synonym 'v dict = "(string \<times> 'v) list"
type_synonym time = real

abbreviation dget :: "('k \<times> 'v) list \<Rightarrow> 'k \<Rightarrow> 'v option" where
  "dget d k \<equiv> map_of d k"

abbreviation dkeys :: "('k \<times> 'v) list \<Rightarrow> 'k list" where
  "dkeys d \<equiv> map fst d"

definition dmerge :: "('k \<times> 'v) list \<Rightarrow> ('k \<times> 'v) list \<Rightarrow> ('k \<times> 'v) list" where
  "dmerge a b = fold (\<lambda>(k, v). AList.update k v) b a"

definition dwithout :: "'k \<Rightarrow> ('k \<times> 'v) list \<Rightarrow> ('k \<times> 'v) list" where
  "dwithout k d = filter (\<lambda>(k', v). k' \<noteq> k) d"

definition dget_default :: "('k \<times> 'v) list \<Rightarrow> 'k \<Rightarrow> 'v \<Rightarrow> 'v" where
  "dget_default d k v = (case dget d k of None \<Rightarrow> v | Some x \<Rightarrow> x)"

definition dict_index :: "'v dict \<Rightarrow> string \<Rightarrow> 'v result" where
  "dict_index d k = (case dget d k of None \<Rightarrow> Inl (KeyError k) | Some v \<Rightarrow> Inr v)"

lemma dget_update [simp, dict_simps]:
  "dget (AList.update k v d) k' = (if k' = k then Some v else dget d k')"
  by (simp add: update_conv')

lemma dget_delete [simp, dict_simps]:
  "dget (AList.delete k d) k' = (if k' = k then None else dget d k')"
  by (simp add: delete_conv')

lemma dget_dwithout [simp, dict_simps]:
  "dget (dwithout k d) k' = (if k' = k then None else dget d k')"
  by (induction d) (auto simp: dwithout_def)

lemma dmerge_Nil [simp, dict_simps]: "dmerge a [] = a"
  by (simp add: dmerge_def)

lemma dmerge_Cons [simp, dict_simps]:
  "dmerge a ((k, v) # b) = dmerge (AList.update k v a) b"
  by (simp add: dmerge_def)

lemma dmerge_append [dict_simps]: "dmerge a (b @ c) = dmerge (dmerge a b) c"
  by (simp add: dmerge_def)

lemma dget_dmerge:
  "distinct (dkeys b) \<Longrightarrow>
    dget (dmerge a b) k = (case dget b k of Some v \<Rightarrow> Some v | None \<Rightarrow> dget a k)"
proof (induction b arbitrary: a)
  case Nil
  then show ?case by simp
next
  case (Cons p b)
  obtain k0 v0 where p: "p = (k0, v0)" by (cases p)
  from Cons.prems p have "dget b k0 = None"
    by (auto simp: map_of_eq_None_iff)
  then show ?case
    using Cons p by (auto split: option.splits)
qed

lemma dkeys_update: "dkeys (AList.update k v d) = (if k \<in> set (dkeys d) then dkeys d else dkeys d @ [k])"
  by (rule update_keys)

lemma update_new_append: "k \<notin> set (dkeys d) \<Longrightarrow> AList.update k v d = d @ [(k, v)]"
  by (induction d) auto

lemma distinct_dmerge: "distinct (dkeys a) \<Longrightarrow> distinct (dkeys (dmerge a b))"
proof (induction b arbitrary: a)
  case Nil
  then show ?case by simp
next
  case (Cons p b)
  then show ?case by (cases p) (simp add: distinct_update)
qed

lemma set_dkeys_dmerge: "set (dkeys (dmerge a b)) = set (dkeys a) \<union> set (dkeys b)"
proof (induction b arbitrary: a)
  case Nil
  then show ?case by simp
next
  case (Cons p b)
  then show ?case by (cases p) (simp add: dom_update)
qed

lemma distinct_dwithout: "distinct (dkeys d) \<Longrightarrow> distinct (dkeys (dwithout k d))"
  by (induction d) (auto simp: dwithout_def)

lemma dict_index_Inr_iff: "dict_index d k = Inr v \<longleftrightarrow> dget d k = Some v"
  by (auto simp: dict_index_def split: option.splits)

lemma dict_index_Inl_iff: "dict_index d k = Inl e \<longleftrightarrow> dget d k = None \<and> e = KeyError k"
  by (auto simp: dict_index_def split: option.splits)

subsection \<open>Searching and splitting lists\<close>

text \<open>\<open>List.find P xs\<close> is Python's \<open>next((x for x in xs if P(x)), None)\<close>.\<close>

lemma find_None_iff_all: "List.find P xs = None \<longleftrightarrow> (\<forall>x \<in> set xs. \<not> P x)"
  by (auto simp: find_None_iff)

lemma find_SomeD: "List.find P xs = Some x \<Longrightarrow> x \<in> set xs \<and> P x"
  by (induction xs) (auto split: if_splits)

lemma find_Some_first:
  "List.find P xs = Some x \<Longrightarrow> \<exists>as bs. xs = as @ x # bs \<and> P x \<and> (\<forall>y \<in> set as. \<not> P y)"
proof (induction xs)
  case Nil
  then show ?case by simp
next
  case (Cons y ys)
  show ?case
  proof (cases "P y")
    case True
    with Cons.prems show ?thesis by (intro exI [of _ "[]"] exI [of _ ys]) auto
  next
    case False
    with Cons obtain as bs where "ys = as @ x # bs" "P x" "\<forall>y \<in> set as. \<not> P y" by auto
    with False show ?thesis by (intro exI [of _ "y # as"] exI [of _ bs]) auto
  qed
qed

lemma find_append:
  "List.find P (xs @ ys) = (case List.find P xs of Some x \<Rightarrow> Some x | None \<Rightarrow> List.find P ys)"
  by (induction xs) auto

lemma dropWhile_eq_filter_sorted:
  fixes f :: "'a \<Rightarrow> 'b::linorder"
  assumes "sorted (map f xs)"
  shows "dropWhile (\<lambda>x. f x < c) xs = filter (\<lambda>x. c \<le> f x) xs"
  using assms
proof (induction xs)
  case Nil
  then show ?case by simp
next
  case (Cons x xs)
  show ?case
  proof (cases "f x < c")
    case True
    with Cons show ?thesis by simp
  next
    case False
    with Cons.prems have "filter (\<lambda>x. c \<le> f x) xs = xs"
      by (intro filter_True) auto
    with False show ?thesis by simp
  qed
qed

end
