(* ===== verification/Py_Values.thy ===== *)
theory Py_Values
  imports Prelude
begin

text \<open>
  Python's strings and JSON-like values, with the parts of the standard library the program
  uses on them. A string is a list of bytes in UTF-8 (\<open>char\<close>), so \<open>py_len\<close> counts
  code points, not bytes. Case mapping and white space are Python's on ASCII; letters and spaces
  outside ASCII are left alone.
\<close>

subsection \<open>Strings\<close>

definition lower_char :: "char \<Rightarrow> char" where
  "lower_char c =
     (if 65 \<le> (of_char c :: nat) \<and> (of_char c :: nat) \<le> 90
      then char_of ((of_char c :: nat) + 32) else c)"

definition py_lower :: "string \<Rightarrow> string" where
  "py_lower s = map lower_char s"

definition is_space :: "char \<Rightarrow> bool" where
  "is_space c =
     (let n = (of_char c :: nat) in (9 \<le> n \<and> n \<le> 13) \<or> (28 \<le> n \<and> n \<le> 32))"

definition py_strip :: "string \<Rightarrow> string" where
  "py_strip s = rev (dropWhile is_space (rev (dropWhile is_space s)))"

text \<open>A UTF-8 continuation byte is \<open>10xxxxxx\<close>; every other byte starts a code point.\<close>

definition is_continuation :: "char \<Rightarrow> bool" where
  "is_continuation c = (let n = (of_char c :: nat) in 128 \<le> n \<and> n < 192)"

definition py_len :: "string \<Rightarrow> nat" where
  "py_len s = length (filter (\<lambda>c. \<not> is_continuation c) s)"

definition py_startswith :: "string \<Rightarrow> string \<Rightarrow> bool" where
  "py_startswith s p = (take (length p) s = p)"

text \<open>
  \<open>split_once c s\<close> cuts \<open>s\<close> at its first \<open>c\<close>: \<open>None\<close> when there is none. It
  carries \<open>s.split(c, 1)\<close> and \<open>s.partition(c)\<close> for a one-character separator.
\<close>

fun split_once :: "char \<Rightarrow> string \<Rightarrow> (string \<times> string) option" where
  "split_once c [] = None"
| "split_once c (x # xs) =
     (if x = c then Some ([], xs)
      else map_option (\<lambda>(a, b). (x # a, b)) (split_once c xs))"

fun py_join :: "string \<Rightarrow> string list \<Rightarrow> string" where
  "py_join sep [] = []"
| "py_join sep [x] = x"
| "py_join sep (x # y # ys) = x @ sep @ py_join sep (y # ys)"

fun nat_digits :: "nat \<Rightarrow> string" where
  "nat_digits n =
     (if n < 10 then [char_of (48 + n)] else nat_digits (n div 10) @ [char_of (48 + n mod 10)])"

declare nat_digits.simps [simp del]

definition int_digits :: "int \<Rightarrow> string" where
  "int_digits i = (if i < 0 then CHR ''-'' # nat_digits (nat (- i)) else nat_digits (nat i))"

subsection \<open>JSON values\<close>

text \<open>The values of Python's \<open>Any\<close> as the program meets them: what JSON can carry.\<close>

datatype json =
    JNull
  | JBool bool
  | JInt int
  | JFloat real
  | JStr string
  | JArr "json list"
  | JObj "(string \<times> json) list"

fun truthy :: "json \<Rightarrow> bool" where
  "truthy JNull = False"
| "truthy (JBool b) = b"
| "truthy (JInt i) = (i \<noteq> 0)"
| "truthy (JFloat r) = (r \<noteq> 0)"
| "truthy (JStr s) = (s \<noteq> [])"
| "truthy (JArr xs) = (xs \<noteq> [])"
| "truthy (JObj d) = (d \<noteq> [])"

text \<open>
  \<open>v[k]\<close> with a string key, \<open>v[0]\<close>, and \<open>v.get(k, default)\<close> on an arbitrary value,
  with the exception each raises.
\<close>

fun index_key :: "json \<Rightarrow> string \<Rightarrow> json result" where
  "index_key (JObj d) k = dict_index d k"
| "index_key _ k = Inl TypeError"

fun index_zero :: "json \<Rightarrow> json result" where
  "index_zero (JArr []) = Inl IndexError"
| "index_zero (JArr (x # xs)) = Inr x"
| "index_zero (JStr []) = Inl IndexError"
| "index_zero (JStr (c # cs)) = Inr (JStr (c # takeWhile is_continuation cs))"
| "index_zero (JObj d) = Inl (KeyError ''0'')"
| "index_zero _ = Inl TypeError"

fun get_default :: "json \<Rightarrow> string \<Rightarrow> json \<Rightarrow> json result" where
  "get_default (JObj d) k v = Inr (dget_default d k v)"
| "get_default _ k v = Inl AttributeError"

definition opt_str :: "string option \<Rightarrow> json" where
  "opt_str so = (case so of None \<Rightarrow> JNull | Some s \<Rightarrow> JStr s)"

subsection \<open>Rendering\<close>

text \<open>
  \<open>repr\<close> as it appears in the program's f-strings. The rendering of a float is Python's
  \<open>float.__repr__\<close>, taken as the parameter \<open>fr\<close>. Bytes outside ASCII are printed as
  they are.
\<close>

definition hex_digit :: "nat \<Rightarrow> char" where
  "hex_digit n = (if n < 10 then char_of (48 + n) else char_of (87 + n))"

definition repr_char :: "char \<Rightarrow> char \<Rightarrow> string" where
  "repr_char q c =
     (let n = (of_char c :: nat) in
      if c = q \<or> c = CHR 0x5C then [CHR 0x5C, c]
      else if n = 10 then [CHR 0x5C, CHR ''n'']
      else if n = 13 then [CHR 0x5C, CHR ''r'']
      else if n = 9 then [CHR 0x5C, CHR ''t'']
      else if n < 32 \<or> n = 127 then [CHR 0x5C, CHR ''x'', hex_digit (n div 16), hex_digit (n mod 16)]
      else [c])"

definition repr_str :: "string \<Rightarrow> string" where
  "repr_str s =
     (let q = (if CHR 0x27 \<in> set s \<and> CHR 0x22 \<notin> set s then CHR 0x22 else CHR 0x27)
      in q # concat (map (repr_char q) s) @ [q])"

fun py_repr :: "(real \<Rightarrow> string) \<Rightarrow> json \<Rightarrow> string"
  and py_reprs :: "(real \<Rightarrow> string) \<Rightarrow> json list \<Rightarrow> string list"
  and py_repr_items :: "(real \<Rightarrow> string) \<Rightarrow> (string \<times> json) list \<Rightarrow> string list"
where
  "py_repr fr JNull = ''None''"
| "py_repr fr (JBool b) = (if b then ''True'' else ''False'')"
| "py_repr fr (JInt i) = int_digits i"
| "py_repr fr (JFloat r) = fr r"
| "py_repr fr (JStr s) = repr_str s"
| "py_repr fr (JArr xs) = ''['' @ py_join '', '' (py_reprs fr xs) @ '']''"
| "py_repr fr (JObj d) = ''{'' @ py_join '', '' (py_repr_items fr d) @ ''}''"
| "py_reprs fr [] = []"
| "py_reprs fr (x # xs) = py_repr fr x # py_reprs fr xs"
| "py_repr_items fr [] = []"
| "py_repr_items fr ((k, v) # d) = (repr_str k @ '': '' @ py_repr fr v) # py_repr_items fr d"

text \<open>
  \<open>json.dumps\<close> with its default separators and \<open>ensure_ascii\<close>: every code point outside
  the printable ASCII range is escaped, those beyond the basic plane as a surrogate pair.
\<close>

function utf8_decode :: "string \<Rightarrow> nat list" where
  "utf8_decode [] = []"
| "utf8_decode (c # cs) =
     (let n = (of_char c :: nat);
          k = (if n < 192 then 0 else if n < 224 then 1 else if n < 240 then 2 else 3 :: nat);
          lead = (if k = 0 then n else n mod 2 ^ (6 - k))
      in foldl (\<lambda>a b. a * 64 + (of_char b :: nat) mod 64) lead (take k cs) # utf8_decode (drop k cs))"
  by pat_completeness auto
termination
  by (relation "measure length") auto

definition json_hex4 :: "nat \<Rightarrow> string" where
  "json_hex4 n = CHR 0x5C # CHR ''u'' #
     map hex_digit [n div 4096 mod 16, n div 256 mod 16, n div 16 mod 16, n mod 16]"

definition json_escape :: "nat \<Rightarrow> string" where
  "json_escape n =
     (if n = 34 then [CHR 0x5C, CHR 0x22] else if n = 92 then [CHR 0x5C, CHR 0x5C]
      else if n = 10 then [CHR 0x5C, CHR ''n''] else if n = 13 then [CHR 0x5C, CHR ''r'']
      else if n = 9 then [CHR 0x5C, CHR ''t''] else if n = 8 then [CHR 0x5C, CHR ''b'']
      else if n = 12 then [CHR 0x5C, CHR ''f'']
      else if 32 \<le> n \<and> n \<le> 126 then [char_of n]
      else if n < 65536 then json_hex4 n
      else json_hex4 (55296 + (n - 65536) div 1024) @ json_hex4 (56320 + (n - 65536) mod 1024))"

definition json_string :: "string \<Rightarrow> string" where
  "json_string s = CHR 0x22 # concat (map json_escape (utf8_decode s)) @ [CHR 0x22]"

fun json_dumps :: "(real \<Rightarrow> string) \<Rightarrow> json \<Rightarrow> string"
  and json_dumps_list :: "(real \<Rightarrow> string) \<Rightarrow> json list \<Rightarrow> string list"
  and json_dumps_items :: "(real \<Rightarrow> string) \<Rightarrow> (string \<times> json) list \<Rightarrow> string list"
where
  "json_dumps fr JNull = ''null''"
| "json_dumps fr (JBool b) = (if b then ''true'' else ''false'')"
| "json_dumps fr (JInt i) = int_digits i"
| "json_dumps fr (JFloat r) = fr r"
| "json_dumps fr (JStr s) = json_string s"
| "json_dumps fr (JArr xs) = ''['' @ py_join '', '' (json_dumps_list fr xs) @ '']''"
| "json_dumps fr (JObj d) = ''{'' @ py_join '', '' (json_dumps_items fr d) @ ''}''"
| "json_dumps_list fr [] = []"
| "json_dumps_list fr (x # xs) = json_dumps fr x # json_dumps_list fr xs"
| "json_dumps_items fr [] = []"
| "json_dumps_items fr ((k, v) # d) = (json_string k @ '': '' @ json_dumps fr v) # json_dumps_items fr d"

subsection \<open>Lemmas\<close>

lemma split_once_Some_iff:
  "split_once c s = Some (a, b) \<longleftrightarrow> s = a @ c # b \<and> c \<notin> set a"
proof (induction s arbitrary: a)
  case Nil
  then show ?case by simp
next
  case (Cons x xs)
  then show ?case by (cases a) auto
qed

lemma split_once_None_iff: "split_once c s = None \<longleftrightarrow> c \<notin> set s"
  by (induction s) auto

lemma split_once_append [simp]: "c \<notin> set a \<Longrightarrow> split_once c (a @ c # b) = Some (a, b)"
  by (simp add: split_once_Some_iff)

lemma startswith_append [simp]: "py_startswith (p @ s) p"
  by (simp add: py_startswith_def)

lemma startswith_iff: "py_startswith s p \<longleftrightarrow> (\<exists>t. s = p @ t)"
proof
  assume "py_startswith s p"
  then have "s = p @ drop (length p) s"
    by (metis append_take_drop_id py_startswith_def)
  then show "\<exists>t. s = p @ t" ..
qed (auto simp: py_startswith_def)

lemma py_len_le_length: "py_len s \<le> length s"
  by (simp add: py_len_def)

lemma py_len_append [simp]: "py_len (s @ t) = py_len s + py_len t"
  by (simp add: py_len_def)

lemma index_key_Inr_iff: "index_key v k = Inr x \<longleftrightarrow> (\<exists>d. v = JObj d \<and> dget d k = Some x)"
  by (cases v) (auto simp: dict_index_Inr_iff)

lemma py_lower_length [simp]: "length (py_lower s) = length s"
  by (simp add: py_lower_def)

end
