(* ===== verification/Admin.thy ===== *)
theory Admin
  imports Py_Values
begin

text \<open>
  The admin side's identity and audit: the store (\<open>admin/base.py\<close>, \<open>admin/sqlite_store.py\<close>),
  passwords and bearer tokens (\<open>admin/auth.py\<close>), and the layer every admin route goes through
  (\<open>admin/interface_layer.py\<close>). PyJWT and bcrypt are the fields of \<open>auth_env\<close>. Every
  reading of a clock, drawn token and drawn salt is numbered.
\<close>

subsection \<open>Users and audit entries\<close>

datatype admin_role = Owner | PlatformOperator

fun role_value :: "admin_role \<Rightarrow> string" where
  "role_value Owner = ''owner''"
| "role_value PlatformOperator = ''platform_operator''"

definition parse_role :: "string \<Rightarrow> admin_role result" where
  "parse_role s =
     (case List.find (\<lambda>r. role_value r = s) [Owner, PlatformOperator] of
        Some r \<Rightarrow> Inr r | None \<Rightarrow> Inl ValueError)"

record admin_user =
  au_email :: string
  au_password_hash :: string
  au_role :: admin_role
  au_business_id :: "string option"

record audit_entry =
  al_id :: "int option"
  al_actor_email :: string
  al_business_id :: "string option"
  al_action :: string
  al_before :: "string option"
  al_after :: "string option"
  al_timestamp :: time

text \<open>A row of \<open>admin_users\<close>; the email is the primary key.\<close>

record user_row =
  ur_email :: string
  ur_password_hash :: string
  ur_role :: string
  ur_business_id :: "string option"

record admin_state =
  as_users :: "user_row list"
  as_audit :: "audit_entry list"
  as_audit_seq :: int
  as_pending :: "(string \<times> time) dict"
  as_tokens :: "nat \<Rightarrow> string"
  as_token_count :: nat
  as_clock :: "nat \<Rightarrow> time"
  as_clock_count :: nat
  as_salt_count :: nat

definition admin_now :: "(admin_state, time) cmd" where
  "admin_now = (\<lambda>s. (Inr (as_clock s (as_clock_count s)), s\<lparr>as_clock_count := as_clock_count s + 1\<rparr>))"

subsection \<open>The store\<close>

definition get_user_by_email :: "string \<Rightarrow> (admin_state, admin_user option) cmd" where
  "get_user_by_email email = (\<lambda>s. case List.find (\<lambda>r. ur_email r = email) (as_users s) of
     None \<Rightarrow> (Inr None, s)
   | Some r \<Rightarrow> (mapR (\<lambda>role. Some \<lparr>au_email = ur_email r, au_password_hash = ur_password_hash r,
                        au_role = role, au_business_id = ur_business_id r\<rparr>) (parse_role (ur_role r)), s))"

definition upsert_user :: "admin_user \<Rightarrow> (admin_state, unit) cmd" where
  "upsert_user u = modify (\<lambda>s.
     let row = \<lparr>ur_email = au_email u, ur_password_hash = au_password_hash u,
                ur_role = role_value (au_role u), ur_business_id = au_business_id u\<rparr>
     in s\<lparr>as_users := (if list_ex (\<lambda>r. ur_email r = au_email u) (as_users s)
            then map (\<lambda>r. if ur_email r = au_email u then row else r) (as_users s)
            else as_users s @ [row])\<rparr>)"

definition delete_user :: "string \<Rightarrow> (admin_state, unit) cmd" where
  "delete_user email = modify (\<lambda>s. s\<lparr>as_users := filter (\<lambda>r. ur_email r \<noteq> email) (as_users s)\<rparr>)"

definition append_audit_log :: "audit_entry \<Rightarrow> (admin_state, unit) cmd" where
  "append_audit_log entry = modify (\<lambda>s.
     s\<lparr>as_audit := as_audit s @ [entry\<lparr>al_id := Some (as_audit_seq s + 1)\<rparr>],
       as_audit_seq := as_audit_seq s + 1\<rparr>)"

definition list_audit_log :: "string option \<Rightarrow> (admin_state, audit_entry list) cmd" where
  "list_audit_log business_id = gets (\<lambda>s.
     case business_id of
       None \<Rightarrow> as_audit s
     | Some b \<Rightarrow> filter (\<lambda>e. al_business_id e = Some b) (as_audit s))"

subsection \<open>Passwords and bearer tokens\<close>

text \<open>
  \<open>jwt_decode secret token now\<close> is \<open>None\<close> for every \<open>PyJWTError\<close>; it reads the clock
  itself. \<open>pw_hash n\<close> hashes with the \<open>n\<close>-th salt. Both bcrypt functions may raise.
\<close>

record auth_env =
  ev_secret :: "string option"
  ev_jwt_encode :: "string \<Rightarrow> json dict \<Rightarrow> string"
  ev_jwt_decode :: "string \<Rightarrow> string \<Rightarrow> time \<Rightarrow> json dict option"
  ev_pw_hash :: "nat \<Rightarrow> string \<Rightarrow> string result"
  ev_pw_check :: "string \<Rightarrow> string \<Rightarrow> bool result"

record token_claims =
  tk_email :: string
  tk_role :: admin_role
  tk_business_id :: "string option"

definition token_ttl_seconds :: time where
  "token_ttl_seconds = 24 * 60 * 60"

definition jwt_secret :: "auth_env \<Rightarrow> string result" where
  "jwt_secret env = (case ev_secret env of None \<Rightarrow> Inl (KeyError ''ADMIN_JWT_SECRET'') | Some s \<Rightarrow> Inr s)"

definition hash_password :: "auth_env \<Rightarrow> string \<Rightarrow> (admin_state, string) cmd" where
  "hash_password env password = (\<lambda>s.
     (ev_pw_hash env (as_salt_count s) password, s\<lparr>as_salt_count := as_salt_count s + 1\<rparr>))"

definition verify_password :: "auth_env \<Rightarrow> string \<Rightarrow> string \<Rightarrow> bool result" where
  "verify_password env password password_hash = ev_pw_check env password password_hash"

definition token_payload :: "admin_user \<Rightarrow> time \<Rightarrow> json dict" where
  "token_payload u now =
     [(''email'', JStr (au_email u)), (''role'', JStr (role_value (au_role u))),
      (''business_id'', opt_str (au_business_id u)), (''iat'', JFloat now),
      (''exp'', JFloat (now + token_ttl_seconds))]"

definition create_access_token :: "auth_env \<Rightarrow> admin_user \<Rightarrow> (admin_state, string) cmd" where
  "create_access_token env user =
     bindC admin_now (\<lambda>now.
     bindC (liftR (jwt_secret env)) (\<lambda>secret.
     ret (ev_jwt_encode env secret (token_payload user now))))"

text \<open>\<open>AdminRole(value)\<close>, and the two other fields of \<open>AdminTokenClaims\<close>.\<close>

fun claim_role :: "json \<Rightarrow> admin_role result" where
  "claim_role (JStr s) = parse_role s"
| "claim_role _ = Inl ValueError"

fun claim_str :: "json \<Rightarrow> string result" where
  "claim_str (JStr s) = Inr s"
| "claim_str _ = Inl ValidationError"

fun claim_opt_str :: "json \<Rightarrow> string option result" where
  "claim_opt_str (JStr s) = Inr (Some s)"
| "claim_opt_str JNull = Inr None"
| "claim_opt_str _ = Inl ValidationError"

definition parse_claims :: "json dict \<Rightarrow> token_claims result" where
  "parse_claims payload =
     bindR (dict_index payload ''email'') (\<lambda>email.
     bindR (dict_index payload ''role'') (\<lambda>role_text.
     bindR (claim_role role_text) (\<lambda>role.
     bindR (claim_str email) (\<lambda>e.
     bindR (claim_opt_str (dget_default payload ''business_id'' JNull)) (\<lambda>b.
     Inr \<lparr>tk_email = e, tk_role = role, tk_business_id = b\<rparr>)))))"

definition decode_access_token :: "auth_env \<Rightarrow> string \<Rightarrow> (admin_state, token_claims) cmd" where
  "decode_access_token env token =
     bindC (liftR (jwt_secret env)) (\<lambda>secret.
     bindC admin_now (\<lambda>now.
     case ev_jwt_decode env secret token now of
       None \<Rightarrow> raise InvalidTokenError
     | Some payload \<Rightarrow> liftR (parse_claims payload)))"

subsection \<open>The admin interface layer\<close>

definition confirmation_ttl_seconds :: time where
  "confirmation_ttl_seconds = 5 * 60"

definition authorize ::
  "auth_env \<Rightarrow> string \<Rightarrow> string option \<Rightarrow> admin_role list \<Rightarrow> (admin_state, admin_user) cmd" where
  "authorize env token business_id allowed_roles =
     bindC (rethrow (\<lambda>e. if e = InvalidTokenError then AdminAuthError else e)
              (decode_access_token env token)) (\<lambda>claims.
     bindC (get_user_by_email (tk_email claims)) (\<lambda>found.
     case found of
       None \<Rightarrow> raise AdminAuthError
     | Some user \<Rightarrow>
         if au_role user \<notin> set allowed_roles then raise AdminForbiddenError
         else if au_role user \<noteq> PlatformOperator \<and> au_business_id user \<noteq> business_id
         then raise AdminForbiddenError
         else ret user))"

definition record_audit ::
  "admin_user \<Rightarrow> string option \<Rightarrow> string \<Rightarrow> string option \<Rightarrow> string option \<Rightarrow> (admin_state, unit) cmd" where
  "record_audit actor business_id action before after =
     bindC admin_now (\<lambda>now.
     append_audit_log \<lparr>al_id = None, al_actor_email = au_email actor, al_business_id = business_id,
       al_action = action, al_before = before, al_after = after, al_timestamp = now\<rparr>)"

definition fresh_token :: "(admin_state, string) cmd" where
  "fresh_token = (\<lambda>s. (Inr (as_tokens s (as_token_count s)), s\<lparr>as_token_count := as_token_count s + 1\<rparr>))"

definition request_confirmation :: "string \<Rightarrow> (admin_state, string) cmd" where
  "request_confirmation description =
     bindC fresh_token (\<lambda>token.
     bindC admin_now (\<lambda>now.
     bindC (modify (\<lambda>s. s\<lparr>as_pending :=
         AList.update token (description, now + confirmation_ttl_seconds) (as_pending s)\<rparr>)) (\<lambda>_.
     ret token)))"

definition resolve_confirm_token :: "string \<Rightarrow> (admin_state, unit) cmd" where
  "resolve_confirm_token confirm_token =
     bindC (gets (\<lambda>s. dget (as_pending s) confirm_token)) (\<lambda>pending.
     bindC (modify (\<lambda>s. s\<lparr>as_pending := AList.delete confirm_token (as_pending s)\<rparr>)) (\<lambda>_.
     case pending of
       None \<Rightarrow> raise InvalidConfirmationTokenError
     | Some (_, expires_at) \<Rightarrow>
         bindC admin_now (\<lambda>now.
         if now > expires_at then raise InvalidConfirmationTokenError else ret ())))"

subsection \<open>Who gets past the layer\<close>

lemma parse_role_value [simp]: "parse_role (role_value r) = Inr r"
  by (cases r) (simp_all add: parse_role_def)

lemma get_user_state: "snd (get_user_by_email e s) = s"
  by (simp add: get_user_by_email_def split: option.splits)

lemma get_user_not_token: "get_user_by_email e s = (Inl x, s') \<Longrightarrow> x = ValueError"
  by (auto simp: get_user_by_email_def parse_role_def mapR_def split: option.splits sum.splits)

definition ticked :: "admin_state \<Rightarrow> admin_state" where
  "ticked s = s\<lparr>as_clock_count := as_clock_count s + 1\<rparr>"

definition reading :: "admin_state \<Rightarrow> time" where
  "reading s = as_clock s (as_clock_count s)"

lemma admin_now_run: "admin_now s = (Inr (reading s), ticked s)"
  by (simp add: admin_now_def reading_def ticked_def)

lemma get_user_ticked: "get_user_by_email e (ticked s) = (fst (get_user_by_email e s), ticked s)"
  by (simp add: get_user_by_email_def ticked_def split: option.splits)

lemma decode_run:
  "decode_access_token env token s =
    (case ev_secret env of
       None \<Rightarrow> (Inl (KeyError ''ADMIN_JWT_SECRET''), s)
     | Some secret \<Rightarrow> (case ev_jwt_decode env secret token (reading s) of
         None \<Rightarrow> (Inl InvalidTokenError, ticked s)
       | Some payload \<Rightarrow> (parse_claims payload, ticked s)))"
  by (auto simp: decode_access_token_def jwt_secret_def bindC_def admin_now_run split: option.splits)

text \<open>
  Who gets past the layer. A request is authorised as a user exactly when the server's secret
  accepts the token now, the claims name an email, the admin store has that very user now, the
  user's stored role is allowed, and the user is a platform operator or belongs to the Business of
  the request. The role and Business written in the token decide nothing, so removing or
  changing a user takes effect at once; only the clock is touched.
\<close>

lemma authorize_iff:
  "authorize env token business roles s = (Inr user, s') \<longleftrightarrow>
     s' = ticked s \<and>
     (\<exists>secret payload claims. ev_secret env = Some secret
        \<and> ev_jwt_decode env secret token (reading s) = Some payload \<and> parse_claims payload = Inr claims
        \<and> fst (get_user_by_email (tk_email claims) s) = Inr (Some user)
        \<and> au_role user \<in> set roles
        \<and> (au_role user = PlatformOperator \<or> au_business_id user = business))"
proof -
  have *: "bindC (get_user_by_email e) (\<lambda>found. case found of None \<Rightarrow> raise AdminAuthError
     | Some u \<Rightarrow> if au_role u \<notin> set roles then raise AdminForbiddenError
         else if au_role u \<noteq> PlatformOperator \<and> au_business_id u \<noteq> business then raise AdminForbiddenError
         else ret u) (ticked s) = (Inr user, s') \<longleftrightarrow>
     s' = ticked s \<and> fst (get_user_by_email e s) = Inr (Some user) \<and> au_role user \<in> set roles
        \<and> (au_role user = PlatformOperator \<or> au_business_id user = business)" for e
    by (cases "fst (get_user_by_email e s)") (auto simp: bindC_def get_user_ticked split: option.splits)
  show ?thesis
  proof (cases "ev_secret env")
    case None
    then show ?thesis by (simp add: authorize_def bindC_def rethrow_apply decode_run)
  next
    case secret: (Some secret)
    show ?thesis
    proof (cases "ev_jwt_decode env secret token (reading s)")
      case None
      with secret show ?thesis by (simp add: authorize_def bindC_def rethrow_apply decode_run)
    next
      case (Some payload)
      with secret * show ?thesis
        by (cases "parse_claims payload") (auto simp: authorize_def bindC_apply rethrow_apply decode_run)
    qed
  qed
qed

lemma parse_token_payload:
  "parse_claims (token_payload u now) =
     Inr \<lparr>tk_email = au_email u, tk_role = au_role u, tk_business_id = au_business_id u\<rparr>"
  by (simp add: parse_claims_def token_payload_def dict_index_def dget_default_def opt_str_def
      split: option.splits)

text \<open>
  What PyJWT checks of the times in a payload it has verified: \<open>int(iat)\<close> is not after now, and now is
  before \<open>int(exp)\<close>; Python's \<open>int\<close> cuts off the fraction.
\<close>

definition cut_off :: "time \<Rightarrow> int" where
  "cut_off x = (if 0 \<le> x then \<lfloor>x\<rfloor> else \<lceil>x\<rceil>)"

definition jwt_live :: "json dict \<Rightarrow> time \<Rightarrow> bool" where
  "jwt_live payload now \<longleftrightarrow>
     (case dget payload ''iat'' of Some (JFloat i) \<Rightarrow> of_int (cut_off i) \<le> now | _ \<Rightarrow> True)
     \<and> (case dget payload ''exp'' of Some (JFloat e) \<Rightarrow> now < of_int (cut_off e) | _ \<Rightarrow> True)"

lemma token_payload_live:
  "jwt_live (token_payload user issued) now \<longleftrightarrow>
     of_int (cut_off issued) \<le> now \<and> now < of_int (cut_off (issued + 24 * 60 * 60))"
  by (simp add: jwt_live_def token_payload_def token_ttl_seconds_def)

text \<open>
  C35: a token that was issued is good for a day, and says who its bearer is but not what they may
  do. Let issuing a token to a user succeed, and let PyJWT give the payload back while the times in
  it (which the code puts there) say it is live. In any state, at any time: within the day from the
  issue, both ends cut to whole seconds, the token authorises exactly the user the store has under
  that email then, with the role and the Business the store has for them then, if these fit the
  request; another role or Business than the request needs is forbidden; a user who is gone, and
  any time outside the day, is refused as unauthenticated. Nothing changes but the clock.
\<close>

theorem issued_token_authorizes:
  assumes "create_access_token env user s = (Inr token, s1)" and "ev_secret env = Some secret"
    and "\<And>t. ev_jwt_decode env secret (ev_jwt_encode env secret (token_payload user (reading s))) t
          = (if jwt_live (token_payload user (reading s)) t then Some (token_payload user (reading s)) else None)"
  shows "authorize env token business roles s2 =
    (if of_int (cut_off (reading s)) \<le> reading s2 \<and> reading s2 < of_int (cut_off (reading s + 24 * 60 * 60))
     then (case fst (get_user_by_email (au_email user) s2) of
             Inl e \<Rightarrow> Inl e
           | Inr None \<Rightarrow> Inl AdminAuthError
           | Inr (Some u) \<Rightarrow>
               if au_role u \<in> set roles \<and> (au_role u = PlatformOperator \<or> au_business_id u = business)
               then Inr u else Inl AdminForbiddenError)
     else Inl AdminAuthError, ticked s2)"
proof -
  let ?live = "of_int (cut_off (reading s)) \<le> reading s2 \<and> reading s2 < of_int (cut_off (reading s + 24 * 60 * 60))"
  have "token = ev_jwt_encode env secret (token_payload user (reading s))"
    using assms(1,2) by (simp add: create_access_token_def bindC_def admin_now_run jwt_secret_def)
  with assms(3) [of "reading s2"] have decoded: "decode_access_token env token s2 =
      (if ?live then Inr \<lparr>tk_email = au_email user, tk_role = au_role user, tk_business_id = au_business_id user\<rparr>
       else Inl InvalidTokenError, ticked s2)"
    by (simp add: decode_run assms(2) parse_token_payload token_payload_live)
  show ?thesis
  proof (cases ?live)
    case False
    then have "decode_access_token env token s2 = (Inl InvalidTokenError, ticked s2)"
      unfolding decoded by simp
    then show ?thesis unfolding if_not_P [OF False] by (simp add: authorize_def bindC_def rethrow_apply)
  next
    case True
    then have "decode_access_token env token s2 =
        (Inr \<lparr>tk_email = au_email user, tk_role = au_role user, tk_business_id = au_business_id user\<rparr>, ticked s2)"
      unfolding decoded by simp
    then show ?thesis unfolding if_P [OF True]
      by (auto simp: authorize_def bindC_def rethrow_apply get_user_ticked split: sum.splits option.splits)
  qed
qed

subsection \<open>Confirmation tokens\<close>

datatype token_op = RequestOp string | ResolveOp string
datatype token_event = Issued string time | Confirmed string time | Refused string time

text \<open>A run of the two operations, with what became of each token and when.\<close>

fun token_step :: "token_op \<Rightarrow> admin_state \<Rightarrow> token_event \<times> admin_state" where
  "token_step (RequestOp description) s =
     (case request_confirmation description s of
        (Inr token, s') \<Rightarrow> (Issued token (reading s), s')
      | (Inl _, s') \<Rightarrow> (Issued [] (reading s), s'))"
| "token_step (ResolveOp token) s =
     (case resolve_confirm_token token s of
        (Inr _, s') \<Rightarrow> (Confirmed token (reading s), s')
      | (Inl _, s') \<Rightarrow> (Refused token (reading s), s'))"

fun token_run :: "token_op list \<Rightarrow> admin_state \<Rightarrow> token_event list \<times> admin_state" where
  "token_run [] s = ([], s)"
| "token_run (op # ops) s =
     (case token_step op s of (ev, s1) \<Rightarrow> (case token_run ops s1 of (evs, s2) \<Rightarrow> (ev # evs, s2)))"

fun token_of :: "token_event \<Rightarrow> string" where
  "token_of (Issued t _) = t"
| "token_of (Confirmed t _) = t"
| "token_of (Refused t _) = t"

definition last_about :: "string \<Rightarrow> token_event list \<Rightarrow> token_event option" where
  "last_about token evs = List.find (\<lambda>e. token_of e = token) (rev evs)"

definition live_at :: "token_event list \<Rightarrow> string \<Rightarrow> time \<Rightarrow> bool" where
  "live_at evs token t \<longleftrightarrow> (case last_about token evs of
     Some (Issued _ t0) \<Rightarrow> t \<le> t0 + confirmation_ttl_seconds | _ \<Rightarrow> False)"

definition pending_rel :: "token_event list \<Rightarrow> admin_state \<Rightarrow> bool" where
  "pending_rel evs s \<longleftrightarrow> (\<forall>token. case dget (as_pending s) token of
     Some (_, x) \<Rightarrow> \<exists>t0. last_about token evs = Some (Issued token t0) \<and> x = t0 + confirmation_ttl_seconds
   | None \<Rightarrow> \<forall>t0 tok. last_about token evs \<noteq> Some (Issued tok t0))"

lemma last_about_snoc: "last_about token (evs @ [e]) = (if token_of e = token then Some e else last_about token evs)"
  by (simp add: last_about_def)

lemma pending_rel_snoc:
  assumes "pending_rel evs s"
    and "\<And>tok. tok \<noteq> token_of ev \<Longrightarrow> dget (as_pending s') tok = dget (as_pending s) tok"
    and "case dget (as_pending s') (token_of ev) of
       Some (_, x) \<Rightarrow> \<exists>t0. ev = Issued (token_of ev) t0 \<and> x = t0 + confirmation_ttl_seconds
     | None \<Rightarrow> \<forall>t0 tok. ev \<noteq> Issued tok t0"
  shows "pending_rel (evs @ [ev]) s'"
  unfolding pending_rel_def
proof
  fix tok
  show "case dget (as_pending s') tok of
     Some (_, x) \<Rightarrow> \<exists>t0. last_about tok (evs @ [ev]) = Some (Issued tok t0) \<and> x = t0 + confirmation_ttl_seconds
   | None \<Rightarrow> \<forall>t0 tok'. last_about tok (evs @ [ev]) \<noteq> Some (Issued tok' t0)"
  proof (cases "tok = token_of ev")
    case True
    then have about: "last_about tok (evs @ [ev]) = Some ev" by (simp add: last_about_snoc)
    show ?thesis
      using assms(3) unfolding about unfolding True by (auto split: option.splits)
  next
    case False
    then have about: "last_about tok (evs @ [ev]) = last_about tok evs" by (simp add: last_about_snoc)
    show ?thesis using assms(1) False unfolding about by (simp add: pending_rel_def assms(2))
  qed
qed

definition fair :: "token_event list \<Rightarrow> token_event \<Rightarrow> bool" where
  "fair evs ev \<longleftrightarrow> (case ev of Issued _ _ \<Rightarrow> True
     | Confirmed token t \<Rightarrow> live_at evs token t | Refused token t \<Rightarrow> \<not> live_at evs token t)"

lemma token_step_fair:
  assumes "pending_rel evs s" and "token_step op s = (ev, s')"
  shows "fair evs ev \<and> pending_rel (evs @ [ev]) s'"
proof (cases op)
  case (RequestOp d)
  let ?t = "as_tokens s (as_token_count s)"
  have ev: "ev = Issued ?t (reading s)"
    and upd: "as_pending s' = AList.update ?t (d, reading s + confirmation_ttl_seconds) (as_pending s)"
    using assms(2) RequestOp
    by (auto simp: request_confirmation_def bindC_def fresh_token_def admin_now_def reading_def)
  have "pending_rel (evs @ [ev]) s'"
    by (rule pending_rel_snoc [OF assms(1)]) (auto simp: upd ev)
  then show ?thesis by (simp add: fair_def ev)
next
  case (ResolveOp token)
  have rel: "case dget (as_pending s) token of
       Some (_, x) \<Rightarrow> \<exists>t0. last_about token evs = Some (Issued token t0) \<and> x = t0 + confirmation_ttl_seconds
     | None \<Rightarrow> \<forall>t0 tok. last_about token evs \<noteq> Some (Issued tok t0)"
    using assms(1) unfolding pending_rel_def by (rule spec)
  show ?thesis
  proof (cases "dget (as_pending s) token")
    case None
    from rel have "\<not> live_at evs token t" for t
      unfolding None by (simp add: live_at_def split: option.splits token_event.splits)
    moreover have ev: "ev = Refused token (reading s)"
      and del: "as_pending s' = AList.delete token (as_pending s)"
      using assms(2) None ResolveOp by (auto simp: resolve_confirm_token_def bindC_def)
    have "pending_rel (evs @ [ev]) s'"
      by (rule pending_rel_snoc [OF assms(1)]) (simp_all add: del ev)
    ultimately show ?thesis by (simp add: fair_def ev)
  next
    case (Some dx)
    obtain d x where dx: "dx = (d, x)" by (cases dx)
    from rel obtain t0 where t0: "last_about token evs = Some (Issued token t0)" "x = t0 + confirmation_ttl_seconds"
      unfolding Some dx by auto
    then have live: "live_at evs token t \<longleftrightarrow> t \<le> x" for t by (simp add: live_at_def)
    have ev: "ev = (if reading s > x then Refused token (reading s) else Confirmed token (reading s))"
      and del: "as_pending s' = AList.delete token (as_pending s)"
      using assms(2) Some dx ResolveOp
      by (cases "x < reading s"; auto simp: resolve_confirm_token_def bindC_def admin_now_def reading_def)+
    have "pending_rel (evs @ [ev]) s'"
      by (rule pending_rel_snoc [OF assms(1)]) (auto simp: del ev split: if_splits)
    with live show ?thesis by (simp add: fair_def ev)
  qed
qed

lemma token_run_fair:
  assumes "pending_rel hist s" and "token_run ops s = (evs, s')" and "evs = as @ ev # bs"
  shows "fair (hist @ as) ev"
  using assms
proof (induction ops arbitrary: hist s evs as)
  case Nil
  then show ?case by simp
next
  case (Cons op ops)
  obtain e s1 where step: "token_step op s = (e, s1)" by fastforce
  obtain es where run: "token_run ops s1 = (es, s')" and evs: "evs = e # es"
    using Cons.prems(2) step by (auto split: prod.splits)
  note fair = token_step_fair [OF Cons.prems(1) step]
  show ?case
  proof (cases as)
    case Nil
    with Cons.prems(3) evs fair show ?thesis by simp
  next
    case (Cons a as')
    with Cons.prems(3) evs have es: "es = as' @ ev # bs" and a: "a = e" by auto
    from Cons.IH [OF fair [THEN conjunct2] run es] a Cons show ?thesis by simp
  qed
qed

text \<open>
  C36: a confirmation token works once, and for five minutes. In any run of requests and
  confirmations that starts with no pending token, a confirmation succeeds exactly when the last
  thing that happened to its token, among everything before, is that it was issued, at most five
  minutes earlier: never twice, never after a failed attempt, never for a token that was not
  issued.
\<close>

theorem confirmation_token_single_use:
  assumes "token_run ops s = (evs, s')" and "as_pending s = []" and "evs = before @ ev # after"
  shows "(\<forall>token t. ev = Confirmed token t \<longrightarrow> live_at before token t)
    \<and> (\<forall>token t. ev = Refused token t \<longrightarrow> \<not> live_at before token t)"
proof -
  have "pending_rel [] s" by (simp add: pending_rel_def assms(2) last_about_def)
  from token_run_fair [OF this assms(1,3)] show ?thesis by (auto simp: fair_def)
qed

subsection \<open>Witnesses\<close>

definition demo_env :: auth_env where
  "demo_env =
     \<lparr>ev_secret = Some ''s3'', ev_jwt_encode = (\<lambda>secret payload. ''jwt''),
      ev_jwt_decode = (\<lambda>secret token now. if token = ''jwt'' \<and> 0 \<le> now \<and> now < 86400
         then Some [(''email'', JStr ''ama@acme.gh''), (''role'', JStr ''owner''), (''business_id'', JStr ''acme''),
                    (''iat'', JFloat 0), (''exp'', JFloat 86400)] else None),
      ev_pw_hash = (\<lambda>n p. Inr (''h:'' @ p)), ev_pw_check = (\<lambda>p h. Inr (h = ''h:'' @ p))\<rparr>"

definition demo_owner :: admin_user where
  "demo_owner = \<lparr>au_email = ''ama@acme.gh'', au_password_hash = ''h:pw'', au_role = Owner, au_business_id = Some ''acme''\<rparr>"

definition demo_admin :: admin_state where
  "demo_admin =
     \<lparr>as_users = [\<lparr>ur_email = ''ama@acme.gh'', ur_password_hash = ''h:pw'', ur_role = ''owner'', ur_business_id = Some ''acme''\<rparr>],
      as_audit = [], as_audit_seq = 0, as_pending = [], as_tokens = (\<lambda>n. ''tok'' @ nat_digits n), as_token_count = 0,
      as_clock = (\<lambda>n. 0), as_clock_count = 0, as_salt_count = 0\<rparr>"

lemma demo_user: "fst (get_user_by_email (au_email demo_owner) demo_admin) = Inr (Some demo_owner)"
  by (simp add: get_user_by_email_def demo_admin_def demo_owner_def parse_role_def)

text \<open>
  The token of an owner: accepted for the Business, forbidden for another, refused a day later, and
  refused for this role once the store has made the bearer a platform operator.
\<close>

definition demo_promoted :: admin_state where
  "demo_promoted = demo_admin\<lparr>as_users :=
     [\<lparr>ur_email = ''ama@acme.gh'', ur_password_hash = ''h:pw'', ur_role = ''platform_operator'', ur_business_id = None\<rparr>]\<rparr>"

lemma issued_token_authorizes_witness:
  "fst (authorize demo_env ''jwt'' (Some ''acme'') [Owner] demo_admin) = Inr demo_owner
   \<and> fst (authorize demo_env ''jwt'' (Some ''other'') [Owner] demo_admin) = Inl AdminForbiddenError
   \<and> fst (authorize demo_env ''jwt'' (Some ''acme'') [Owner] demo_promoted) = Inl AdminForbiddenError
   \<and> fst (authorize demo_env ''jwt'' (Some ''acme'') [Owner] (demo_admin\<lparr>as_clock := (\<lambda>n. 86400)\<rparr>)) = Inl AdminAuthError"
proof -
  have t0: "reading demo_admin = 0" "reading demo_promoted = 0" "reading (demo_admin\<lparr>as_clock := (\<lambda>n. 86400)\<rparr>) = 86400"
    by (simp_all add: reading_def demo_promoted_def demo_admin_def)
  have run: "create_access_token demo_env demo_owner demo_admin = (Inr ''jwt'', ticked demo_admin)"
    by (simp add: create_access_token_def bindC_def admin_now_run jwt_secret_def demo_env_def)
  have secret: "ev_secret demo_env = Some ''s3''" by (simp add: demo_env_def)
  have dec: "ev_jwt_decode demo_env ''s3'' (ev_jwt_encode demo_env ''s3'' (token_payload demo_owner (reading demo_admin))) t
      = (if jwt_live (token_payload demo_owner (reading demo_admin)) t
         then Some (token_payload demo_owner (reading demo_admin)) else None)" for t
    unfolding token_payload_live
    by (simp add: demo_env_def token_payload_def demo_owner_def t0 token_ttl_seconds_def opt_str_def cut_off_def)
  have promoted: "fst (get_user_by_email (au_email demo_owner) demo_promoted) = Inr (Some
      \<lparr>au_email = ''ama@acme.gh'', au_password_hash = ''h:pw'', au_role = PlatformOperator, au_business_id = None\<rparr>)"
    by (simp add: get_user_by_email_def demo_promoted_def demo_owner_def parse_role_def)
  have "au_role demo_owner = Owner" "au_business_id demo_owner = Some ''acme''" by (simp_all add: demo_owner_def)
  then show ?thesis
    unfolding issued_token_authorizes [OF run secret dec] by (simp add: t0 cut_off_def demo_user promoted)
qed

lemma confirmation_token_single_use_witness:
  "\<not> live_at [Issued ''tok0'' 0, Confirmed ''tok0'' 0] ''tok0'' 0
   \<and> live_at [Issued ''tok0'' 0] ''tok0'' 0"
proof -
  let ?run = "token_run [RequestOp ''d'', ResolveOp ''tok0'', ResolveOp ''tok0''] demo_admin"
  have digits: "nat_digits 0 = ''0''" by code_simp
  have evs: "fst ?run = [Issued ''tok0'' 0] @ Confirmed ''tok0'' 0 # [Refused ''tok0'' 0]"
    by (simp add: demo_admin_def request_confirmation_def resolve_confirm_token_def fresh_token_def admin_now_def
        bindC_def reading_def digits confirmation_ttl_seconds_def)
  have "as_pending demo_admin = []" by (simp add: demo_admin_def)
  note one = confirmation_token_single_use [OF prod.collapse [symmetric] this, of "[RequestOp ''d'', ResolveOp ''tok0'', ResolveOp ''tok0'']"]
  from one [OF evs] one [of "[Issued ''tok0'' 0, Confirmed ''tok0'' 0]" "Refused ''tok0'' 0" "[]"] evs
  show ?thesis by simp
qed

end
