(* ===== verification/Identifiers.thy ===== *)
theory Identifiers
  imports Py_Values
begin

text \<open>
  The two name guards: SQL identifiers (\<open>sql_identifiers.py\<close>, and the same expression in
  \<open>business_config/schema.py\<close>) and business ids (\<open>business_config/provisioning.py\<close>).
  Both are \<open>re.match\<close> with a final \<open>$\<close>, which in Python matches at the end of the
  string and also just before one newline that ends it; the model keeps that.
\<close>

definition is_lower :: "char \<Rightarrow> bool" where
  "is_lower c = (let n = (of_char c :: nat) in 97 \<le> n \<and> n \<le> 122)"

definition is_upper :: "char \<Rightarrow> bool" where
  "is_upper c = (let n = (of_char c :: nat) in 65 \<le> n \<and> n \<le> 90)"

definition is_digit :: "char \<Rightarrow> bool" where
  "is_digit c = (let n = (of_char c :: nat) in 48 \<le> n \<and> n \<le> 57)"

definition ident_start :: "char \<Rightarrow> bool" where
  "ident_start c \<longleftrightarrow> is_lower c \<or> is_upper c \<or> c = CHR ''_''"

definition ident_char :: "char \<Rightarrow> bool" where
  "ident_char c \<longleftrightarrow> ident_start c \<or> is_digit c"

abbreviation newline :: char where
  "newline \<equiv> CHR 0x0A"

text \<open>\<open>matches_at_dollar body s\<close>: \<open>^body$\<close> under \<open>re.match\<close>.\<close>

definition matches_at_dollar :: "(string \<Rightarrow> bool) \<Rightarrow> string \<Rightarrow> bool" where
  "matches_at_dollar body s \<longleftrightarrow>
     body s \<or> (s \<noteq> [] \<and> last s = newline \<and> body (butlast s))"

fun ident_body :: "string \<Rightarrow> bool" where
  "ident_body [] = False"
| "ident_body (c # cs) = (ident_start c \<and> list_all ident_char cs)"

definition sql_identifier_match :: "string \<Rightarrow> bool" where
  "sql_identifier_match s = matches_at_dollar ident_body s"

definition validate_identifier :: "string \<Rightarrow> (string \<Rightarrow> exn) \<Rightarrow> string result" where
  "validate_identifier value error_cls =
     (if \<not> sql_identifier_match value then Inl (error_cls value) else Inr value)"

definition slug_char :: "char \<Rightarrow> bool" where
  "slug_char c \<longleftrightarrow> is_lower c \<or> is_digit c"

text \<open>
  \<open>[a-z0-9]+(-[a-z0-9]+)*\<close>, read left to right; the flag says that the current segment
  already has a character.
\<close>

fun slug_from :: "bool \<Rightarrow> string \<Rightarrow> bool" where
  "slug_from seg [] = seg"
| "slug_from seg (c # cs) =
     (if slug_char c then slug_from True cs
      else c = CHR ''-'' \<and> seg \<and> slug_from False cs)"

definition business_id_match :: "string \<Rightarrow> bool" where
  "business_id_match s = matches_at_dollar (slug_from False) s"

subsection \<open>Lemmas\<close>

lemma validate_identifier_Inr_iff:
  "validate_identifier s e = Inr t \<longleftrightarrow> sql_identifier_match s \<and> t = s"
  by (auto simp: validate_identifier_def)

lemma validate_identifier_Inl_iff:
  "validate_identifier s e = Inl x \<longleftrightarrow> \<not> sql_identifier_match s \<and> x = e s"
  by (auto simp: validate_identifier_def)

lemma ident_body_chars: "ident_body s \<Longrightarrow> \<forall>c \<in> set s. ident_char c"
  by (cases s) (auto simp: ident_char_def list_all_iff)

lemma matches_at_dollar_cases:
  assumes "matches_at_dollar body s"
  obtains b where "body b" and "s = b" | b where "body b" and "s = b @ [newline]"
  using assms unfolding matches_at_dollar_def
  by (metis append_butlast_last_id)

lemma matches_at_dollar_newline:
  "body s \<Longrightarrow> matches_at_dollar body (s @ [newline])"
  by (simp add: matches_at_dollar_def)

lemma slug_from_chars: "slug_from seg s \<Longrightarrow> \<forall>c \<in> set s. slug_char c \<or> c = CHR ''-''"
  by (induction seg s rule: slug_from.induct) (auto split: if_splits)

lemma slug_from_nonempty: "slug_from False s \<Longrightarrow> \<exists>c cs. s = c # cs \<and> slug_char c"
  by (cases s) (auto split: if_splits)

lemma ident_char_not_newline: "ident_char c \<Longrightarrow> c \<noteq> newline"
  by (auto simp: ident_char_def ident_start_def is_lower_def is_upper_def is_digit_def)

lemma slug_char_not:
  "slug_char c \<Longrightarrow> c \<noteq> CHR ''/'' \<and> c \<noteq> CHR ''.'' \<and> c \<noteq> newline \<and> c \<noteq> CHR ''-''"
  by (auto simp: slug_char_def is_lower_def is_digit_def)

lemma ident_char_not:
  "ident_char c \<Longrightarrow> c \<notin> {CHR '' '', CHR '';'', CHR 0x27, CHR 0x22, CHR ''('', CHR '')'', CHR ''-'', CHR '',''}"
  by (auto simp: ident_char_def ident_start_def is_lower_def is_upper_def is_digit_def)

end
