(* ===== verification/Config_Schema.thy ===== *)
theory Config_Schema
  imports Identifiers
begin

text \<open>
  The Business Config (\<open>business_config/schema.py\<close>): its records, its defaults, the field
  validators, and \<open>model_dump(mode="json")\<close>. Reading untyped data into these records is
  pydantic's work and stays a parameter of the components that need it.
\<close>

record llm_config =
  lc_provider :: string
  lc_model :: string
  lc_max_tokens :: int
  lc_effort :: "string option"

record context_config =
  cc_source_type :: string
  cc_directory :: string
  cc_include_patterns :: "string list"

record business_logic_config =
  bl_persona :: string
  bl_scope_instructions :: string
  bl_tone :: "string option"
  bl_out_of_scope_response :: "string option"

record tool_config =
  tl_name :: string
  tl_description :: string
  tl_input_schema :: "json dict"
  tl_mcp_endpoint :: "string option"
  tl_requires_confirmation :: bool
  tl_enabled :: bool

record storage_config =
  st_backend :: string
  st_database_id :: "string option"
  st_schema_identity :: "string option"
  st_table :: "string option"
  st_columns :: "string dict option"

record frontend_adapter_config =
  fa_type :: string
  fa_enabled :: bool
  fa_phone_number_id :: "string option"

record rails_config =
  rl_input_enabled :: bool
  rl_output_enabled :: bool
  rl_scope_description :: "string option"

record business_config =
  bc_business_id :: string
  bc_display_name :: string
  bc_enabled :: bool
  bc_llm :: llm_config
  bc_context :: context_config
  bc_business_logic :: business_logic_config
  bc_tools :: "tool_config list"
  bc_tool_provider :: string
  bc_storage :: storage_config
  bc_auth_type :: string
  bc_frontend_adapters :: "frontend_adapter_config list"
  bc_rails :: rails_config

subsection \<open>Defaults\<close>

definition default_llm_config :: llm_config where
  "default_llm_config =
     \<lparr>lc_provider = ''google'', lc_model = ''gemini-flash-lite-latest'',
      lc_max_tokens = 1024, lc_effort = Some ''medium''\<rparr>"

definition default_context_config :: "string \<Rightarrow> context_config" where
  "default_context_config directory =
     \<lparr>cc_source_type = ''file'', cc_directory = directory,
      cc_include_patterns = [''*.md'', ''*.txt'']\<rparr>"

definition default_tool_config :: "string \<Rightarrow> string \<Rightarrow> tool_config" where
  "default_tool_config name description =
     \<lparr>tl_name = name, tl_description = description, tl_input_schema = [],
      tl_mcp_endpoint = None, tl_requires_confirmation = False, tl_enabled = True\<rparr>"

definition default_storage_config :: storage_config where
  "default_storage_config =
     \<lparr>st_backend = ''none'', st_database_id = None, st_schema_identity = None,
      st_table = None, st_columns = None\<rparr>"

definition default_frontend_adapters :: "frontend_adapter_config list" where
  "default_frontend_adapters =
     [\<lparr>fa_type = ''cli'', fa_enabled = True, fa_phone_number_id = None\<rparr>]"

definition default_rails_config :: rails_config where
  "default_rails_config =
     \<lparr>rl_input_enabled = True, rl_output_enabled = True, rl_scope_description = None\<rparr>"

subsection \<open>Field validators\<close>

definition mcp_endpoint_is_http_url :: "string option \<Rightarrow> string option result" where
  "mcp_endpoint_is_http_url v =
     (case v of
        None \<Rightarrow> Inr None
      | Some u \<Rightarrow>
          if \<not> (py_startswith u ''http://'' \<or> py_startswith u ''https://'')
          then Inl ValueError else Inr (Some u))"

definition table_is_valid_identifier :: "string option \<Rightarrow> string option result" where
  "table_is_valid_identifier v =
     (case v of
        None \<Rightarrow> Inr None
      | Some t \<Rightarrow> if \<not> sql_identifier_match t then Inl ValueError else Inr (Some t))"

definition columns_are_valid_identifiers :: "string dict option \<Rightarrow> string dict option result" where
  "columns_are_valid_identifiers v =
     (case v of
        None \<Rightarrow> Inr None
      | Some d \<Rightarrow> if list_all (\<lambda>(f, c). sql_identifier_match c) d then Inr (Some d) else Inl ValueError)"

definition config_fields_valid :: "business_config \<Rightarrow> bool" where
  "config_fields_valid c \<longleftrightarrow>
     list_all (\<lambda>t. \<not> isl (mcp_endpoint_is_http_url (tl_mcp_endpoint t))) (bc_tools c)
     \<and> \<not> isl (table_is_valid_identifier (st_table (bc_storage c)))
     \<and> \<not> isl (columns_are_valid_identifiers (st_columns (bc_storage c)))"

subsection \<open>Dumping\<close>

definition dump_llm :: "llm_config \<Rightarrow> json" where
  "dump_llm c = JObj
     [(''provider'', JStr (lc_provider c)), (''model'', JStr (lc_model c)),
      (''max_tokens'', JInt (lc_max_tokens c)), (''effort'', opt_str (lc_effort c))]"

definition dump_context :: "context_config \<Rightarrow> json" where
  "dump_context c = JObj
     [(''source_type'', JStr (cc_source_type c)), (''directory'', JStr (cc_directory c)),
      (''include_patterns'', JArr (map JStr (cc_include_patterns c)))]"

definition dump_business_logic :: "business_logic_config \<Rightarrow> json" where
  "dump_business_logic c = JObj
     [(''persona'', JStr (bl_persona c)), (''scope_instructions'', JStr (bl_scope_instructions c)),
      (''tone'', opt_str (bl_tone c)),
      (''out_of_scope_response'', opt_str (bl_out_of_scope_response c))]"

definition dump_tool :: "tool_config \<Rightarrow> json" where
  "dump_tool t = JObj
     [(''name'', JStr (tl_name t)), (''description'', JStr (tl_description t)),
      (''input_schema'', JObj (tl_input_schema t)), (''mcp_endpoint'', opt_str (tl_mcp_endpoint t)),
      (''requires_confirmation'', JBool (tl_requires_confirmation t)),
      (''enabled'', JBool (tl_enabled t))]"

definition dump_storage :: "storage_config \<Rightarrow> json" where
  "dump_storage c = JObj
     [(''backend'', JStr (st_backend c)), (''database_id'', opt_str (st_database_id c)),
      (''schema_identity'', opt_str (st_schema_identity c)), (''table'', opt_str (st_table c)),
      (''columns'', (case st_columns c of None \<Rightarrow> JNull
                   | Some d \<Rightarrow> JObj (map (\<lambda>(k, v). (k, JStr v)) d)))]"

definition dump_adapter :: "frontend_adapter_config \<Rightarrow> json" where
  "dump_adapter a = JObj
     [(''type'', JStr (fa_type a)), (''enabled'', JBool (fa_enabled a)),
      (''phone_number_id'', opt_str (fa_phone_number_id a))]"

definition dump_rails :: "rails_config \<Rightarrow> json" where
  "dump_rails r = JObj
     [(''input_enabled'', JBool (rl_input_enabled r)),
      (''output_enabled'', JBool (rl_output_enabled r)),
      (''scope_description'', opt_str (rl_scope_description r))]"

definition dump_config :: "business_config \<Rightarrow> json dict" where
  "dump_config c =
     [(''business_id'', JStr (bc_business_id c)), (''display_name'', JStr (bc_display_name c)),
      (''enabled'', JBool (bc_enabled c)), (''llm'', dump_llm (bc_llm c)),
      (''context'', dump_context (bc_context c)),
      (''business_logic'', dump_business_logic (bc_business_logic c)),
      (''tools'', JArr (map dump_tool (bc_tools c))),
      (''tool_provider'', JStr (bc_tool_provider c)), (''storage'', dump_storage (bc_storage c)),
      (''auth'', JObj [(''type'', JStr (bc_auth_type c))]),
      (''frontend_adapters'', JArr (map dump_adapter (bc_frontend_adapters c))),
      (''rails'', dump_rails (bc_rails c))]"

lemmas dump_defs = dump_llm_def dump_context_def dump_business_logic_def dump_tool_def
  dump_storage_def dump_adapter_def dump_rails_def dump_config_def

lemma opt_str_inject [simp]: "opt_str a = opt_str b \<longleftrightarrow> a = b"
  by (auto simp: opt_str_def split: option.splits)

lemma dkeys_dump_config:
  "dkeys (dump_config c) =
     [''business_id'', ''display_name'', ''enabled'', ''llm'', ''context'', ''business_logic'',
      ''tools'', ''tool_provider'', ''storage'', ''auth'', ''frontend_adapters'', ''rails'']"
  by (simp add: dump_config_def)

lemma map_dump_tool_inject: "map dump_tool xs = map dump_tool ys \<longleftrightarrow> xs = ys"
  by (rule inj_map_eq_map) (auto simp: inj_def dump_tool_def)

lemma map_dump_adapter_inject: "map dump_adapter xs = map dump_adapter ys \<longleftrightarrow> xs = ys"
  by (rule inj_map_eq_map) (auto simp: inj_def dump_adapter_def)

lemma map_str_items_inject:
  "map (\<lambda>(k, v). (k, JStr v)) xs = map (\<lambda>(k, v). (k, JStr v)) ys \<longleftrightarrow> xs = ys"
  by (rule inj_map_eq_map) (auto simp: inj_def)

lemma map_JStr_inject: "map JStr xs = map JStr ys \<longleftrightarrow> xs = ys"
  by (rule inj_map_eq_map) (auto simp: inj_def)

lemmas dump_list_injects =
  map_dump_tool_inject map_dump_adapter_inject map_str_items_inject map_JStr_inject

lemma dump_component_inject:
  "dump_llm a = dump_llm a' \<longleftrightarrow> a = a'"
  "dump_context b = dump_context b' \<longleftrightarrow> b = b'"
  "dump_business_logic l = dump_business_logic l' \<longleftrightarrow> l = l'"
  "dump_storage s = dump_storage s' \<longleftrightarrow> s = s'"
  "dump_rails r = dump_rails r' \<longleftrightarrow> r = r'"
  by (auto simp: dump_defs dump_list_injects split: option.splits)

lemma dump_config_inject: "dump_config c = dump_config c' \<longleftrightarrow> c = c'"
  by (auto simp: dump_config_def dump_component_inject dump_list_injects)

end
