(* ===== verification/Config_Store.thy ===== *)
theory Config_Store
  imports Config_Schema
begin

text \<open>
  Business Config files: reading them (\<open>business_config/loader.py\<close>) and writing them back
  (\<open>business_config/writer.py\<close>). The part of the file system the program uses is a state:
  texts by path, and directories. PyYAML and pydantic's validation of untyped data are the fields
  of \<open>config_io\<close>; what is assumed of them is \<open>yaml_round_trip\<close>.
\<close>

subsection \<open>Files\<close>

record disk =
  dk_files :: "string dict"
  dk_dirs :: "string list"

definition is_file :: "string \<Rightarrow> disk \<Rightarrow> bool" where
  "is_file path dk \<longleftrightarrow> dget (dk_files dk) path \<noteq> None"

definition path_exists :: "string \<Rightarrow> disk \<Rightarrow> bool" where
  "path_exists path dk \<longleftrightarrow> is_file path dk \<or> path \<in> set (dk_dirs dk)"

definition write_text :: "string \<Rightarrow> string \<Rightarrow> (disk, unit) cmd" where
  "write_text path text = modify (\<lambda>dk. dk\<lparr>dk_files := AList.update path text (dk_files dk)\<rparr>)"

text \<open>\<open>os.replace(source, target)\<close>\<close>

definition replace_file :: "string \<Rightarrow> string \<Rightarrow> (disk, unit) cmd" where
  "replace_file source target =
     modify (\<lambda>dk. case dget (dk_files dk) source of
       None \<Rightarrow> dk
     | Some text \<Rightarrow> dk\<lparr>dk_files := AList.update target text (AList.delete source (dk_files dk))\<rparr>)"

definition make_dir :: "string \<Rightarrow> (disk, unit) cmd" where
  "make_dir path = modify (\<lambda>dk. dk\<lparr>dk_dirs := dk_dirs dk @ [path]\<rparr>)"

subsection \<open>Reading\<close>

text \<open>\<open>yaml.safe_load\<close>, \<open>yaml.safe_dump(..., sort_keys=False)\<close>, \<open>BusinessConfig.model_validate\<close>;
  \<open>None\<close> stands for \<open>YAMLError\<close> and \<open>ValidationError\<close>.\<close>

record config_io =
  io_load :: "string \<Rightarrow> json option"
  io_dump :: "json dict \<Rightarrow> string"
  io_validate :: "json dict \<Rightarrow> business_config option"

definition load_business_config :: "config_io \<Rightarrow> string \<Rightarrow> (disk, business_config) cmd" where
  "load_business_config io path = (\<lambda>dk.
     (case dget (dk_files dk) path of
        None \<Rightarrow> Inl BusinessConfigError
      | Some text \<Rightarrow> (case io_load io text of
          None \<Rightarrow> Inl BusinessConfigError
        | Some (JObj raw) \<Rightarrow> (case io_validate io raw of
            None \<Rightarrow> Inl BusinessConfigError
          | Some config \<Rightarrow> Inr config)
        | Some _ \<Rightarrow> Inl BusinessConfigError), dk))"

subsection \<open>Patching\<close>

definition editable_fields :: "string list" where
  "editable_fields =
     [''display_name'', ''business_logic.persona'', ''business_logic.tone'',
      ''business_logic.scope_instructions'', ''business_logic.out_of_scope_response'',
      ''tools'', ''llm.provider'', ''llm.model'']"

function patch_keys :: "string \<Rightarrow> json dict \<Rightarrow> string list" where
  "patch_keys prefix [] = []"
| "patch_keys prefix ((key, value) # patch) =
     (case value of
        JObj d \<Rightarrow> if prefix @ key \<noteq> ''tools'' then patch_keys (prefix @ key @ ''.'') d else [prefix @ key]
      | _ \<Rightarrow> [prefix @ key]) @ patch_keys prefix patch"
  by pat_completeness auto
termination
  by (relation "measure (\<lambda>(prefix, patch). size_list (size_prod (\<lambda>x. 0) size) patch)") auto

function deep_merge :: "json dict \<Rightarrow> json dict \<Rightarrow> json dict" where
  "deep_merge base [] = base"
| "deep_merge base ((key, value) # patch) =
     deep_merge (AList.update key
       (case value of
          JObj pv \<Rightarrow> (case dget base key of
              Some (JObj bv) \<Rightarrow> JObj (deep_merge bv pv)
            | _ \<Rightarrow> value)
        | _ \<Rightarrow> value) base) patch"
  by pat_completeness auto
termination
  by (relation "measure (\<lambda>(base, patch). size_list (size_prod (\<lambda>x. 0) size) patch)") auto

definition write_business_config_atomically :: "config_io \<Rightarrow> string \<Rightarrow> json dict \<Rightarrow> (disk, unit) cmd" where
  "write_business_config_atomically io path raw =
     (let tmp_path = path @ ''.tmp'' in
      bindC (write_text tmp_path (io_dump io raw)) (\<lambda>_. replace_file tmp_path path))"

definition update_business_config :: "config_io \<Rightarrow> string \<Rightarrow> json dict \<Rightarrow> (disk, business_config) cmd" where
  "update_business_config io path patch =
     (if \<exists>k \<in> set (patch_keys [] patch). k \<notin> set editable_fields then raise ConfigPatchError
      else
      bindC (load_business_config io path) (\<lambda>current.
      let merged_raw = deep_merge (dump_config current) patch in
      case io_validate io merged_raw of
        None \<Rightarrow> raise ConfigPatchError
      | Some updated \<Rightarrow>
          bindC (write_business_config_atomically io path merged_raw) (\<lambda>_. ret updated)))"

subsection \<open>Paths into nested dictionaries\<close>

fun json_at :: "json \<Rightarrow> string list \<Rightarrow> json option" where
  "json_at v [] = Some v"
| "json_at (JObj d) (k # ks) = (case dget d k of None \<Rightarrow> None | Some x \<Rightarrow> json_at x ks)"
| "json_at _ (k # ks) = None"

fun is_obj :: "json \<Rightarrow> bool" where
  "is_obj (JObj d) = True"
| "is_obj _ = False"

text \<open>A mapping with nothing in it but such mappings, and values whose mappings have distinct keys
  (as everything parsed from JSON has).\<close>

fun hollow :: "json \<Rightarrow> bool" and hollow_items :: "json dict \<Rightarrow> bool" where
  "hollow (JObj d) = hollow_items d"
| "hollow _ = False"
| "hollow_items [] = True"
| "hollow_items ((k, v) # d) = (hollow v \<and> hollow_items d)"

fun unique_keys :: "json \<Rightarrow> bool" and unique_items :: "json dict \<Rightarrow> bool" where
  "unique_keys (JObj d) = unique_items d"
| "unique_keys _ = True"
| "unique_items [] = True"
| "unique_items ((k, v) # d) = (k \<notin> fst ` set d \<and> unique_keys v \<and> unique_items d)"

definition dots :: "string list \<Rightarrow> string" where
  "dots ks = py_join ''.'' ks"

lemma dots_Cons: "ks \<noteq> [] \<Longrightarrow> dots (k # ks) = k @ ''.'' @ dots ks"
  by (cases ks) (simp_all add: dots_def)

lemma dots_single [simp]: "dots [k] = k"
  by (simp add: dots_def)

definition editable :: "string list \<Rightarrow> bool" where
  "editable ks \<longleftrightarrow> list_ex (\<lambda>n. dots (take (Suc n) ks) \<in> set editable_fields) [0..<length ks]"

lemma dget_deep_merge_other: "k \<notin> fst ` set patch \<Longrightarrow> dget (deep_merge base patch) k = dget base k"
  by (induction base patch rule: deep_merge.induct) auto

lemma patch_keys_prefix: "x \<in> set (patch_keys pre d) \<Longrightarrow> \<exists>y. x = pre @ y"
proof (induction pre d rule: patch_keys.induct)
  case (2 pre key v d)
  then show ?case by (cases v) (auto split: if_splits intro: exI [of _ key])
qed simp

lemma patch_keys_hollow: "patch_keys pre d = [] \<Longrightarrow> hollow_items d"
  by (induction pre d rule: patch_keys.induct) (auto split: json.splits if_splits)

text \<open>The prefixes of a path that name what a patch key touches, or what lies under it.\<close>

definition touches :: "string \<Rightarrow> string list \<Rightarrow> string \<Rightarrow> bool" where
  "touches pre p x \<longleftrightarrow> (\<exists>n < length p. x = pre @ dots (take (Suc n) p)) \<or> (\<exists>y. x = pre @ dots p @ ''.'' @ y)"

lemma touches_Cons:
  assumes "touches (pre @ k @ ''.'') ks x" and "ks \<noteq> []"
  shows "touches pre (k # ks) x"
  using assms(1) unfolding touches_def
proof (elim disjE exE conjE)
  fix n assume n: "n < length ks" "x = (pre @ k @ ''.'') @ dots (take (Suc n) ks)"
  then have "take (Suc n) ks \<noteq> []" by auto
  with n have "Suc n < length (k # ks) \<and> x = pre @ dots (take (Suc (Suc n)) (k # ks))"
    by (simp add: dots_Cons)
  then show "(\<exists>n < length (k # ks). x = pre @ dots (take (Suc n) (k # ks))) \<or> (\<exists>y. x = pre @ dots (k # ks) @ ''.'' @ y)"
    by blast
next
  fix y assume "x = (pre @ k @ ''.'') @ dots ks @ ''.'' @ y"
  with assms(2) have "x = pre @ dots (k # ks) @ ''.'' @ y" by (simp add: dots_Cons)
  then show "(\<exists>n < length (k # ks). x = pre @ dots (take (Suc n) (k # ks))) \<or> (\<exists>y. x = pre @ dots (k # ks) @ ''.'' @ y)"
    by blast
qed

lemma touches_here: "touches pre (k # ks) (pre @ k)"
  unfolding touches_def by (rule disjI1, rule exI [of _ 0]) simp

lemma mapping_over_leaf:
  assumes "set (patch_keys (pre @ key @ ''.'') pv) \<subseteq> X"
  shows "hollow (JObj pv) \<or> (\<exists>x \<in> X. touches pre [key] x)"
proof (cases "patch_keys (pre @ key @ ''.'') pv")
  case Nil
  then show ?thesis by (simp add: patch_keys_hollow)
next
  case (Cons x xs)
  then obtain y where "x = (pre @ key @ ''.'') @ y"
    using patch_keys_prefix [of x "pre @ key @ ''.''" pv] by auto
  then have "touches pre [key] x" unfolding touches_def by auto
  with assms Cons show ?thesis by auto
qed

lemma patch_keys_Cons_cases:
  obtains (named) "pre @ key \<in> set (patch_keys pre ((key, new) # patch))"
  | (mapping) pv where "new = JObj pv"
      "set (patch_keys (pre @ key @ ''.'') pv) \<subseteq> set (patch_keys pre ((key, new) # patch))"
  by (cases new; cases "pre @ key = ''tools''") auto

lemma merged_leaf:
  assumes "unique_items patch" and "json_at (JObj base) p = Some v" and "\<not> is_obj v"
  shows "json_at (JObj (deep_merge base patch)) p = Some v
    \<or> (\<exists>h. json_at (JObj (deep_merge base patch)) p = Some h \<and> hollow h)
    \<or> (\<exists>x \<in> set (patch_keys pre patch). touches pre p x)"
  using assms
proof (induction base patch arbitrary: p v pre rule: deep_merge.induct)
  case (1 base)
  then show ?case by simp
next
  case (2 base key new patch)
  obtain k ks where p: "p = k # ks" using "2.prems"(2,3) by (cases p) auto
  define new' where "new' = (case new of
          JObj pv \<Rightarrow> (case dget base key of
              Some (JObj bv) \<Rightarrow> JObj (deep_merge bv pv)
            | _ \<Rightarrow> new)
        | _ \<Rightarrow> new)"
  have merged: "deep_merge base ((key, new) # patch) = deep_merge (AList.update key new' base) patch"
    by (simp add: new'_def)
  have rest: "set (patch_keys pre patch) \<subseteq> set (patch_keys pre ((key, new) # patch))" by auto
  have uniq: "unique_items patch" "key \<notin> fst ` set patch" "unique_keys new" using "2.prems"(1) by auto
  show ?case
  proof (cases "k = key")
    case False
    then have "json_at (JObj (AList.update key new' base)) p = Some v"
      using "2.prems"(2) p by simp
    from "2.IH"(2) [OF uniq(1), folded new'_def, OF this "2.prems"(3), of pre] rest
    show ?thesis unfolding merged by blast
  next
    case True
    then have at: "json_at (JObj (deep_merge base ((key, new) # patch))) p = json_at new' ks"
      unfolding merged p using dget_deep_merge_other [OF uniq(2)] by simp
    show ?thesis
    proof (cases rule: patch_keys_Cons_cases [of pre key new patch])
      case named
      with touches_here [of pre key ks] True show ?thesis unfolding p by blast
    next
      case (mapping pv)
      obtain old where old: "dget base key = Some old" "json_at old ks = Some v"
        using "2.prems"(2) p True by (auto split: option.splits)
      show ?thesis
      proof (cases old)
        case (JObj bv)
        have ks: "ks \<noteq> []" using old(2) "2.prems"(3) JObj by (cases ks) auto
        have "new' = JObj (deep_merge bv pv)" by (simp add: new'_def mapping(1) old(1) JObj)
        moreover have "unique_items pv" using uniq(3) mapping(1) by simp
        note "2.IH"(1) [OF mapping(1) old(1) JObj this old(2) [unfolded JObj] "2.prems"(3), of "pre @ key @ ''.''"]
        ultimately show ?thesis
          using mapping(2) touches_Cons [OF _ ks, of pre key] at True unfolding p by auto
      qed (use old at mapping_over_leaf [OF mapping(2)] True in
          \<open>cases ks; auto simp: new'_def mapping(1) p\<close>)+
    qed
  qed
qed

text \<open>Every editable field is at most two levels deep, so what has one under it is one of two sections.\<close>

lemma editable_two_levels:
  assumes "a @ ''.'' @ y \<in> set editable_fields"
  shows "a \<in> {''business_logic'', ''llm''}"
proof -
  have "list_all (\<lambda>f. count_list f CHR ''.'' \<le> 1) editable_fields" by code_simp
  with assms have "count_list (a @ ''.'' @ y) CHR ''.'' \<le> 1" by (auto simp: list_all_iff)
  then have "CHR ''.'' \<notin> set a" by (simp add: count_list_0_iff)
  then have split: "split_once CHR ''.'' (a @ ''.'' @ y) = Some (a, y)" by simp
  have "list_all (\<lambda>f. case split_once CHR ''.'' f of None \<Rightarrow> True | Some (b, _) \<Rightarrow> b \<in> {''business_logic'', ''llm''})
      editable_fields" by code_simp
  with assms have "case split_once CHR ''.'' (a @ ''.'' @ y) of None \<Rightarrow> True | Some (b, _) \<Rightarrow> b \<in> {''business_logic'', ''llm''}"
    unfolding list_all_iff by blast
  with split show ?thesis by simp
qed

lemma dots_no_dot:
  assumes "CHR ''.'' \<notin> set (dots p)" and "p \<noteq> []"
  shows "p = [dots p]"
proof (cases p)
  case (Cons k ks)
  with assms(1) show ?thesis by (cases "ks = []") (simp_all add: dots_Cons)
qed (use assms(2) in simp)

lemma touches_editable:
  assumes "touches [] p x" and "x \<in> set editable_fields" and "p \<noteq> []"
  shows "editable p \<or> p = [''business_logic''] \<or> p = [''llm'']"
  using assms(1) unfolding touches_def
proof (elim disjE exE conjE)
  fix n assume "n < length p" "x = [] @ dots (take (Suc n) p)"
  with assms(2) have "editable p" by (auto simp: editable_def list_ex_iff)
  then show ?thesis ..
next
  fix y assume "x = [] @ dots p @ ''.'' @ y"
  with assms(2) have sect: "dots p \<in> {''business_logic'', ''llm''}" using editable_two_levels [of "dots p" y] by simp
  then have "CHR ''.'' \<notin> set (dots p)" by auto
  from dots_no_dot [OF this assms(3)] sect show ?thesis by auto
qed

text \<open>A successful update, taken apart.\<close>

lemma load_keeps_disk: "load_business_config io path dk = (r, dk') \<Longrightarrow> dk' = dk"
  by (simp add: load_business_config_def)

lemma load_raises: "load_business_config io path dk = (Inl e, dk') \<Longrightarrow> e = BusinessConfigError"
  by (auto simp: load_business_config_def split: option.splits json.splits)

lemma write_atomically_run:
  "write_business_config_atomically io path raw dk =
    (Inr (), dk\<lparr>dk_files := AList.update path (io_dump io raw) (AList.delete (path @ ''.tmp'')
       (AList.update (path @ ''.tmp'') (io_dump io raw) (dk_files dk)))\<rparr>)"
  by (simp add: write_business_config_atomically_def write_text_def replace_file_def bindC_def Let_def)

lemma write_atomically_files:
  assumes "write_business_config_atomically io path raw dk = (r, dk')"
  shows "r = Inr ()" and "dk_dirs dk' = dk_dirs dk"
    and "dget (dk_files dk') f = (if f = path then Some (io_dump io raw)
       else if f = path @ ''.tmp'' then None else dget (dk_files dk) f)"
  using assms unfolding write_atomically_run by auto

lemma update_config_run:
  assumes "update_business_config io path patch dk = (r, dk')"
  shows "(\<exists>e. r = Inl e \<and> dk' = dk \<and> e \<in> {ConfigPatchError, BusinessConfigError})
    \<or> (\<exists>current updated. r = Inr updated \<and> load_business_config io path dk = (Inr current, dk)
        \<and> set (patch_keys [] patch) \<subseteq> set editable_fields
        \<and> io_validate io (deep_merge (dump_config current) patch) = Some updated
        \<and> write_business_config_atomically io path (deep_merge (dump_config current) patch) dk = (Inr (), dk'))"
proof (cases "\<exists>k \<in> set (patch_keys [] patch). k \<notin> set editable_fields")
  case True
  with assms have "r = Inl ConfigPatchError \<and> dk' = dk" by (simp add: update_business_config_def)
  then show ?thesis by blast
next
  case False
  obtain q where q: "load_business_config io path dk = (q, dk)"
    using load_keeps_disk by (metis surj_pair)
  show ?thesis
  proof (cases q)
    case (Inl e)
    with False assms q load_raises [of io path dk e dk] have "r = Inl BusinessConfigError \<and> dk' = dk"
      by (simp add: update_business_config_def bindC_def)
    then show ?thesis by blast
  next
    case (Inr current)
    with False assms q show ?thesis
      by (auto simp: update_business_config_def bindC_def Let_def write_atomically_run split: option.splits)
  qed
qed

text \<open>
  C38: a patch changes editable fields only. When an update succeeds, the mapping that was validated
  and written has, at every path where the current configuration has a plain value and that no
  editable field covers, that same value, or a mapping without any value in it. The second case
  is a gap in the guard: an empty mapping contributes no key to the check, yet replaces what it
  meets; the witness turns the storage section's columns from null to an empty mapping.
\<close>

theorem config_patch_scope:
  assumes "update_business_config io path patch dk = (Inr updated, dk')" and "unique_items patch"
    and "load_business_config io path dk = (Inr current, dk)"
  shows "\<exists>raw. io_validate io raw = Some updated \<and> dget (dk_files dk') path = Some (io_dump io raw)
     \<and> (\<forall>p v. json_at (JObj (dump_config current)) p = Some v \<and> \<not> is_obj v \<and> \<not> editable p \<longrightarrow>
          json_at (JObj raw) p = Some v \<or> (\<exists>h. json_at (JObj raw) p = Some h \<and> hollow h))"
proof -
  let ?raw = "deep_merge (dump_config current) patch"
  from update_config_run [OF assms(1)] assms(3)
  have keys: "set (patch_keys [] patch) \<subseteq> set editable_fields" and valid: "io_validate io ?raw = Some updated"
    and wr: "write_business_config_atomically io path ?raw dk = (Inr (), dk')" by auto
  have "json_at (JObj ?raw) p = Some v \<or> (\<exists>h. json_at (JObj ?raw) p = Some h \<and> hollow h)"
    if v: "json_at (JObj (dump_config current)) p = Some v" "\<not> is_obj v" "\<not> editable p" for p v
  proof -
    have p: "p \<noteq> []" using v(1,2) by auto
    have "p \<noteq> [''business_logic''] \<and> p \<noteq> [''llm'']"
      using v(1,2) by (auto simp: dump_defs)
    then have "\<not> touches [] p x" if "x \<in> set (patch_keys [] patch)" for x
      using touches_editable [OF _ _ p] that keys v(3) by blast
    with merged_leaf [OF assms(2) v(1,2), of "[]"] show ?thesis by blast
  qed
  then show ?thesis
    using valid write_atomically_files(3) [OF wr, of path] by (intro exI [of _ ?raw]) simp
qed

text \<open>
  What is relied on of PyYAML: dumping a mapping that validates and loading the text gives the
  mapping back.
\<close>

definition yaml_round_trip :: "config_io \<Rightarrow> bool" where
  "yaml_round_trip io \<longleftrightarrow> (\<forall>raw config. io_validate io raw = Some config \<longrightarrow> io_load io (io_dump io raw) = Some (JObj raw))"

text \<open>
  C39: an update is all or nothing, and what it returns is what the next reader loads. If it raises,
  it raises one of the two configuration errors and no file has changed; if it returns a
  configuration, loading the file gives that very configuration, no temporary file is left, and
  every other file is as it was.
\<close>

theorem config_update_all_or_nothing:
  assumes "update_business_config io path patch dk = (r, dk')" and "yaml_round_trip io"
  shows "case r of
      Inl e \<Rightarrow> dk' = dk \<and> e \<in> {ConfigPatchError, BusinessConfigError}
    | Inr updated \<Rightarrow> load_business_config io path dk' = (Inr updated, dk')
        \<and> (\<forall>f. f \<noteq> path \<longrightarrow> dget (dk_files dk') f = (if f = path @ ''.tmp'' then None else dget (dk_files dk) f))
        \<and> dk_dirs dk' = dk_dirs dk"
proof (cases r)
  case (Inl e)
  with update_config_run [OF assms(1)] show ?thesis by auto
next
  case (Inr updated)
  with update_config_run [OF assms(1)] obtain raw where valid: "io_validate io raw = Some updated"
    and wr: "write_business_config_atomically io path raw dk = (Inr (), dk')" by auto
  from write_atomically_files [OF wr] valid assms(2) Inr show ?thesis
    by (simp add: load_business_config_def yaml_round_trip_def)
qed

subsection \<open>Witnesses\<close>

definition demo_business :: business_config where
  "demo_business =
     \<lparr>bc_business_id = ''acme'', bc_display_name = ''Acme'', bc_enabled = True, bc_llm = default_llm_config,
      bc_context = default_context_config ''context'',
      bc_business_logic = \<lparr>bl_persona = ''p'', bl_scope_instructions = ''s'', bl_tone = None, bl_out_of_scope_response = None\<rparr>,
      bc_tools = [], bc_tool_provider = ''in_memory'', bc_storage = default_storage_config,
      bc_auth_type = ''none'', bc_frontend_adapters = default_frontend_adapters, bc_rails = default_rails_config\<rparr>"

definition demo_business' :: business_config where
  "demo_business' = demo_business\<lparr>bc_display_name := ''Acme Cafe'', bc_storage := default_storage_config\<lparr>st_columns := Some []\<rparr>\<rparr>"

text \<open>Two configurations and their texts are all that this instance of the libraries knows.\<close>

definition demo_config_io :: config_io where
  "demo_config_io =
     \<lparr>io_load = (\<lambda>t. if t = ''A'' then Some (JObj (dump_config demo_business))
                     else if t = ''B'' then Some (JObj (dump_config demo_business')) else None),
      io_dump = (\<lambda>raw. if raw = dump_config demo_business' then ''B'' else ''A''),
      io_validate = (\<lambda>raw. if raw = dump_config demo_business then Some demo_business
                     else if raw = dump_config demo_business' then Some demo_business' else None)\<rparr>"

definition demo_disk :: disk where
  "demo_disk = \<lparr>dk_files = [(''acme/business.yaml'', ''A'')], dk_dirs = [''acme'']\<rparr>"

definition demo_patch :: "json dict" where
  "demo_patch = [(''display_name'', JStr ''Acme Cafe''), (''storage'', JObj [(''columns'', JObj [])])]"

lemma demo_patch_run:
  "fst (update_business_config demo_config_io ''acme/business.yaml'' demo_patch demo_disk) = Inr demo_business'"
  "fst (load_business_config demo_config_io ''acme/business.yaml'' demo_disk) = Inr demo_business"
  "unique_items demo_patch"
  by code_simp+

lemma config_patch_scope_witness:
  "(\<exists>raw. io_validate demo_config_io raw = Some demo_business'
     \<and> (json_at (JObj raw) [''enabled''] = Some (JBool True)
        \<or> (\<exists>h. json_at (JObj raw) [''enabled''] = Some h \<and> hollow h)))
   \<and> st_columns (bc_storage demo_business) = None \<and> st_columns (bc_storage demo_business') = Some []"
proof -
  let ?x = "update_business_config demo_config_io ''acme/business.yaml'' demo_patch demo_disk"
  have run: "?x = (Inr demo_business', snd ?x)"
    using demo_patch_run(1) by (metis prod.collapse)
  have "load_business_config demo_config_io ''acme/business.yaml'' demo_disk = (Inr demo_business, demo_disk)"
    using demo_patch_run(2) load_keeps_disk by (metis prod.collapse)
  from config_patch_scope [OF run demo_patch_run(3) this] obtain raw where
    raw: "io_validate demo_config_io raw = Some demo_business'"
    and leaves: "\<And>p v. json_at (JObj (dump_config demo_business)) p = Some v \<Longrightarrow> \<not> is_obj v \<Longrightarrow> \<not> editable p \<Longrightarrow>
        json_at (JObj raw) p = Some v \<or> (\<exists>h. json_at (JObj raw) p = Some h \<and> hollow h)" by blast
  have a: "json_at (JObj (dump_config demo_business)) [''enabled''] = Some (JBool True)"
    and b: "\<not> is_obj (JBool True)" and c: "\<not> editable [''enabled'']"
    and d: "st_columns (bc_storage demo_business) = None" "st_columns (bc_storage demo_business') = Some []"
    by code_simp+
  from leaves [OF a b c] raw d show ?thesis by blast
qed

lemma demo_yaml_round_trip: "yaml_round_trip demo_config_io"
proof -
  have "dump_config demo_business \<noteq> dump_config demo_business'" by code_simp
  then show ?thesis by (simp add: yaml_round_trip_def demo_config_io_def)
qed

lemma config_update_all_or_nothing_witness:
  "fst (load_business_config demo_config_io ''acme/business.yaml''
     (snd (update_business_config demo_config_io ''acme/business.yaml'' demo_patch demo_disk))) = Inr demo_business'"
proof -
  let ?x = "update_business_config demo_config_io ''acme/business.yaml'' demo_patch demo_disk"
  have run: "?x = (Inr demo_business', snd ?x)"
    using demo_patch_run(1) by (metis prod.collapse)
  from config_update_all_or_nothing [OF run demo_yaml_round_trip] show ?thesis by simp
qed

end
