(* ===== verification/Sql_Engine.thy ===== *)
theory Sql_Engine
  imports Identifiers
begin

text \<open>
  What the entity repository asks of SQLite, statement by statement: the effect of each statement
  text that \<open>entities/sqlite_repository.py\<close> builds on tables of rows, and the exception
  \<open>sqlite3\<close> raises when the statement fails. Three things of SQLite stay parameters: how it
  prints a REAL as text, how it reads a text as a number, and which words its grammar reserves.
  Names are compared as SQLite does, without regard to ASCII case, and a newline after a name is
  white space of the statement. A SELECT without ORDER BY returns the rows in rowid order.

  A statement is prepared (a syntax or name error leaves everything as it was), then, for a data
  change, \<open>sqlite3\<close> opens a transaction unless one is open, then binds, then runs.
\<close>

subsection \<open>Values\<close>

datatype sqlval = SNull | SInt int | SReal real | SText string

datatype affinity = AffText | AffReal | AffInteger

record sql_engine =
  eng_real_text :: "real \<Rightarrow> string"
  eng_text_number :: "string \<Rightarrow> sqlval option"
  eng_reserved :: "string \<Rightarrow> bool"

definition int64 :: "int \<Rightarrow> bool" where
  "int64 i \<longleftrightarrow> - (2 ^ 63) \<le> i \<and> i < 2 ^ 63"

text \<open>Binding a Python value to a parameter.\<close>

fun bind_value :: "json \<Rightarrow> sqlval result" where
  "bind_value JNull = Inr SNull"
| "bind_value (JBool b) = Inr (SInt (if b then 1 else 0))"
| "bind_value (JInt i) = (if int64 i then Inr (SInt i) else Inl OverflowError)"
| "bind_value (JFloat r) = Inr (SReal r)"
| "bind_value (JStr s) = Inr (SText s)"
| "bind_value _ = Inl SqlProgrammingError"

fun fetch_value :: "sqlval \<Rightarrow> json" where
  "fetch_value SNull = JNull"
| "fetch_value (SInt i) = JInt i"
| "fetch_value (SReal r) = JFloat r"
| "fetch_value (SText s) = JStr s"

fun is_integer :: "sqlval \<Rightarrow> bool" where
  "is_integer (SInt i) = True"
| "is_integer _ = False"

text \<open>A REAL that is a whole number in range becomes an INTEGER under INTEGER affinity.\<close>

fun whole :: "sqlval \<Rightarrow> sqlval" where
  "whole (SReal r) = (if of_int \<lfloor>r\<rfloor> = r \<and> int64 \<lfloor>r\<rfloor> then SInt \<lfloor>r\<rfloor> else SReal r)"
| "whole v = v"

fun to_real :: "sqlval \<Rightarrow> sqlval" where
  "to_real (SInt i) = SReal (of_int i)"
| "to_real v = v"

fun numeric :: "sql_engine \<Rightarrow> sqlval \<Rightarrow> sqlval" where
  "numeric eng (SText s) = (case eng_text_number eng s of None \<Rightarrow> SText s | Some n \<Rightarrow> n)"
| "numeric eng v = v"

fun textual :: "sql_engine \<Rightarrow> sqlval \<Rightarrow> sqlval" where
  "textual eng (SInt i) = SText (int_digits i)"
| "textual eng (SReal r) = SText (eng_real_text eng r)"
| "textual eng v = v"

fun apply_affinity :: "sql_engine \<Rightarrow> affinity \<Rightarrow> sqlval \<Rightarrow> sqlval" where
  "apply_affinity eng AffText v = textual eng v"
| "apply_affinity eng AffReal v = to_real (numeric eng v)"
| "apply_affinity eng AffInteger v = whole (numeric eng v)"

subsection \<open>Tables\<close>

text \<open>
  Every table the repository creates has an \<open>id\<close> primary key of its own first, either
  \<open>TEXT\<close> or \<open>INTEGER AUTOINCREMENT\<close>; \<open>tb_columns\<close> are the others. A row is its id and
  the values of the other columns, in order.
\<close>

record sql_column =
  sc_name :: string
  sc_affinity :: affinity
  sc_not_null :: bool

record sql_table =
  tb_name :: string
  tb_autoincrement :: bool
  tb_columns :: "sql_column list"
  tb_sequence :: int
  tb_rows :: "(sqlval \<times> sqlval list) list"

record sql_db =
  db_tables :: "sql_table list"
  db_other_tables :: "string list"
  db_in_transaction :: bool

text \<open>The name a piece of statement text stands for.\<close>

definition sql_token :: "string \<Rightarrow> string" where
  "sql_token s = (if s \<noteq> [] \<and> last s = newline then butlast s else s)"

definition fold_name :: "string \<Rightarrow> string" where
  "fold_name s = py_lower (sql_token s)"

definition column_key :: "sql_column \<Rightarrow> string" where
  "column_key c = fold_name (sc_name c)"

definition table_key :: "sql_table \<Rightarrow> string" where
  "table_key t = fold_name (tb_name t)"

definition id_key :: string where
  "id_key = ''id''"

definition find_table :: "string \<Rightarrow> 'z sql_db_scheme \<Rightarrow> sql_table option" where
  "find_table name db = List.find (\<lambda>t. table_key t = fold_name name) (db_tables db)"

definition put_table :: "sql_table \<Rightarrow> 'z sql_db_scheme \<Rightarrow> 'z sql_db_scheme" where
  "put_table t db = db\<lparr>db_tables := map (\<lambda>u. if table_key u = table_key t then t else u) (db_tables db)\<rparr>"

definition usable_name :: "sql_engine \<Rightarrow> string \<Rightarrow> bool" where
  "usable_name eng name \<longleftrightarrow> \<not> eng_reserved eng (fold_name name)"

text \<open>The table a statement names, or the error of preparing it.\<close>

definition the_table :: "string \<Rightarrow> ('z sql_db_scheme, sql_table) cmd" where
  "the_table name = (\<lambda>db. case find_table name db of
     None \<Rightarrow> (Inl SqlOperationalError, db) | Some t \<Rightarrow> (Inr t, db))"

definition guard_sql :: "bool \<Rightarrow> ('z sql_db_scheme, unit) cmd" where
  "guard_sql ok = (if ok then ret () else raise SqlOperationalError)"

definition begin_transaction :: "('z sql_db_scheme, unit) cmd" where
  "begin_transaction = modify (\<lambda>db. db\<lparr>db_in_transaction := True\<rparr>)"

definition sql_commit :: "('z sql_db_scheme, unit) cmd" where
  "sql_commit = modify (\<lambda>db. db\<lparr>db_in_transaction := False\<rparr>)"

subsection \<open>Definition statements\<close>

definition sql_create_table ::
  "sql_engine \<Rightarrow> string \<Rightarrow> bool \<Rightarrow> sql_column list \<Rightarrow> ('z sql_db_scheme, unit) cmd" where
  "sql_create_table eng name autoincrement columns =
     bindC (gets (\<lambda>db. usable_name eng name
                    \<and> list_all (\<lambda>c. usable_name eng (sc_name c)) columns
                    \<and> \<not> py_startswith (fold_name name) ''sqlite_''
                    \<and> find_table name db = None
                    \<and> fold_name name \<notin> set (map fold_name (db_other_tables db))
                    \<and> distinct (id_key # map column_key columns))) (\<lambda>ok.
     bindC (guard_sql ok) (\<lambda>_.
     modify (\<lambda>db. db\<lparr>db_tables := db_tables db @
       [\<lparr>tb_name = name, tb_autoincrement = autoincrement, tb_columns = columns,
         tb_sequence = 0, tb_rows = []\<rparr>]\<rparr>)))"

definition sql_drop_table :: "string \<Rightarrow> ('z sql_db_scheme, unit) cmd" where
  "sql_drop_table name =
     modify (\<lambda>db. db\<lparr>db_tables := filter (\<lambda>t. table_key t \<noteq> fold_name name) (db_tables db)\<rparr>)"

definition sql_add_column :: "sql_engine \<Rightarrow> string \<Rightarrow> sql_column \<Rightarrow> ('z sql_db_scheme, unit) cmd" where
  "sql_add_column eng name column =
     bindC (the_table name) (\<lambda>t.
     bindC (guard_sql (usable_name eng (sc_name column)
                     \<and> column_key column \<notin> set (id_key # map column_key (tb_columns t)))) (\<lambda>_.
     modify (put_table (t\<lparr>tb_columns := tb_columns t @ [column],
                         tb_rows := map (\<lambda>(i, vs). (i, vs @ [SNull])) (tb_rows t)\<rparr>))))"

definition sql_rename_column ::
  "sql_engine \<Rightarrow> string \<Rightarrow> string \<Rightarrow> string \<Rightarrow> ('z sql_db_scheme, unit) cmd" where
  "sql_rename_column eng name old new =
     bindC (the_table name) (\<lambda>t.
     bindC (guard_sql (usable_name eng new
                     \<and> fold_name old \<in> set (map column_key (tb_columns t))
                     \<and> (fold_name new \<noteq> fold_name old \<longrightarrow>
                          fold_name new \<notin> set (id_key # map column_key (tb_columns t))))) (\<lambda>_.
     modify (put_table (t\<lparr>tb_columns :=
       map (\<lambda>c. if column_key c = fold_name old then c\<lparr>sc_name := new\<rparr> else c) (tb_columns t)\<rparr>))))"

text \<open>Dropping a column removes its value from every row.\<close>

definition drop_at :: "bool list \<Rightarrow> 'a list \<Rightarrow> 'a list" where
  "drop_at keep xs = map snd (filter fst (zip keep xs))"

definition sql_drop_column :: "string \<Rightarrow> string \<Rightarrow> ('z sql_db_scheme, unit) cmd" where
  "sql_drop_column name column =
     bindC (the_table name) (\<lambda>t.
     bindC (guard_sql (fold_name column \<in> set (map column_key (tb_columns t)))) (\<lambda>_.
     let keep = map (\<lambda>c. column_key c \<noteq> fold_name column) (tb_columns t)
     in modify (put_table (t\<lparr>tb_columns := drop_at keep (tb_columns t),
                             tb_rows := map (\<lambda>(i, vs). (i, drop_at keep vs)) (tb_rows t)\<rparr>))))"

subsection \<open>Data statements\<close>

definition id_affinity :: "sql_table \<Rightarrow> affinity" where
  "id_affinity t = (if tb_autoincrement t then AffInteger else AffText)"

text \<open>\<open>WHERE id = ?\<close>: the parameter takes the column's affinity, and NULL equals nothing.\<close>

definition id_matches :: "sql_engine \<Rightarrow> sql_table \<Rightarrow> sqlval \<Rightarrow> sqlval \<times> sqlval list \<Rightarrow> bool" where
  "id_matches eng t v row \<longleftrightarrow> v \<noteq> SNull \<and> fst row = apply_affinity eng (id_affinity t) v"

definition column_value :: "sql_table \<Rightarrow> string \<Rightarrow> sqlval \<times> sqlval list \<Rightarrow> sqlval" where
  "column_value t name row =
     (if fold_name name = id_key then fst row
      else case dget (zip (map column_key (tb_columns t)) (snd row)) (fold_name name) of
             None \<Rightarrow> SNull | Some v \<Rightarrow> v)"

definition known_columns :: "sql_table \<Rightarrow> string list \<Rightarrow> bool" where
  "known_columns t names \<longleftrightarrow> list_all (\<lambda>n. fold_name n \<in> set (id_key # map column_key (tb_columns t))) names"

definition sql_select :: "string \<Rightarrow> string list \<Rightarrow> ('z sql_db_scheme, sqlval list list) cmd" where
  "sql_select name columns =
     bindC (the_table name) (\<lambda>t.
     bindC (guard_sql (known_columns t columns)) (\<lambda>_.
     ret (map (\<lambda>row. map (\<lambda>c. column_value t c row) columns) (tb_rows t))))"

definition sql_select_id ::
  "sql_engine \<Rightarrow> string \<Rightarrow> string list \<Rightarrow> json \<Rightarrow> ('z sql_db_scheme, sqlval list option) cmd" where
  "sql_select_id eng name columns row_id =
     bindC (the_table name) (\<lambda>t.
     bindC (guard_sql (known_columns t columns)) (\<lambda>_.
     bindC (liftR (bind_value row_id)) (\<lambda>v.
     ret (map_option (\<lambda>row. map (\<lambda>c. column_value t c row) columns)
            (List.find (id_matches eng t v) (tb_rows t))))))"

text \<open>The row of an INSERT: unnamed columns are NULL, named ones take the column's affinity.\<close>

definition new_row_values :: "sql_engine \<Rightarrow> sql_table \<Rightarrow> string list \<Rightarrow> sqlval list \<Rightarrow> sqlval list" where
  "new_row_values eng t names values =
     map (\<lambda>c. case dget (zip (map fold_name names) values) (column_key c) of
                None \<Rightarrow> SNull | Some v \<Rightarrow> apply_affinity eng (sc_affinity c) v) (tb_columns t)"

definition not_null_ok :: "sql_table \<Rightarrow> sqlval list \<Rightarrow> bool" where
  "not_null_ok t vs \<longleftrightarrow> list_all (\<lambda>(c, v). sc_not_null c \<longrightarrow> v \<noteq> SNull) (zip (tb_columns t) vs)"

definition max_row_id :: "sql_table \<Rightarrow> int" where
  "max_row_id t = foldl max (tb_sequence t) (map (\<lambda>(i, vs). case i of SInt n \<Rightarrow> n | _ \<Rightarrow> 0) (tb_rows t))"

text \<open>Rows of an INTEGER PRIMARY KEY table lie in id order; other rows in insertion order.\<close>

fun insert_by_id :: "sqlval \<times> sqlval list \<Rightarrow> (sqlval \<times> sqlval list) list \<Rightarrow> (sqlval \<times> sqlval list) list" where
  "insert_by_id row [] = [row]"
| "insert_by_id row (r # rs) =
     (case (fst row, fst r) of
        (SInt a, SInt b) \<Rightarrow> if a < b then row # r # rs else r # insert_by_id row rs
      | _ \<Rightarrow> r # insert_by_id row rs)"

definition place_row :: "sql_table \<Rightarrow> sqlval \<times> sqlval list \<Rightarrow> sql_table" where
  "place_row t row =
     (let others = filter (\<lambda>r. fst r \<noteq> fst row) (tb_rows t)
      in t\<lparr>tb_rows := (if tb_autoincrement t then insert_by_id row others else others @ [row]),
           tb_sequence := (case fst row of SInt n \<Rightarrow> if tb_autoincrement t then max (tb_sequence t) n else tb_sequence t
                                         | _ \<Rightarrow> tb_sequence t)\<rparr>)"

text \<open>\<open>INSERT INTO t (columns) VALUES (?, ...)\<close>: SQLite chooses the id, returned as \<open>lastrowid\<close>.\<close>

definition sql_insert ::
  "sql_engine \<Rightarrow> string \<Rightarrow> string list \<Rightarrow> json list \<Rightarrow> ('z sql_db_scheme, int) cmd" where
  "sql_insert eng name columns values =
     bindC (the_table name) (\<lambda>t.
     bindC (guard_sql (columns \<noteq> [] \<and> known_columns t columns)) (\<lambda>_.
     bindC begin_transaction (\<lambda>_.
     bindC (liftR (mapMR bind_value values)) (\<lambda>vs.
     let row = new_row_values eng t columns vs; n = max_row_id t + 1 in
     if \<not> not_null_ok t row then raise SqlIntegrityError
     else bindC (guard_sql (int64 n)) (\<lambda>_.
     bindC (modify (put_table (place_row t (SInt n, row)))) (\<lambda>_.
     ret n))))))"

text \<open>\<open>INSERT OR REPLACE INTO t (id, columns) VALUES (?, ?, ...)\<close>\<close>

definition sql_replace ::
  "sql_engine \<Rightarrow> string \<Rightarrow> string list \<Rightarrow> json \<Rightarrow> json list \<Rightarrow> ('z sql_db_scheme, unit) cmd" where
  "sql_replace eng name columns row_id values =
     bindC (the_table name) (\<lambda>t.
     bindC (guard_sql (columns \<noteq> [] \<and> known_columns t columns)) (\<lambda>_.
     bindC begin_transaction (\<lambda>_.
     bindC (liftR (bind_value row_id)) (\<lambda>i.
     bindC (liftR (mapMR bind_value values)) (\<lambda>vs.
     let row = new_row_values eng t columns vs; key = apply_affinity eng (id_affinity t) i in
     if tb_autoincrement t \<and> \<not> is_integer key then raise SqlIntegrityError
     else if \<not> not_null_ok t row then raise SqlIntegrityError
     else modify (put_table (place_row t (key, row))))))))"

definition sql_delete_id :: "sql_engine \<Rightarrow> string \<Rightarrow> json \<Rightarrow> ('z sql_db_scheme, bool) cmd" where
  "sql_delete_id eng name row_id =
     bindC (the_table name) (\<lambda>t.
     bindC begin_transaction (\<lambda>_.
     bindC (liftR (bind_value row_id)) (\<lambda>v.
     bindC (modify (put_table (t\<lparr>tb_rows := filter (\<lambda>r. \<not> id_matches eng t v r) (tb_rows t)\<rparr>))) (\<lambda>_.
     ret (list_ex (id_matches eng t v) (tb_rows t))))))"

end
