(* ===== verification/Entities.thy ===== *)
theory Entities
  imports Sql_Engine
begin

text \<open>
  A Business's owner-defined tables: the data model (\<open>entities/base.py\<close>) and every operation
  of \<open>SqliteEntityRepository\<close> (\<open>entities/sqlite_repository.py\<close>), statement for statement
  over the SQL engine. The rows of the metadata table \<open>__qantonic_tables__\<close> are a field of the
  database; a column that holds JSON text is modelled by the JSON value (theory Columns_Text: the text
  \<open>json.loads\<close> reads gives it back).
\<close>

subsection \<open>Data model\<close>

datatype column_type = ColText | ColNumber | ColBoolean

datatype id_type = IdUuid | IdAutoIncrement

record column_def =
  cd_name :: string
  cd_type :: column_type
  cd_required :: bool

record table_def =
  td_table_name :: string
  td_display_name :: string
  td_columns :: "column_def list"
  td_id_type :: id_type
  td_tool_linked :: "string option"

fun column_type_value :: "column_type \<Rightarrow> string" where
  "column_type_value ColText = ''text''"
| "column_type_value ColNumber = ''number''"
| "column_type_value ColBoolean = ''boolean''"

fun id_type_value :: "id_type \<Rightarrow> string" where
  "id_type_value IdUuid = ''uuid''"
| "id_type_value IdAutoIncrement = ''auto_increment''"

definition parse_column_type :: "string \<Rightarrow> column_type result" where
  "parse_column_type s =
     (case List.find (\<lambda>t. column_type_value t = s) [ColText, ColNumber, ColBoolean] of
        Some t \<Rightarrow> Inr t | None \<Rightarrow> Inl ValidationError)"

definition parse_id_type :: "string \<Rightarrow> id_type result" where
  "parse_id_type s =
     (case List.find (\<lambda>t. id_type_value t = s) [IdUuid, IdAutoIncrement] of
        Some t \<Rightarrow> Inr t | None \<Rightarrow> Inl ValueError)"

text \<open>\<open>ColumnDef.model_dump(mode="json")\<close> and \<open>ColumnDef(**c)\<close>\<close>

definition dump_column :: "column_def \<Rightarrow> json" where
  "dump_column c = JObj [(''name'', JStr (cd_name c)), (''type'', JStr (column_type_value (cd_type c))),
                         (''required'', JBool (cd_required c))]"

fun json_str :: "json \<Rightarrow> string result" where
  "json_str (JStr s) = Inr s"
| "json_str _ = Inl ValidationError"

fun json_bool :: "json \<Rightarrow> bool result" where
  "json_bool (JBool b) = Inr b"
| "json_bool _ = Inl ValidationError"

definition parse_column :: "json \<Rightarrow> column_def result" where
  "parse_column v =
     (case v of
        JObj d \<Rightarrow>
          bindR (json_str (dget_default d ''name'' JNull)) (\<lambda>n.
          bindR (bindR (json_str (dget_default d ''type'' JNull)) parse_column_type) (\<lambda>t.
          bindR (json_bool (dget_default d ''required'' (JBool False))) (\<lambda>r.
          Inr \<lparr>cd_name = n, cd_type = t, cd_required = r\<rparr>)))
      | _ \<Rightarrow> Inl TypeError)"

subsection \<open>The database file\<close>

record meta_row =
  mt_table_name :: string
  mt_display_name :: string
  mt_columns :: json
  mt_id_type :: string
  mt_tool_linked :: "string option"
  mt_created_at :: time

text \<open>\<open>ed_uuid n\<close> and \<open>ed_now n\<close> are what the \<open>n\<close>-th call of \<open>uuid4().hex\<close> and of the clock return.\<close>

record entity_db = sql_db +
  ed_meta :: "meta_row list"
  ed_uuid :: "nat \<Rightarrow> string"
  ed_uuid_count :: nat
  ed_now :: "nat \<Rightarrow> time"
  ed_now_count :: nat

definition meta_table_name :: string where
  "meta_table_name = ''__qantonic_tables__''"

definition fresh_uuid :: "(entity_db, string) cmd" where
  "fresh_uuid = (\<lambda>db. (Inr (ed_uuid db (ed_uuid_count db)), db\<lparr>ed_uuid_count := ed_uuid_count db + 1\<rparr>))"

definition clock_now :: "(entity_db, time) cmd" where
  "clock_now = (\<lambda>db. (Inr (ed_now db (ed_now_count db)), db\<lparr>ed_now_count := ed_now_count db + 1\<rparr>))"

text \<open>A new file, with the tables of the Business's other stores.\<close>

definition repo_open :: "string list \<Rightarrow> (nat \<Rightarrow> string) \<Rightarrow> (nat \<Rightarrow> time) \<Rightarrow> entity_db" where
  "repo_open others uuids clock =
     \<lparr>db_tables = [], db_other_tables = meta_table_name # others, db_in_transaction = False,
      ed_meta = [], ed_uuid = uuids, ed_uuid_count = 0, ed_now = clock, ed_now_count = 0\<rparr>"

subsection \<open>Reading the metadata\<close>

definition table_def_from_row :: "meta_row \<Rightarrow> table_def result" where
  "table_def_from_row m =
     bindR (case mt_columns m of JArr cs \<Rightarrow> mapMR parse_column cs | _ \<Rightarrow> Inl TypeError) (\<lambda>columns.
     bindR (parse_id_type (mt_id_type m)) (\<lambda>idt.
     Inr \<lparr>td_table_name = mt_table_name m, td_display_name = mt_display_name m,
          td_columns = columns, td_id_type = idt, td_tool_linked = mt_tool_linked m\<rparr>))"

definition find_meta :: "string \<Rightarrow> entity_db \<Rightarrow> meta_row option" where
  "find_meta name db = List.find (\<lambda>m. mt_table_name m = name) (ed_meta db)"

definition list_tables :: "(entity_db, table_def list) cmd" where
  "list_tables = (\<lambda>db. (mapMR table_def_from_row (sort_key mt_table_name (ed_meta db)), db))"

definition require_table :: "string \<Rightarrow> (entity_db, table_def) cmd" where
  "require_table name = (\<lambda>db. case find_meta name db of
     None \<Rightarrow> (Inl (UnknownTableError name), db)
   | Some m \<Rightarrow> (table_def_from_row m, db))"

definition write_columns_metadata :: "string \<Rightarrow> column_def list \<Rightarrow> (entity_db, unit) cmd" where
  "write_columns_metadata name columns =
     bindC begin_transaction (\<lambda>_.
     modify (\<lambda>db. db\<lparr>ed_meta := map (\<lambda>m. if mt_table_name m = name
         then m\<lparr>mt_columns := JArr (map dump_column columns)\<rparr> else m) (ed_meta db)\<rparr>))"

subsection \<open>Tool-linked tables\<close>

definition tool_linked_required :: "string \<Rightarrow> (string \<times> column_type) list option" where
  "tool_linked_required link =
     (if link = ''sqlite_menu''
      then Some [(''name'', ColText), (''category'', ColText), (''price'', ColNumber),
                 (''stock_quantity'', ColNumber)]
      else None)"

definition check_tool_linked_requirements :: "string \<Rightarrow> column_def list \<Rightarrow> unit result" where
  "check_tool_linked_requirements link columns =
     (case tool_linked_required link of
        None \<Rightarrow> Inr ()
      | Some required \<Rightarrow>
          let provided = fold (\<lambda>c. AList.update (cd_name c) (cd_type c)) columns [];
              missing = filter (\<lambda>(n, t). dget provided n \<noteq> Some t) required
          in if missing \<noteq> [] then Inl (InvalidToolLinkedTableError link) else Inr ())"

definition require_column_not_tool_linked :: "table_def \<Rightarrow> string \<Rightarrow> unit result" where
  "require_column_not_tool_linked td column_name =
     (case td_tool_linked td of
        None \<Rightarrow> Inr ()
      | Some link \<Rightarrow>
          let required = (case tool_linked_required link of None \<Rightarrow> [] | Some r \<Rightarrow> r)
          in if column_name \<in> set (dkeys required) then Inl (InvalidToolLinkedTableError link) else Inr ())"

subsection \<open>Tables and columns\<close>

fun sql_type :: "column_type \<Rightarrow> affinity" where
  "sql_type ColText = AffText"
| "sql_type ColNumber = AffReal"
| "sql_type ColBoolean = AffInteger"

definition sql_column_of :: "bool \<Rightarrow> column_def \<Rightarrow> sql_column" where
  "sql_column_of not_null c =
     \<lparr>sc_name = cd_name c, sc_affinity = sql_type (cd_type c), sc_not_null = not_null\<rparr>"

definition validate_column :: "column_def \<Rightarrow> column_def result" where
  "validate_column c = bindR (validate_identifier (cd_name c) InvalidTableConfigError) (\<lambda>n. Inr (c\<lparr>cd_name := n\<rparr>))"

definition check_link_free :: "string \<Rightarrow> (entity_db, unit) cmd" where
  "check_link_free link =
     bindC list_tables (\<lambda>ts.
     if list_ex (\<lambda>t. td_tool_linked t = Some link) ts then raise (InvalidToolLinkedTableError link)
     else ret ())"

definition insert_meta :: "meta_row \<Rightarrow> (entity_db, unit) cmd" where
  "insert_meta m = bindC begin_transaction (\<lambda>_. modify (\<lambda>db. db\<lparr>ed_meta := ed_meta db @ [m]\<rparr>))"

definition create_table :: "sql_engine \<Rightarrow> table_def \<Rightarrow> (entity_db, unit) cmd" where
  "create_table eng td =
     bindC (liftR (validate_identifier (td_table_name td) InvalidTableConfigError)) (\<lambda>table_name.
     bindC (liftR (mapMR validate_column (td_columns td))) (\<lambda>columns.
     bindC (if list_ex (\<lambda>c. cd_name c = ''id'') columns then raise (InvalidTableConfigError ''id'') else ret ()) (\<lambda>_.
     bindC (case td_tool_linked td of
              None \<Rightarrow> ret ()
            | Some link \<Rightarrow>
                bindC (liftR (check_tool_linked_requirements link columns)) (\<lambda>_. check_link_free link)) (\<lambda>_.
     bindC (gets (find_meta table_name)) (\<lambda>existing.
     if existing \<noteq> None then raise (TableAlreadyExistsError table_name)
     else
     bindC (sql_create_table eng table_name (td_id_type td = IdAutoIncrement)
              (map (\<lambda>c. sql_column_of (cd_required c) c) columns)) (\<lambda>_.
     bindC clock_now (\<lambda>now.
     bindC (insert_meta \<lparr>mt_table_name = table_name, mt_display_name = td_display_name td,
              mt_columns = JArr (map dump_column columns), mt_id_type = id_type_value (td_id_type td),
              mt_tool_linked = td_tool_linked td, mt_created_at = now\<rparr>) (\<lambda>_.
     sql_commit))))))))"

definition drop_table :: "string \<Rightarrow> (entity_db, unit) cmd" where
  "drop_table name =
     bindC (require_table name) (\<lambda>td.
     bindC (sql_drop_table (td_table_name td)) (\<lambda>_.
     bindC begin_transaction (\<lambda>_.
     bindC (modify (\<lambda>db. db\<lparr>ed_meta := filter (\<lambda>m. mt_table_name m \<noteq> td_table_name td) (ed_meta db)\<rparr>)) (\<lambda>_.
     sql_commit))))"

definition add_column :: "sql_engine \<Rightarrow> string \<Rightarrow> column_def \<Rightarrow> (entity_db, table_def) cmd" where
  "add_column eng name column =
     bindC (require_table name) (\<lambda>td.
     bindC (liftR (validate_identifier (cd_name column) InvalidTableConfigError)) (\<lambda>column_name.
     if column_name = ''id'' \<or> list_ex (\<lambda>c. cd_name c = column_name) (td_columns td)
     then raise (ColumnAlreadyExistsError column_name)
     else let column = column\<lparr>cd_name := column_name\<rparr> in
     bindC (sql_add_column eng (td_table_name td) (sql_column_of False column)) (\<lambda>_.
     bindC (write_columns_metadata name (td_columns td @ [column])) (\<lambda>_.
     bindC sql_commit (\<lambda>_.
     require_table name)))))"

definition rename_column :: "sql_engine \<Rightarrow> string \<Rightarrow> string \<Rightarrow> string \<Rightarrow> (entity_db, table_def) cmd" where
  "rename_column eng name column_name new_name =
     bindC (require_table name) (\<lambda>td.
     bindC (liftR (validate_identifier new_name InvalidTableConfigError)) (\<lambda>new_name.
     if \<not> list_ex (\<lambda>c. cd_name c = column_name) (td_columns td) then raise (UnknownColumnError column_name)
     else if new_name \<noteq> column_name \<and> list_ex (\<lambda>c. cd_name c = new_name) (td_columns td)
     then raise (ColumnAlreadyExistsError new_name)
     else
     bindC (liftR (require_column_not_tool_linked td column_name)) (\<lambda>_.
     bindC (sql_rename_column eng (td_table_name td) column_name new_name) (\<lambda>_.
     bindC (write_columns_metadata name
              (map (\<lambda>c. if cd_name c = column_name then c\<lparr>cd_name := new_name\<rparr> else c) (td_columns td))) (\<lambda>_.
     bindC sql_commit (\<lambda>_.
     require_table name))))))"

definition drop_column :: "string \<Rightarrow> string \<Rightarrow> (entity_db, table_def) cmd" where
  "drop_column name column_name =
     bindC (require_table name) (\<lambda>td.
     if \<not> list_ex (\<lambda>c. cd_name c = column_name) (td_columns td) then raise (UnknownColumnError column_name)
     else
     bindC (liftR (require_column_not_tool_linked td column_name)) (\<lambda>_.
     bindC (sql_drop_column (td_table_name td) column_name) (\<lambda>_.
     bindC (write_columns_metadata name (filter (\<lambda>c. cd_name c \<noteq> column_name) (td_columns td))) (\<lambda>_.
     bindC sql_commit (\<lambda>_.
     require_table name)))))"

subsection \<open>Rows\<close>

definition to_sql_value :: "column_def \<Rightarrow> json \<Rightarrow> json" where
  "to_sql_value c v =
     (if v = JNull then JNull
      else if cd_type c = ColBoolean then JInt (if truthy v then 1 else 0)
      else v)"

text \<open>\<open>_row_to_dict\<close>: BOOLEAN cells come back as booleans.\<close>

definition cell_value :: "table_def \<Rightarrow> string \<Rightarrow> sqlval \<Rightarrow> json" where
  "cell_value td name v =
     (case List.find (\<lambda>c. cd_name c = name) (rev (td_columns td)) of
        Some c \<Rightarrow> if cd_type c = ColBoolean \<and> v \<noteq> SNull then JBool (truthy (fetch_value v)) else fetch_value v
      | None \<Rightarrow> fetch_value v)"

definition row_to_dict :: "table_def \<Rightarrow> string list \<Rightarrow> sqlval list \<Rightarrow> json dict" where
  "row_to_dict td names row =
     fold (\<lambda>(n, v). AList.update n (cell_value td n v)) (zip names row) []"

definition row_columns :: "table_def \<Rightarrow> string list" where
  "row_columns td = ''id'' # map cd_name (td_columns td)"

definition list_rows :: "string \<Rightarrow> (entity_db, json dict list) cmd" where
  "list_rows name =
     bindC (require_table name) (\<lambda>td.
     bindC (sql_select (td_table_name td) (row_columns td)) (\<lambda>rows.
     ret (map (row_to_dict td (row_columns td)) rows)))"

definition get_row :: "sql_engine \<Rightarrow> string \<Rightarrow> json \<Rightarrow> (entity_db, json dict option) cmd" where
  "get_row eng name row_id =
     bindC (require_table name) (\<lambda>td.
     bindC (sql_select_id eng (td_table_name td) (row_columns td) row_id) (\<lambda>row.
     ret (map_option (row_to_dict td (row_columns td)) row)))"

definition upsert_row :: "sql_engine \<Rightarrow> string \<Rightarrow> json dict \<Rightarrow> (entity_db, json dict) cmd" where
  "upsert_row eng name row =
     bindC (require_table name) (\<lambda>td.
     let column_names = map cd_name (td_columns td);
         values = map (\<lambda>c. to_sql_value c (dget_default row (cd_name c) JNull)) (td_columns td);
         provided_id = dget_default row ''id'' JNull
     in
     bindC (if provided_id = JNull \<and> td_id_type td = IdAutoIncrement
            then bindC (sql_insert eng (td_table_name td) column_names values) (\<lambda>n. ret (JInt n))
            else bindC (if truthy provided_id then ret provided_id
                        else bindC fresh_uuid (\<lambda>u. ret (JStr u))) (\<lambda>row_id.
                 bindC (sql_replace eng (td_table_name td) column_names row_id values) (\<lambda>_.
                 ret row_id))) (\<lambda>row_id.
     bindC sql_commit (\<lambda>_.
     bindC (get_row eng name row_id) (\<lambda>stored.
     case stored of None \<Rightarrow> raise AssertionError | Some d \<Rightarrow> ret d))))"

definition delete_row :: "sql_engine \<Rightarrow> string \<Rightarrow> json \<Rightarrow> (entity_db, bool) cmd" where
  "delete_row eng name row_id =
     bindC (require_table name) (\<lambda>td.
     bindC (sql_delete_id eng (td_table_name td) row_id) (\<lambda>deleted.
     bindC sql_commit (\<lambda>_.
     ret deleted)))"

end
