(* ===== verification/Entities_Inv.thy ===== *)
theory Entities_Inv
  imports Entities
begin

text \<open>
  What the entity repository promises. The metadata rows, parsed, are a catalogue of table
  definitions; the invariant says that the catalogue is well formed and that the engine's tables
  are exactly the described ones. The schema operations refine operations on the catalogue, and
  an operation that raises leaves tables and metadata as they were.
\<close>

subsection \<open>The catalogue\<close>

definition catalogue :: "entity_db \<Rightarrow> table_def list result" where
  "catalogue db = mapMR table_def_from_row (ed_meta db)"

definition def_key :: "table_def \<Rightarrow> string" where
  "def_key td = fold_name (td_table_name td)"

definition def_column_keys :: "table_def \<Rightarrow> string list" where
  "def_column_keys td = map (\<lambda>c. fold_name (cd_name c)) (td_columns td)"

text \<open>The columns a tool-linked table must have, by name and type.\<close>

definition has_required_columns :: "table_def \<Rightarrow> bool" where
  "has_required_columns td =
     (case td_tool_linked td of
        None \<Rightarrow> True
      | Some link \<Rightarrow> (case tool_linked_required link of
          None \<Rightarrow> True
        | Some required \<Rightarrow>
            list_all (\<lambda>(n, ty). list_ex (\<lambda>c. cd_name c = n \<and> cd_type c = ty) (td_columns td)) required))"

definition def_wf :: "table_def \<Rightarrow> bool" where
  "def_wf td \<longleftrightarrow> distinct (id_key # def_column_keys td) \<and> has_required_columns td"

definition links :: "table_def list \<Rightarrow> string list" where
  "links tds = concat (map (\<lambda>td. case td_tool_linked td of None \<Rightarrow> [] | Some l \<Rightarrow> [l]) tds)"

definition catalogue_wf :: "string list \<Rightarrow> table_def list \<Rightarrow> bool" where
  "catalogue_wf others tds \<longleftrightarrow>
     distinct (map def_key tds) \<and> list_all def_wf tds \<and> distinct (links tds)
     \<and> list_all (\<lambda>td. def_key td \<notin> set (map fold_name others)) tds"

subsection \<open>Tables and their definitions\<close>

fun row_id_ok :: "bool \<Rightarrow> int \<Rightarrow> sqlval \<Rightarrow> bool" where
  "row_id_ok True m (SInt n) = (n \<le> m)"
| "row_id_ok False m (SText s) = True"
| "row_id_ok _ m _ = False"

fun conforms :: "sql_engine \<Rightarrow> affinity \<Rightarrow> sqlval \<Rightarrow> bool" where
  "conforms eng a SNull = True"
| "conforms eng AffText v = (case v of SText s \<Rightarrow> True | _ \<Rightarrow> False)"
| "conforms eng AffReal v = (case v of SReal r \<Rightarrow> True | SText s \<Rightarrow> eng_text_number eng s = None | _ \<Rightarrow> False)"
| "conforms eng AffInteger v = (v = SInt 0 \<or> v = SInt 1)"

definition rows_ok ::
  "sql_engine \<Rightarrow> bool \<Rightarrow> int \<Rightarrow> affinity list \<Rightarrow> (sqlval \<times> sqlval list) list \<Rightarrow> bool" where
  "rows_ok eng auto m affs rows \<longleftrightarrow> distinct (map fst rows)
     \<and> list_all (\<lambda>row. row_id_ok auto m (fst row) \<and> list_all2 (conforms eng) affs (snd row)) rows"

definition describes :: "sql_engine \<Rightarrow> table_def \<Rightarrow> sql_table \<Rightarrow> bool" where
  "describes eng td t \<longleftrightarrow> table_key t = def_key td
     \<and> (tb_autoincrement t \<longleftrightarrow> td_id_type td = IdAutoIncrement)
     \<and> map column_key (tb_columns t) = def_column_keys td
     \<and> map sc_affinity (tb_columns t) = map (sql_type \<circ> cd_type) (td_columns td)
     \<and> rows_ok eng (tb_autoincrement t) (tb_sequence t) (map sc_affinity (tb_columns t)) (tb_rows t)"

definition repo_inv :: "sql_engine \<Rightarrow> table_def list \<Rightarrow> entity_db \<Rightarrow> bool" where
  "repo_inv eng tds db \<longleftrightarrow> catalogue db = Inr tds \<and> catalogue_wf (db_other_tables db) tds
     \<and> list_all2 (describes eng) tds (db_tables db)"

text \<open>
  The one law about the parameters: what SQLite reads from a numeric text is a 64-bit INTEGER or
  a REAL.
\<close>

definition numbers_only :: "sql_engine \<Rightarrow> bool" where
  "numbers_only eng \<longleftrightarrow> (\<forall>s n. eng_text_number eng s = Some n \<longrightarrow>
     (\<exists>i. n = SInt i \<and> int64 i) \<or> (\<exists>r. n = SReal r))"

subsection \<open>Round trips of the metadata\<close>

lemma parse_column_type_value [simp]: "parse_column_type (column_type_value t) = Inr t"
  by (cases t) (simp_all add: parse_column_type_def)

lemma parse_id_type_value [simp]: "parse_id_type (id_type_value t) = Inr t"
  by (cases t) (simp_all add: parse_id_type_def)

lemma parse_dump_column [simp]: "parse_column (dump_column c) = Inr c"
  by (simp add: parse_column_def dump_column_def dget_default_def)

lemma mapMR_parse_dump [simp]: "mapMR parse_column (map dump_column cs) = Inr cs"
  by (induction cs) simp_all

lemma mapMR_append: "mapMR f (xs @ ys) = bindR (mapMR f xs) (\<lambda>as. mapR ((@) as) (mapMR f ys))"
proof (induction xs)
  case Nil
  then show ?case by (cases "mapMR f ys") simp_all
next
  case (Cons x xs)
  show ?case by (cases "f x"; cases "mapMR f xs"; cases "mapMR f ys") (simp_all add: Cons)
qed

lemma mapMR_list_all2: "mapMR f xs = Inr ys \<longleftrightarrow> list_all2 (\<lambda>x y. f x = Inr y) xs ys"
proof (induction xs arbitrary: ys)
  case Nil
  then show ?case by auto
next
  case (Cons x xs)
  then show ?case by (cases ys) (auto simp: bindR_Inr_iff mapR_Inr_iff)
qed

lemma table_def_name: "table_def_from_row m = Inr td \<Longrightarrow> td_table_name td = mt_table_name m"
  by (auto simp: table_def_from_row_def bindR_Inr_iff)

lemma table_def_link: "table_def_from_row m = Inr td \<Longrightarrow> td_tool_linked td = mt_tool_linked m"
  by (auto simp: table_def_from_row_def bindR_Inr_iff)

lemma table_def_columns_update:
  "table_def_from_row m = Inr td \<Longrightarrow>
     table_def_from_row (m\<lparr>mt_columns := JArr (map dump_column cs)\<rparr>) = Inr (td\<lparr>td_columns := cs\<rparr>)"
  by (auto simp: table_def_from_row_def bindR_Inr_iff)

subsection \<open>Lookups\<close>

definition find_def :: "string \<Rightarrow> table_def list \<Rightarrow> table_def option" where
  "find_def name tds = List.find (\<lambda>td. td_table_name td = name) tds"

lemma list_all2_memD: "list_all2 R xs ys \<Longrightarrow> x \<in> set xs \<Longrightarrow> \<exists>y \<in> set ys. R x y"
  by (induction rule: list_all2_induct) auto

lemma find_list_all2:
  assumes "list_all2 R xs ys" and "\<And>x y. R x y \<Longrightarrow> P x \<longleftrightarrow> Q y"
  shows "(List.find P xs = None \<and> List.find Q ys = None)
    \<or> (\<exists>x y. List.find P xs = Some x \<and> List.find Q ys = Some y \<and> R x y)"
  using assms by (induction rule: list_all2_induct) auto

lemma find_meta_matches:
  assumes "catalogue db = Inr tds"
  shows "(find_meta name db = None \<and> find_def name tds = None)
    \<or> (\<exists>m td. find_meta name db = Some m \<and> find_def name tds = Some td \<and> table_def_from_row m = Inr td)"
  unfolding find_meta_def find_def_def
  by (rule find_list_all2 [where R = "\<lambda>m td. table_def_from_row m = Inr td"])
    (use assms table_def_name in \<open>auto simp: catalogue_def mapMR_list_all2\<close>)

lemma require_table_run:
  assumes "catalogue db = Inr tds"
  shows "require_table name db =
    (case find_def name tds of None \<Rightarrow> Inl (UnknownTableError name) | Some td \<Rightarrow> Inr td, db)"
  using find_meta_matches [OF assms, of name] by (auto simp: require_table_def)

lemma find_def_SomeD: "find_def name tds = Some td \<Longrightarrow> td \<in> set tds \<and> td_table_name td = name"
  unfolding find_def_def by (drule find_SomeD) simp

lemma find_table_describes:
  assumes "list_all2 (describes eng) tds (db_tables db)" and "distinct (map def_key tds)" and "td \<in> set tds"
  obtains t where "find_table (td_table_name td) db = Some t" and "describes eng td t"
proof -
  have "(List.find (\<lambda>d. def_key d = def_key td) tds = None \<and> find_table (td_table_name td) db = None)
      \<or> (\<exists>d t. List.find (\<lambda>d. def_key d = def_key td) tds = Some d
          \<and> find_table (td_table_name td) db = Some t \<and> describes eng d t)"
    unfolding find_table_def
    by (rule find_list_all2 [OF assms(1)]) (auto simp: describes_def def_key_def)
  moreover have "List.find (\<lambda>d. def_key d = def_key td) tds = Some td"
    using assms(2,3) by (induction tds) (auto simp: image_iff)
  ultimately show ?thesis using that by auto
qed

lemma insort_key_map: "insort_key f (g x) (map g xs) = map g (insort_key (\<lambda>y. f (g y)) x xs)"
  by (induction xs) simp_all

lemma sort_key_map: "sort_key f (map g xs) = map g (sort_key (\<lambda>y. f (g y)) xs)"
  by (induction xs) (simp_all add: insort_key_map)

lemma sort_key_cong: "(\<And>x. x \<in> set xs \<Longrightarrow> f x = g x) \<Longrightarrow> sort_key f xs = sort_key g xs"
proof (induction xs)
  case Nil
  then show ?case by simp
next
  case (Cons x xs)
  have "insort_key f x ys = insort_key g x ys" if "\<forall>y \<in> set ys. f y = g y" for ys
    using that Cons.prems by (induction ys) simp_all
  with Cons show ?case by simp
qed

text \<open>\<open>list_tables\<close> is the catalogue in the order of the table names.\<close>

lemma list_tables_run:
  assumes "catalogue db = Inr tds"
  shows "list_tables db = (Inr (sort_key td_table_name tds), db)"
proof -
  define g where "g m = (case table_def_from_row m of Inr td \<Rightarrow> td | Inl _ \<Rightarrow> undefined)" for m
  have each: "table_def_from_row m = Inr (g m)" if "m \<in> set (ed_meta db)" for m
  proof -
    from assms have "list_all2 (\<lambda>m td. table_def_from_row m = Inr td) (ed_meta db) tds"
      by (simp add: catalogue_def mapMR_list_all2)
    with that obtain td where "table_def_from_row m = Inr td"
      by (auto simp: list_all2_conv_all_nth in_set_conv_nth)
    then show ?thesis by (simp add: g_def)
  qed
  have "tds = map g (ed_meta db)"
    using assms mapMR_all_Inr [of "ed_meta db" table_def_from_row g, OF each] by (simp add: catalogue_def)
  moreover have "sort_key (\<lambda>m. td_table_name (g m)) (ed_meta db) = sort_key mt_table_name (ed_meta db)"
    by (rule sort_key_cong) (simp add: table_def_name [OF each])
  ultimately have "map g (sort_key mt_table_name (ed_meta db)) = sort_key td_table_name tds"
    by (simp add: sort_key_map)
  then show ?thesis
    using mapMR_all_Inr [of "sort_key mt_table_name (ed_meta db)" table_def_from_row g] each
    by (simp add: list_tables_def)
qed

subsection \<open>Preservation by the schema operations\<close>

lemma validate_columns_same: "mapMR validate_column cs = Inr ds \<Longrightarrow> ds = cs"
  by (induction cs arbitrary: ds)
    (auto simp: bindR_Inr_iff mapR_Inr_iff validate_column_def validate_identifier_Inr_iff)

lemma links_append: "links (tds @ [td]) = links tds @ (case td_tool_linked td of None \<Rightarrow> [] | Some l \<Rightarrow> [l])"
  by (simp add: links_def)

lemma in_links_iff: "l \<in> set (links tds) \<longleftrightarrow> (\<exists>td \<in> set tds. td_tool_linked td = Some l)"
  unfolding links_def by (force split: option.splits)

lemma fold_update_get:
  "dget (fold (\<lambda>c. AList.update (f c) (g c)) cs acc) k = Some v \<Longrightarrow>
     dget acc k = Some v \<or> list_ex (\<lambda>c. f c = k \<and> g c = v) cs"
  by (induction cs arbitrary: acc) (fastforce split: if_splits)+

lemma check_requirements_columns:
  assumes "check_tool_linked_requirements link (td_columns td) = Inr ()"
    and "td_tool_linked td = Some link"
  shows "has_required_columns td"
proof (cases "tool_linked_required link")
  case None
  with assms(2) show ?thesis by (simp add: has_required_columns_def)
next
  case (Some required)
  let ?provided = "fold (\<lambda>c. AList.update (cd_name c) (cd_type c)) (td_columns td) []"
  have "list_ex (\<lambda>c. cd_name c = n \<and> cd_type c = ty) (td_columns td)" if "(n, ty) \<in> set required" for n ty
  proof -
    from assms(1) Some that have "dget ?provided n = Some ty"
      by (force simp: check_tool_linked_requirements_def Let_def filter_empty_conv split: if_splits)
    from fold_update_get [OF this] show ?thesis by simp
  qed
  with Some assms(2) show ?thesis by (auto simp: has_required_columns_def list_all_iff)
qed

lemma new_table_describes:
  assumes "t = \<lparr>tb_name = td_table_name td, tb_autoincrement = (td_id_type td = IdAutoIncrement),
     tb_columns = map (\<lambda>c. sql_column_of (cd_required c) c) (td_columns td), tb_sequence = 0, tb_rows = []\<rparr>"
  shows "describes eng td t"
  by (simp add: assms describes_def table_key_def def_key_def column_key_def def_column_keys_def
      sql_column_of_def rows_ok_def comp_def)

definition new_table :: "table_def \<Rightarrow> sql_table" where
  "new_table td = \<lparr>tb_name = td_table_name td, tb_autoincrement = (td_id_type td = IdAutoIncrement),
     tb_columns = map (\<lambda>c. sql_column_of (cd_required c) c) (td_columns td), tb_sequence = 0, tb_rows = []\<rparr>"

definition new_meta :: "table_def \<Rightarrow> time \<Rightarrow> meta_row" where
  "new_meta td now = \<lparr>mt_table_name = td_table_name td, mt_display_name = td_display_name td,
     mt_columns = JArr (map dump_column (td_columns td)), mt_id_type = id_type_value (td_id_type td),
     mt_tool_linked = td_tool_linked td, mt_created_at = now\<rparr>"

definition created :: "table_def \<Rightarrow> entity_db \<Rightarrow> entity_db" where
  "created td db = db\<lparr>db_in_transaction := False, db_tables := db_tables db @ [new_table td],
     ed_now_count := ed_now_count db + 1,
     ed_meta := ed_meta db @ [new_meta td (ed_now db (ed_now_count db))]\<rparr>"

text \<open>What \<open>create_table\<close> has checked of the database when it gets to the statement.\<close>

definition creatable :: "table_def \<Rightarrow> entity_db \<Rightarrow> bool" where
  "creatable td db \<longleftrightarrow> find_table (td_table_name td) db = None
     \<and> def_key td \<notin> set (map fold_name (db_other_tables db)) \<and> distinct (id_key # def_column_keys td)
     \<and> (\<forall>link. td_tool_linked td = Some link \<longrightarrow>
          check_tool_linked_requirements link (td_columns td) = Inr () \<and> check_link_free link db = (Inr (), db))"

lemma check_link_free_cases:
  "check_link_free link db = (Inr (), db) \<or> (\<exists>e. check_link_free link db = (Inl e, db))"
  by (simp add: check_link_free_def bindC_def list_tables_def split: sum.splits)

lemma sql_create_table_run:
  "(sql_create_table eng (td_table_name td) (td_id_type td = IdAutoIncrement)
      (map (\<lambda>c. sql_column_of (cd_required c) c) (td_columns td)) db = (Inr (), db\<lparr>db_tables := db_tables db @ [new_table td]\<rparr>)
    \<and> find_table (td_table_name td) db = None \<and> def_key td \<notin> set (map fold_name (db_other_tables db))
    \<and> distinct (id_key # def_column_keys td))
   \<or> sql_create_table eng (td_table_name td) (td_id_type td = IdAutoIncrement)
      (map (\<lambda>c. sql_column_of (cd_required c) c) (td_columns td)) db = (Inl SqlOperationalError, db)"
proof -
  let ?cs = "map (\<lambda>c. sql_column_of (cd_required c) c) (td_columns td)"
  have keys: "map column_key ?cs = def_column_keys td"
    by (simp add: def_column_keys_def column_key_def sql_column_of_def comp_def)
  define ok where "ok \<longleftrightarrow> usable_name eng (td_table_name td) \<and> list_all (\<lambda>c. usable_name eng (sc_name c)) ?cs
     \<and> \<not> py_startswith (fold_name (td_table_name td)) ''sqlite_'' \<and> find_table (td_table_name td) db = None
     \<and> fold_name (td_table_name td) \<notin> set (map fold_name (db_other_tables db))
     \<and> distinct (id_key # map column_key ?cs)"
  have "sql_create_table eng (td_table_name td) (td_id_type td = IdAutoIncrement) ?cs db =
      (if ok then (Inr (), db\<lparr>db_tables := db_tables db @ [new_table td]\<rparr>) else (Inl SqlOperationalError, db))"
    unfolding sql_create_table_def ok_def bindC_def
    by (simp add: guard_sql_def new_table_def del: distinct.simps)
  then show ?thesis
    unfolding ok_def keys def_key_def by (metis (no_types, lifting))
qed

lemma create_table_cases:
  assumes "create_table eng td db = (r, db')"
  shows "(\<exists>e. r = Inl e \<and> db' = db) \<or> (r = Inr () \<and> db' = created td db \<and> creatable td db)"
proof -
  define tail where "tail = bindC (gets (find_meta (td_table_name td))) (\<lambda>existing.
     if existing \<noteq> None then raise (TableAlreadyExistsError (td_table_name td))
     else bindC (sql_create_table eng (td_table_name td) (td_id_type td = IdAutoIncrement)
              (map (\<lambda>c. sql_column_of (cd_required c) c) (td_columns td))) (\<lambda>_.
     bindC clock_now (\<lambda>now. bindC (insert_meta (new_meta td now)) (\<lambda>_. sql_commit))))"
  have tail: "tail db = (Inr (), created td db) \<and> find_table (td_table_name td) db = None
      \<and> def_key td \<notin> set (map fold_name (db_other_tables db)) \<and> distinct (id_key # def_column_keys td)
    \<or> (\<exists>e. tail db = (Inl e, db))"
    using sql_create_table_run [of eng td db]
    by (auto simp: tail_def bindC_def clock_now_def insert_meta_def begin_transaction_def sql_commit_def
        created_def)
  define link_check where "link_check = (case td_tool_linked td of None \<Rightarrow> ret ()
      | Some link \<Rightarrow> bindC (liftR (check_tool_linked_requirements link (td_columns td))) (\<lambda>_. check_link_free link))"
  have link: "(\<exists>e. link_check db = (Inl e, db)) \<or> (link_check db = (Inr (), db) \<and>
      (\<forall>link. td_tool_linked td = Some link \<longrightarrow>
          check_tool_linked_requirements link (td_columns td) = Inr () \<and> check_link_free link db = (Inr (), db)))"
  proof (cases "td_tool_linked td")
    case (Some link)
    show ?thesis
      using check_link_free_cases [of link db]
      by (cases "check_tool_linked_requirements link (td_columns td)")
        (auto simp: link_check_def bindC_def Some)
  qed (simp add: link_check_def)
  show ?thesis
  proof (cases "mapMR validate_column (td_columns td)")
    case (Inl e)
    with assms show ?thesis
      by (auto simp: create_table_def bindC_def validate_identifier_def split: if_splits)
  next
    case (Inr cs)
    then have cs: "cs = td_columns td" by (rule validate_columns_same)
    have "create_table eng td db = bindC (liftR (validate_identifier (td_table_name td) InvalidTableConfigError)) (\<lambda>_.
        bindC (if list_ex (\<lambda>c. cd_name c = ''id'') (td_columns td) then raise (InvalidTableConfigError ''id'') else ret ())
          (\<lambda>_. bindC link_check (\<lambda>_. tail))) db"
      using Inr unfolding cs create_table_def tail_def link_check_def new_meta_def bindC_def
      by (simp add: validate_identifier_def)
    with assms link tail show ?thesis
      by (auto simp: bindC_def validate_identifier_def creatable_def split: if_splits)
  qed
qed

lemma repo_inv_created:
  assumes inv: "repo_inv eng tds db" and ok: "creatable td db"
  shows "repo_inv eng (tds @ [td]) (created td db)"
proof -
  from inv have cat: "catalogue db = Inr tds" and wf: "catalogue_wf (db_other_tables db) tds"
    and desc: "list_all2 (describes eng) tds (db_tables db)"
    by (simp_all add: repo_inv_def)
  have "catalogue (created td db) = Inr (tds @ [td])"
    using cat by (simp add: catalogue_def created_def mapMR_append new_meta_def table_def_from_row_def)
  moreover have "list_all2 (describes eng) (tds @ [td]) (db_tables (created td db))"
    using desc new_table_describes [OF new_table_def]
    by (simp add: created_def list_all2_appendI)
  moreover have "catalogue_wf (db_other_tables db) (tds @ [td])"
  proof -
    have fresh: "def_key td \<notin> set (map def_key tds)"
    proof
      assume "def_key td \<in> set (map def_key tds)"
      then obtain d where d: "d \<in> set tds" "def_key d = def_key td" by auto
      then obtain t where "t \<in> set (db_tables db)" "table_key t = def_key td"
        using list_all2_memD [OF desc d(1)] by (auto simp: describes_def)
      with ok show False
        by (auto simp: creatable_def find_table_def find_None_iff_all def_key_def)
    qed
    have req: "has_required_columns td"
      using ok check_requirements_columns [of _ td]
      by (cases "td_tool_linked td") (auto simp: creatable_def has_required_columns_def)
    have free: "link \<notin> set (links tds)" if "td_tool_linked td = Some link" for link
      using ok that list_tables_run [OF cat]
      by (auto simp: creatable_def check_link_free_def bindC_def in_links_iff list_ex_iff split: if_splits)
    show ?thesis
      using wf ok fresh req free
      by (auto simp: catalogue_wf_def links_append def_wf_def creatable_def split: option.splits)
  qed
  ultimately show ?thesis by (simp add: repo_inv_def created_def)
qed

definition with_columns :: "string \<Rightarrow> column_def list \<Rightarrow> table_def list \<Rightarrow> table_def list" where
  "with_columns name cs tds = map (\<lambda>d. if td_table_name d = name then d\<lparr>td_columns := cs\<rparr> else d) tds"

definition without_table :: "string \<Rightarrow> table_def list \<Rightarrow> table_def list" where
  "without_table name tds = filter (\<lambda>d. td_table_name d \<noteq> name) tds"

lemma list_all2_filter:
  "list_all2 R xs ys \<Longrightarrow> (\<And>x y. x \<in> set xs \<Longrightarrow> y \<in> set ys \<Longrightarrow> R x y \<Longrightarrow> P x \<longleftrightarrow> Q y) \<Longrightarrow>
     list_all2 R (filter P xs) (filter Q ys)"
  by (induction rule: list_all2_induct) auto

lemma list_all2_map_both:
  "list_all2 R xs ys \<Longrightarrow> (\<And>x y. x \<in> set xs \<Longrightarrow> y \<in> set ys \<Longrightarrow> R x y \<Longrightarrow> S (f x) (g y)) \<Longrightarrow>
     list_all2 S (map f xs) (map g ys)"
  by (induction rule: list_all2_induct) auto

lemma catalogue_wf_keys:
  "catalogue_wf others tds \<longleftrightarrow> distinct (map def_key tds) \<and> list_all def_wf tds \<and> distinct (links tds)
     \<and> list_all (\<lambda>k. k \<notin> set (map fold_name others)) (map def_key tds)"
  by (simp add: catalogue_wf_def list_all_iff)

text \<open>In a well-formed catalogue a table is found by its name or by its key, all the same.\<close>

lemma same_key_same_def:
  "distinct (map def_key tds) \<Longrightarrow> d \<in> set tds \<Longrightarrow> e \<in> set tds \<Longrightarrow> def_key d = def_key e \<Longrightarrow> d = e"
  by (auto simp: distinct_map dest: inj_onD)

lemma name_key_iff:
  assumes "distinct (map def_key tds)" "find_def name tds = Some td" "d \<in> set tds"
  shows "td_table_name d = name \<longleftrightarrow> def_key d = def_key td"
  using find_def_SomeD [OF assms(2)] same_key_same_def [OF assms(1,3), of td]
  by (auto simp: def_key_def)

lemma links_map: "(\<And>d. td_tool_linked (f d) = td_tool_linked d) \<Longrightarrow> links (map f tds) = links tds"
  by (simp add: links_def comp_def)

lemma links_filter: "distinct (links tds) \<Longrightarrow> distinct (links (filter P tds))"
  by (induction tds) (auto simp: links_def split: option.splits)

definition dropped :: "string \<Rightarrow> table_def \<Rightarrow> entity_db \<Rightarrow> entity_db" where
  "dropped name td db = db\<lparr>db_tables := filter (\<lambda>t. table_key t \<noteq> def_key td) (db_tables db),
     db_in_transaction := False, ed_meta := filter (\<lambda>m. mt_table_name m \<noteq> name) (ed_meta db)\<rparr>"

lemma drop_table_run:
  assumes "repo_inv eng tds db"
  shows "drop_table name db = (case find_def name tds of
     None \<Rightarrow> (Inl (UnknownTableError name), db) | Some td \<Rightarrow> (Inr (), dropped name td db))"
proof -
  have cat: "catalogue db = Inr tds" using assms by (simp add: repo_inv_def)
  show ?thesis
  proof (cases "find_def name tds")
    case None
    with require_table_run [OF cat] show ?thesis by (simp add: drop_table_def bindC_def)
  next
    case (Some td)
    with find_def_SomeD [OF Some] require_table_run [OF cat] show ?thesis
      by (simp add: drop_table_def bindC_def sql_drop_table_def begin_transaction_def sql_commit_def
          dropped_def def_key_def)
  qed
qed

lemma repo_inv_dropped:
  assumes inv: "repo_inv eng tds db" and td: "find_def name tds = Some td"
  shows "repo_inv eng (without_table name tds) (dropped name td db)"
proof -
  from inv have cat: "list_all2 (\<lambda>m d. table_def_from_row m = Inr d) (ed_meta db) tds"
    and wf: "catalogue_wf (db_other_tables db) tds"
    and desc: "list_all2 (describes eng) tds (db_tables db)"
    by (simp_all add: repo_inv_def catalogue_def mapMR_list_all2)
  have keys: "distinct (map def_key tds)" using wf by (simp add: catalogue_wf_def)
  have "list_all2 (\<lambda>m d. table_def_from_row m = Inr d)
      (filter (\<lambda>m. mt_table_name m \<noteq> name) (ed_meta db)) (without_table name tds)"
    unfolding without_table_def
    by (rule list_all2_filter [OF cat]) (simp add: table_def_name)
  moreover have "list_all2 (describes eng) (without_table name tds)
      (filter (\<lambda>t. table_key t \<noteq> def_key td) (db_tables db))"
    unfolding without_table_def
    by (rule list_all2_filter [OF desc]) (simp add: name_key_iff [OF keys td] describes_def)
  moreover have "catalogue_wf (db_other_tables db) (without_table name tds)"
    using wf by (auto simp: catalogue_wf_def without_table_def list_all_iff distinct_map_filter links_filter)
  ultimately show ?thesis
    by (simp add: repo_inv_def dropped_def catalogue_def mapMR_list_all2)
qed

definition altered :: "string \<Rightarrow> column_def list \<Rightarrow> sql_table \<Rightarrow> entity_db \<Rightarrow> entity_db" where
  "altered name cs t db = (put_table t db)\<lparr>
     ed_meta := map (\<lambda>m. if mt_table_name m = name
         then m\<lparr>mt_columns := JArr (map dump_column cs)\<rparr> else m) (ed_meta db),
     db_in_transaction := False\<rparr>"

lemma repo_inv_altered:
  assumes inv: "repo_inv eng tds db" and td: "find_def name tds = Some td"
    and t: "describes eng (td\<lparr>td_columns := cs\<rparr>) t" and new: "def_wf (td\<lparr>td_columns := cs\<rparr>)"
  shows "repo_inv eng (with_columns name cs tds) (altered name cs t db)"
proof -
  from inv have cat: "list_all2 (\<lambda>m d. table_def_from_row m = Inr d) (ed_meta db) tds"
    and wf: "catalogue_wf (db_other_tables db) tds"
    and desc: "list_all2 (describes eng) tds (db_tables db)"
    by (simp_all add: repo_inv_def catalogue_def mapMR_list_all2)
  have keys: "distinct (map def_key tds)" using wf by (simp add: catalogue_wf_def)
  have key [simp]: "def_key (d\<lparr>td_columns := c\<rparr>) = def_key d" for d c
    by (simp add: def_key_def)
  have same: "d\<lparr>td_columns := cs\<rparr> = td\<lparr>td_columns := cs\<rparr>" if "d \<in> set tds" "td_table_name d = name" for d
    using that name_key_iff [OF keys td that(1)] same_key_same_def [OF keys that(1), of td]
      find_def_SomeD [OF td] by simp
  have "list_all2 (\<lambda>m d. table_def_from_row m = Inr d) (ed_meta (altered name cs t db)) (with_columns name cs tds)"
    unfolding altered_def with_columns_def
    by (simp, rule list_all2_map_both [OF cat]) (simp add: table_def_name table_def_columns_update)
  moreover have "list_all2 (describes eng) (with_columns name cs tds) (db_tables (altered name cs t db))"
    unfolding altered_def with_columns_def put_table_def
  proof (simp, rule list_all2_map_both [OF desc])
    fix d u
    assume "d \<in> set tds" "describes eng d u"
    then have "td_table_name d = name \<longleftrightarrow> table_key u = table_key t"
      using t by (simp add: name_key_iff [OF keys td] describes_def)
    then show "describes eng (if td_table_name d = name then d\<lparr>td_columns := cs\<rparr> else d)
        (if table_key u = table_key t then t else u)"
      using \<open>describes eng d u\<close> t same [OF \<open>d \<in> set tds\<close>] by simp
  qed
  moreover have "catalogue_wf (db_other_tables db) (with_columns name cs tds)"
  proof -
    have "links (with_columns name cs tds) = links tds"
      unfolding with_columns_def by (rule links_map) simp
    moreover have "map def_key (with_columns name cs tds) = map def_key tds"
      by (simp add: with_columns_def)
    moreover have "def_wf d" if "d \<in> set (with_columns name cs tds)" for d
      using that wf new same by (auto simp: with_columns_def catalogue_wf_def list_all_iff)
    ultimately show ?thesis
      using wf by (simp add: catalogue_wf_keys list_all_iff)
  qed
  ultimately show ?thesis
    by (simp add: repo_inv_def catalogue_def mapMR_list_all2 altered_def put_table_def)
qed

lemma find_def_with_columns:
  "find_def name tds = Some td \<Longrightarrow> find_def name (with_columns name cs tds) = Some (td\<lparr>td_columns := cs\<rparr>)"
  unfolding find_def_def with_columns_def by (induction tds) (auto split: if_splits)

text \<open>The statement, the metadata update, the commit and the final read, in that order.\<close>

lemma alter_tail:
  assumes inv: "repo_inv eng tds db" and td: "find_def name tds = Some td"
    and stmt: "stmt db = (Inr (), put_table t db)"
    and t: "describes eng (td\<lparr>td_columns := cs\<rparr>) t" and new: "def_wf (td\<lparr>td_columns := cs\<rparr>)"
  shows "bindC stmt (\<lambda>_. bindC (write_columns_metadata name cs) (\<lambda>_. bindC sql_commit (\<lambda>_. require_table name))) db
     = (Inr (td\<lparr>td_columns := cs\<rparr>), altered name cs t db)"
proof -
  have "repo_inv eng (with_columns name cs tds) (altered name cs t db)"
    by (rule repo_inv_altered [OF inv td t new])
  then have "catalogue (altered name cs t db) = Inr (with_columns name cs tds)"
    by (simp add: repo_inv_def)
  from require_table_run [OF this, of name] find_def_with_columns [OF td, of cs]
  have "require_table name (altered name cs t db) = (Inr (td\<lparr>td_columns := cs\<rparr>), altered name cs t db)"
    by simp
  then show ?thesis
    by (simp add: bindC_def stmt write_columns_metadata_def begin_transaction_def sql_commit_def
        altered_def put_table_def)
qed

subsection \<open>Columns\<close>

lemma describes_alt:
  "describes eng td t \<longleftrightarrow> fold_name (tb_name t) = fold_name (td_table_name td)
     \<and> (tb_autoincrement t \<longleftrightarrow> td_id_type td = IdAutoIncrement)
     \<and> map column_key (tb_columns t) = def_column_keys td
     \<and> map sc_affinity (tb_columns t) = map (\<lambda>c. sql_type (cd_type c)) (td_columns td)
     \<and> rows_ok eng (td_id_type td = IdAutoIncrement) (tb_sequence t)
         (map (\<lambda>c. sql_type (cd_type c)) (td_columns td)) (tb_rows t)"
  by (auto simp: describes_def table_key_def def_key_def comp_def)

lemma column_name_key_iff:
  assumes "def_wf td" and "list_ex (\<lambda>c. cd_name c = column_name) (td_columns td)" and "c \<in> set (td_columns td)"
  shows "cd_name c = column_name \<longleftrightarrow> fold_name (cd_name c) = fold_name column_name"
proof
  assume "fold_name (cd_name c) = fold_name column_name"
  moreover obtain d where d: "d \<in> set (td_columns td)" "cd_name d = column_name"
    using assms(2) by (auto simp: list_ex_iff)
  moreover have "inj_on (\<lambda>c. fold_name (cd_name c)) (set (td_columns td))"
    using assms(1) by (simp add: def_wf_def def_column_keys_def distinct_map)
  ultimately show "cd_name c = column_name"
    using assms(3) by (metis inj_onD)
qed simp

lemma has_required_columnsI:
  assumes "has_required_columns td" and "td_tool_linked e = td_tool_linked td"
    and "\<And>link required n ty c. td_tool_linked td = Some link \<Longrightarrow> tool_linked_required link = Some required \<Longrightarrow>
      (n, ty) \<in> set required \<Longrightarrow> c \<in> set (td_columns td) \<Longrightarrow> cd_name c = n \<Longrightarrow> c \<in> set (td_columns e)"
  shows "has_required_columns e"
proof (cases "td_tool_linked td")
  case None
  with assms(2) show ?thesis by (simp add: has_required_columns_def)
next
  case (Some link)
  show ?thesis
  proof (cases "tool_linked_required link")
    case None
    with assms(2) Some show ?thesis by (simp add: has_required_columns_def)
  next
    case req: (Some required)
    show ?thesis
      using assms(1) assms(3) [OF Some req] unfolding has_required_columns_def assms(2) Some
      by (simp add: req list_all_iff list_ex_iff case_prod_beta) (metis prod.collapse)
  qed
qed

lemma not_required_name:
  assumes "require_column_not_tool_linked td column_name = Inr ()"
    and "td_tool_linked td = Some link" and "tool_linked_required link = Some required" and "(n, ty) \<in> set required"
  shows "n \<noteq> column_name"
  using assms by (force simp: require_column_not_tool_linked_def Let_def split: if_splits)

lemma drop_at_map: "drop_at keep (map f xs) = map f (drop_at keep xs)"
proof (induction keep arbitrary: xs)
  case Nil
  then show ?case by (simp add: drop_at_def)
next
  case (Cons k keep)
  then show ?case by (cases xs) (simp_all add: drop_at_def)
qed

lemma drop_at_filter: "drop_at (map P xs) xs = filter P xs"
  by (induction xs) (simp_all add: drop_at_def)

lemma drop_at_map_filter: "drop_at (map P xs) (map f xs) = map f (filter P xs)"
  by (simp add: drop_at_map drop_at_filter)

lemma drop_at_list_all2: "list_all2 R xs ys \<Longrightarrow> list_all2 R (drop_at keep xs) (drop_at keep ys)"
proof (induction arbitrary: keep rule: list_all2_induct)
  case Nil
  then show ?case by (simp add: drop_at_def)
next
  case (Cons x xs y ys)
  then show ?case by (cases keep) (simp_all add: drop_at_def)
qed

lemma the_table_run: "find_table name db = Some t \<Longrightarrow> the_table name db = (Inr t, db)"
  by (simp add: the_table_def)

lemma rows_ok_add:
  "rows_ok eng auto m affs rows \<Longrightarrow> rows_ok eng auto m (affs @ [a]) (map (\<lambda>(i, vs). (i, vs @ [SNull])) rows)"
  by (auto simp: rows_ok_def list_all_iff comp_def case_prod_beta intro!: list_all2_appendI)

lemma rows_ok_drop:
  "rows_ok eng auto m affs rows \<Longrightarrow>
     rows_ok eng auto m (drop_at keep affs) (map (\<lambda>(i, vs). (i, drop_at keep vs)) rows)"
  using drop_at_list_all2 [of "conforms eng" affs _ keep]
  by (auto simp: rows_ok_def list_all_iff comp_def case_prod_beta)

text \<open>The three kinds of new columns and the tables they describe.\<close>

lemma describes_add:
  assumes "describes eng td t"
  shows "describes eng (td\<lparr>td_columns := td_columns td @ [c]\<rparr>)
    (t\<lparr>tb_columns := tb_columns t @ [sql_column_of False c],
       tb_rows := map (\<lambda>(i, vs). (i, vs @ [SNull])) (tb_rows t)\<rparr>)"
  using assms rows_ok_add [of eng _ _ _ "tb_rows t"]
  by (simp add: describes_alt def_column_keys_def column_key_def sql_column_of_def)

lemma describes_rename:
  assumes "describes eng td t" and "def_wf td" and "list_ex (\<lambda>c. cd_name c = old) (td_columns td)"
  shows "describes eng (td\<lparr>td_columns := map (\<lambda>c. if cd_name c = old then c\<lparr>cd_name := new\<rparr> else c) (td_columns td)\<rparr>)
    (t\<lparr>tb_columns := map (\<lambda>c. if column_key c = fold_name old then c\<lparr>sc_name := new\<rparr> else c) (tb_columns t)\<rparr>)"
proof -
  let ?f = "\<lambda>c. if column_key c = fold_name old then c\<lparr>sc_name := new\<rparr> else c"
  let ?k = "\<lambda>k. if k = fold_name old then fold_name new else k"
  have "map column_key (map ?f (tb_columns t)) = map ?k (map column_key (tb_columns t))"
    by (simp add: column_key_def)
  also have "\<dots> = map ?k (def_column_keys td)"
    using assms(1) by (simp add: describes_def)
  also have "\<dots> = map (\<lambda>c. fold_name (cd_name (if cd_name c = old then c\<lparr>cd_name := new\<rparr> else c))) (td_columns td)"
    using column_name_key_iff [OF assms(2,3)] by (simp add: def_column_keys_def)
  finally have keys: "map column_key (map ?f (tb_columns t)) = \<dots>" .
  have aff: "map sc_affinity (map ?f (tb_columns t)) = map sc_affinity (tb_columns t)"
    by simp
  have types: "sql_type (cd_type (if cd_name c = old then c\<lparr>cd_name := new\<rparr> else c)) = sql_type (cd_type c)"
    for c :: column_def
    by simp
  show ?thesis
    using assms(1) keys aff unfolding describes_alt def_column_keys_def
    by (simp add: comp_def types)
qed

lemma describes_drop:
  assumes "describes eng td t" and "def_wf td" and "list_ex (\<lambda>c. cd_name c = name) (td_columns td)"
    and "keep = map (\<lambda>c. column_key c \<noteq> fold_name name) (tb_columns t)"
  shows "describes eng (td\<lparr>td_columns := filter (\<lambda>c. cd_name c \<noteq> name) (td_columns td)\<rparr>)
    (t\<lparr>tb_columns := drop_at keep (tb_columns t), tb_rows := map (\<lambda>(i, vs). (i, drop_at keep vs)) (tb_rows t)\<rparr>)"
proof -
  have "keep = map (\<lambda>k. k \<noteq> fold_name name) (map column_key (tb_columns t))"
    by (simp add: assms(4) comp_def)
  also have "map column_key (tb_columns t) = def_column_keys td"
    using assms(1) by (simp add: describes_def)
  finally have keep: "keep = map (\<lambda>c. cd_name c \<noteq> name) (td_columns td)"
    using column_name_key_iff [OF assms(2,3)] by (simp add: def_column_keys_def)
  have types: "drop_at keep (map (\<lambda>c. sql_type (cd_type c)) (td_columns td))
      = map (\<lambda>c. sql_type (cd_type c)) (filter (\<lambda>c. cd_name c \<noteq> name) (td_columns td))"
    and names: "drop_at keep (def_column_keys td) = def_column_keys
      (td\<lparr>td_columns := filter (\<lambda>c. cd_name c \<noteq> name) (td_columns td)\<rparr>)"
    by (simp_all add: keep drop_at_map_filter def_column_keys_def)
  have "rows_ok eng (td_id_type td = IdAutoIncrement) (tb_sequence t)
      (drop_at keep (map (\<lambda>c. sql_type (cd_type c)) (td_columns td))) (map (\<lambda>(i, vs). (i, drop_at keep vs)) (tb_rows t))"
    using assms(1) by (intro rows_ok_drop) (simp add: describes_alt)
  then show ?thesis
    using assms(1) unfolding describes_alt types by (simp add: names types flip: drop_at_map)
qed

lemma distinct_replace:
  "distinct (i # ks) \<Longrightarrow> (b \<noteq> a \<longrightarrow> b \<notin> set (i # ks)) \<Longrightarrow> a \<in> set ks \<Longrightarrow>
     distinct (i # map (\<lambda>k. if k = a then b else k) ks)"
  by (auto simp: distinct_map inj_on_def)

text \<open>
  What each of the three column operations does to a repository in its invariant: nothing at
  all, when it raises; otherwise the table's columns become \<open>cs\<close> in catalogue and engine.
\<close>

definition alters :: "sql_engine \<Rightarrow> table_def list \<Rightarrow> string \<Rightarrow> (column_def list \<Rightarrow> column_def list)
    \<Rightarrow> entity_db \<Rightarrow> table_def result \<Rightarrow> entity_db \<Rightarrow> bool" where
  "alters eng tds name f db r db' \<longleftrightarrow> (\<exists>e. r = Inl e \<and> db' = db)
     \<or> (\<exists>td t. find_def name tds = Some td \<and> r = Inr (td\<lparr>td_columns := f (td_columns td)\<rparr>)
          \<and> table_key t = def_key td \<and> db' = altered name (f (td_columns td)) t db
          \<and> repo_inv eng (with_columns name (f (td_columns td)) tds) db')"

lemma alters_raise: "m db = (Inl e, db) \<Longrightarrow> m db = (r, db') \<Longrightarrow> alters eng tds name f db r db'"
  by (simp add: alters_def)

lemma altersI:
  assumes inv: "repo_inv eng tds db" and td: "find_def name tds = Some td"
    and stmt: "stmt db = (if ok then (Inr (), put_table t db) else (Inl e, db))"
    and t: "ok \<Longrightarrow> describes eng (td\<lparr>td_columns := f (td_columns td)\<rparr>) t"
    and new: "ok \<Longrightarrow> def_wf (td\<lparr>td_columns := f (td_columns td)\<rparr>)"
    and run: "bindC stmt (\<lambda>_. bindC (write_columns_metadata name (f (td_columns td)))
                (\<lambda>_. bindC sql_commit (\<lambda>_. require_table name))) db = (r, db')"
  shows "alters eng tds name f db r db'"
proof (cases ok)
  case True
  then have "stmt db = (Inr (), put_table t db)" using stmt by simp
  from alter_tail [where cs = "f (td_columns td)" and stmt = stmt, OF inv td this t new]
    repo_inv_altered [where cs = "f (td_columns td)", OF inv td t new] run td t True
  show ?thesis unfolding alters_def by (auto simp: describes_def def_key_def)
next
  case False
  with stmt run show ?thesis by (auto simp: bindC_def alters_def)
qed

text \<open>The read every operation on a table begins with, and what the invariant says of the table found.\<close>

lemma found_tableE:
  assumes inv: "repo_inv eng tds db" and td: "find_def name tds = Some td"
  obtains t where "find_table (td_table_name td) db = Some t" and "describes eng td t" and "def_wf td"
    and "require_table name db = (Inr td, db)"
proof -
  have "list_all2 (describes eng) tds (db_tables db)" "distinct (map def_key tds)" "list_all def_wf tds"
    using inv by (simp_all add: repo_inv_def catalogue_wf_def)
  moreover have "td \<in> set tds" using find_def_SomeD [OF td] by simp
  moreover have "require_table name db = (Inr td, db)"
    using require_table_run [of db tds name] inv td by (simp add: repo_inv_def)
  ultimately show ?thesis
    using find_table_describes that by (metis list_all_iff)
qed

lemma unknown_table:
  "repo_inv eng tds db \<Longrightarrow> find_def name tds = None \<Longrightarrow> require_table name db = (Inl (UnknownTableError name), db)"
  using require_table_run [of db tds name] by (simp add: repo_inv_def)

lemma require_tableE:
  assumes "repo_inv eng tds db"
  obtains (unknown) "find_def name tds = None" and "require_table name db = (Inl (UnknownTableError name), db)"
  | (known) td t where "find_def name tds = Some td" and "require_table name db = (Inr td, db)"
      and "find_table (td_table_name td) db = Some t" and "describes eng td t" and "def_wf td"
proof (cases "find_def name tds")
  case None
  with that(1) unknown_table [OF assms] show ?thesis by blast
next
  case (Some td)
  show ?thesis by (rule found_tableE [OF assms Some]) (rule that(2) [OF Some])
qed

text \<open>The three statements, on a table the engine has.\<close>

lemma sql_add_column_run:
  assumes "find_table n db = Some t"
  shows "sql_add_column eng n (sql_column_of False c) db =
    (if usable_name eng (cd_name c) \<and> fold_name (cd_name c) \<notin> set (id_key # map column_key (tb_columns t))
     then (Inr (), put_table (t\<lparr>tb_columns := tb_columns t @ [sql_column_of False c],
             tb_rows := map (\<lambda>(i, vs). (i, vs @ [SNull])) (tb_rows t)\<rparr>) db)
     else (Inl SqlOperationalError, db))"
  unfolding sql_add_column_def
  by (simp add: bindC_def the_table_run [OF assms] guard_sql_def sql_column_of_def column_key_def)

lemma sql_rename_column_run:
  assumes "find_table n db = Some t" and "fold_name old \<in> set (map column_key (tb_columns t))"
  shows "sql_rename_column eng n old new db =
    (if usable_name eng new
        \<and> (fold_name new \<noteq> fold_name old \<longrightarrow> fold_name new \<notin> set (id_key # map column_key (tb_columns t)))
     then (Inr (), put_table (t\<lparr>tb_columns :=
             map (\<lambda>c. if column_key c = fold_name old then c\<lparr>sc_name := new\<rparr> else c) (tb_columns t)\<rparr>) db)
     else (Inl SqlOperationalError, db))"
  using assms(2) unfolding sql_rename_column_def
  by (auto simp: bindC_def the_table_run [OF assms(1)] guard_sql_def)

lemma sql_drop_column_run:
  assumes "find_table n db = Some t" and "fold_name column \<in> set (map column_key (tb_columns t))"
    and "keep = map (\<lambda>c. column_key c \<noteq> fold_name column) (tb_columns t)"
  shows "sql_drop_column n column db =
    (Inr (), put_table (t\<lparr>tb_columns := drop_at keep (tb_columns t),
       tb_rows := map (\<lambda>(i, vs). (i, drop_at keep vs)) (tb_rows t)\<rparr>) db)"
  using assms(2) by (simp add: sql_drop_column_def bindC_def the_table_run [OF assms(1)] guard_sql_def Let_def assms(3))

text \<open>The definition stays well-formed.\<close>

lemma def_wf_added:
  "def_wf td \<Longrightarrow> usable_name eng (cd_name c) \<and> fold_name (cd_name c) \<notin> set (id_key # def_column_keys td)
     \<Longrightarrow> def_wf (td\<lparr>td_columns := td_columns td @ [c]\<rparr>)"
  using has_required_columnsI [of td "td\<lparr>td_columns := td_columns td @ [c]\<rparr>"]
  by (auto simp: def_wf_def def_column_keys_def)

lemma def_wf_renamed:
  assumes wf: "def_wf td" and ex: "list_ex (\<lambda>c. cd_name c = old) (td_columns td)"
    and unlinked: "require_column_not_tool_linked td old = Inr ()"
    and new: "fold_name new \<noteq> fold_name old \<longrightarrow> fold_name new \<notin> set (id_key # def_column_keys td)"
  shows "def_wf (td\<lparr>td_columns := map (\<lambda>c. if cd_name c = old then c\<lparr>cd_name := new\<rparr> else c) (td_columns td)\<rparr>)"
    (is "def_wf ?td")
proof -
  have "fold_name old \<in> set (def_column_keys td)" using ex by (auto simp: def_column_keys_def list_ex_iff)
  then have "distinct (id_key # map (\<lambda>k. if k = fold_name old then fold_name new else k) (def_column_keys td))"
    using wf new by (intro distinct_replace) (simp_all add: def_wf_def)
  moreover have "def_column_keys ?td = map (\<lambda>k. if k = fold_name old then fold_name new else k) (def_column_keys td)"
    using column_name_key_iff [OF wf ex] by (simp add: def_column_keys_def)
  moreover have "has_required_columns ?td"
    using wf not_required_name [OF unlinked]
    by - (rule has_required_columnsI [of td], auto simp: def_wf_def image_iff)
  ultimately show ?thesis by (simp add: def_wf_def)
qed

lemma def_wf_dropped:
  assumes wf: "def_wf td" and unlinked: "require_column_not_tool_linked td column = Inr ()"
  shows "def_wf (td\<lparr>td_columns := filter (\<lambda>c. cd_name c \<noteq> column) (td_columns td)\<rparr>)"
    (is "def_wf ?td")
proof -
  have "distinct (id_key # def_column_keys ?td)"
    using wf by (auto simp: def_wf_def def_column_keys_def distinct_map_filter)
  moreover have "has_required_columns ?td"
    using wf not_required_name [OF unlinked]
    by - (rule has_required_columnsI [of td], auto simp: def_wf_def image_iff)
  ultimately show ?thesis by (simp add: def_wf_def)
qed

lemma add_column_alters:
  assumes inv: "repo_inv eng tds db" and run: "add_column eng name c db = (r, db')"
  shows "alters eng tds name (\<lambda>cs. cs @ [c]) db r db'"
using inv
proof (cases rule: require_tableE [where name = name])
  case unknown
  with run show ?thesis by (auto simp: add_column_def bindC_def alters_def)
next
  case (known td t)
  show ?thesis
  proof (cases "\<not> sql_identifier_match (cd_name c) \<or> cd_name c = ''id'' \<or> list_ex (\<lambda>d. cd_name d = cd_name c) (td_columns td)")
    case True
    with run show ?thesis
      by (auto simp: add_column_def bindC_def known(2) alters_def validate_identifier_def Let_def split: if_splits)
  next
    case False
    let ?stmt = "sql_add_column eng (td_table_name td) (sql_column_of False c)"
    from False have "bindC ?stmt (\<lambda>_. bindC (write_columns_metadata name (td_columns td @ [c])) (\<lambda>_. bindC sql_commit (\<lambda>_. require_table name))) db = (r, db')"
      using run by (simp add: add_column_def bindC_def known(2) validate_identifier_def Let_def)
    moreover have keys: "map column_key (tb_columns t) = def_column_keys td"
      using known(4) by (simp add: describes_def)
    ultimately show ?thesis
      by (intro altersI [where stmt = ?stmt, OF inv known(1) sql_add_column_run [OF known(3)]])
        (use describes_add [OF known(4)] def_wf_added [OF known(5)] in simp_all)
  qed
qed

lemma rename_column_alters:
  assumes inv: "repo_inv eng tds db" and run: "rename_column eng name old new db = (r, db')"
  shows "alters eng tds name (map (\<lambda>c. if cd_name c = old then c\<lparr>cd_name := new\<rparr> else c)) db r db'"
using inv
proof (cases rule: require_tableE [where name = name])
  case unknown
  with run show ?thesis by (auto simp: rename_column_def bindC_def alters_def)
next
  case (known td t)
  let ?f = "map (\<lambda>c. if cd_name c = old then c\<lparr>cd_name := new\<rparr> else c)"
  have keys: "map column_key (tb_columns t) = def_column_keys td"
    using known(4) by (simp add: describes_def)
  show ?thesis
  proof (cases "sql_identifier_match new \<and> list_ex (\<lambda>c. cd_name c = old) (td_columns td)
      \<and> \<not> (new \<noteq> old \<and> list_ex (\<lambda>c. cd_name c = new) (td_columns td))
      \<and> require_column_not_tool_linked td old = Inr ()")
    case False
    then have "\<exists>e. rename_column eng name old new db = (Inl e, db)"
      by (cases "require_column_not_tool_linked td old")
        (auto simp: rename_column_def bindC_def known(2) validate_identifier_def)
    with alters_raise run show ?thesis by blast
  next
    case True
    then have ex: "list_ex (\<lambda>c. cd_name c = old) (td_columns td)"
      and unlinked: "require_column_not_tool_linked td old = Inr ()" by simp_all
    let ?stmt = "sql_rename_column eng (td_table_name td) old new"
    have tail: "bindC ?stmt (\<lambda>_. bindC (write_columns_metadata name (?f (td_columns td))) (\<lambda>_. bindC sql_commit (\<lambda>_. require_table name))) db = (r, db')"
      using run True by (auto simp: rename_column_def bindC_def known(2) validate_identifier_def)
    have old: "fold_name old \<in> set (map column_key (tb_columns t))"
      unfolding keys using ex by (auto simp: def_column_keys_def list_ex_iff)
    show ?thesis
      by (rule altersI [where stmt = ?stmt, OF inv known(1) sql_rename_column_run [OF known(3) old]])
        (rule describes_rename [OF known(4,5) ex], rule def_wf_renamed [OF known(5) ex unlinked], simp add: keys, rule tail)
  qed
qed

lemma drop_column_alters:
  assumes inv: "repo_inv eng tds db" and run: "drop_column name column db = (r, db')"
  shows "alters eng tds name (filter (\<lambda>c. cd_name c \<noteq> column)) db r db'"
using inv
proof (cases rule: require_tableE [where name = name])
  case unknown
  with run show ?thesis by (auto simp: drop_column_def bindC_def alters_def)
next
  case (known td t)
  let ?f = "filter (\<lambda>c. cd_name c \<noteq> column)"
  show ?thesis
  proof (cases "list_ex (\<lambda>c. cd_name c = column) (td_columns td) \<and> require_column_not_tool_linked td column = Inr ()")
    case False
    then have "\<exists>e. drop_column name column db = (Inl e, db)"
      by (cases "require_column_not_tool_linked td column") (auto simp: drop_column_def bindC_def known(2))
    with alters_raise run show ?thesis by blast
  next
    case True
    then have ex: "list_ex (\<lambda>c. cd_name c = column) (td_columns td)"
      and unlinked: "require_column_not_tool_linked td column = Inr ()" by simp_all
    let ?stmt = "sql_drop_column (td_table_name td) column"
    have tail: "bindC ?stmt (\<lambda>_. bindC (write_columns_metadata name (?f (td_columns td))) (\<lambda>_. bindC sql_commit (\<lambda>_. require_table name))) db = (r, db')"
      using run True by (simp add: drop_column_def bindC_def known(2))
    have "fold_name column \<in> set (map column_key (tb_columns t))"
      using known(4) ex by (auto simp: describes_def def_column_keys_def list_ex_iff)
    from sql_drop_column_run [OF known(3) this refl] show ?thesis
      by (intro altersI [where stmt = ?stmt and ok = True, OF inv known(1)])
        (simp, rule describes_drop [OF known(4,5) ex refl], rule def_wf_dropped [OF known(5) unlinked], rule tail)
  qed
qed

end
