(* ===== verification/Entities_Rows.thy ===== *)
theory Entities_Rows
  imports Entities_Inv
begin

text \<open>
  The rows of an owner's table as a map from ids to dictionaries, and the row operations of the
  entity repository as operations on that map.
\<close>

subsection \<open>Rows as dictionaries\<close>

definition cell_of :: "column_def \<Rightarrow> sqlval \<Rightarrow> json" where
  "cell_of c v = (if cd_type c = ColBoolean \<and> v \<noteq> SNull then JBool (truthy (fetch_value v)) else fetch_value v)"

definition stored_row :: "table_def \<Rightarrow> sqlval \<times> sqlval list \<Rightarrow> json dict" where
  "stored_row td row = (''id'', fetch_value (fst row)) #
     map (\<lambda>(c, v). (cd_name c, cell_of c v)) (zip (td_columns td) (snd row))"

definition row_at :: "table_def list \<Rightarrow> entity_db \<Rightarrow> string \<Rightarrow> sqlval \<Rightarrow> json dict option" where
  "row_at tds db name k =
     (case find_def name tds of
        None \<Rightarrow> None
      | Some td \<Rightarrow> (case find_table (td_table_name td) db of
          None \<Rightarrow> None
        | Some t \<Rightarrow> map_option (stored_row td) (List.find (\<lambda>r. fst r = k) (tb_rows t))))"

text \<open>The key a bound id stands for in a table.\<close>

definition key_of :: "sql_engine \<Rightarrow> table_def \<Rightarrow> sqlval \<Rightarrow> sqlval" where
  "key_of eng td v = apply_affinity eng (if td_id_type td = IdAutoIncrement then AffInteger else AffText) v"

lemma fold_name_id [simp]: "fold_name ''id'' = id_key"
  by code_simp

lemma def_names:
  assumes "def_wf td"
  shows "distinct (row_columns td)"
proof -
  have "distinct (map fold_name (row_columns td))"
    using assms by (simp add: def_wf_def def_column_keys_def row_columns_def comp_def)
  then show ?thesis by (simp add: distinct_map)
qed

lemma zip_update_distinct:
  "distinct (dkeys acc @ ns) \<Longrightarrow> length ns = length vs \<Longrightarrow>
     fold (\<lambda>(n, v). AList.update n (f n v)) (zip ns vs) acc = acc @ map (\<lambda>(n, v). (n, f n v)) (zip ns vs)"
proof (induction ns vs arbitrary: acc rule: list_induct2')
  case (4 n ns v vs)
  then have "AList.update n (f n v) acc = acc @ [(n, f n v)]"
    by (intro update_new_append) auto
  with 4 show ?case by simp
qed simp_all

lemma find_unique: "distinct (map f xs) \<Longrightarrow> x \<in> set xs \<Longrightarrow> List.find (\<lambda>y. f y = f x) xs = Some x"
  by (induction xs) (auto simp: image_iff)

lemma cell_value_column:
  assumes "def_wf td" and "c \<in> set (td_columns td)"
  shows "cell_value td (cd_name c) v = cell_of c v"
proof -
  have "distinct (map cd_name (rev (td_columns td)))"
    using def_names [OF assms(1)] by (simp add: row_columns_def flip: rev_map)
  from find_unique [OF this, of c] assms(2)
  show ?thesis by (simp add: cell_value_def cell_of_def)
qed

lemma cell_value_id:
  assumes "def_wf td"
  shows "cell_value td ''id'' v = fetch_value v"
proof -
  have "List.find (\<lambda>c. cd_name c = ''id'') (rev (td_columns td)) = None"
    using def_names [OF assms] by (force simp: find_None_iff row_columns_def)
  then show ?thesis by (simp add: cell_value_def)
qed

lemma row_to_dict_stored:
  assumes wf: "def_wf td" and "length vs = length (td_columns td)"
  shows "row_to_dict td (row_columns td) (k # vs) = stored_row td (k, vs)"
proof -
  let ?ns = "map cd_name (td_columns td)"
  have "row_to_dict td (row_columns td) (k # vs) =
      [] @ map (\<lambda>(n, v). (n, cell_value td n v)) (zip (row_columns td) (k # vs))"
    unfolding row_to_dict_def
    by (rule zip_update_distinct) (use def_names [OF wf] assms(2) in \<open>simp_all add: row_columns_def\<close>)
  also have "\<dots> = (''id'', fetch_value k) # map (\<lambda>(c, v). (cd_name c, cell_value td (cd_name c) v)) (zip (td_columns td) vs)"
    by (simp add: row_columns_def cell_value_id [OF wf] zip_map1 comp_def case_prod_beta)
  also have "\<dots> = stored_row td (k, vs)"
    using cell_value_column [OF wf] by (auto simp: stored_row_def dest: set_zip_leftD)
  finally show ?thesis .
qed

subsection \<open>Reading\<close>

lemma select_row:
  assumes "describes eng td t" and "def_wf td" and "length (snd row) = length (td_columns td)"
  shows "map (\<lambda>c. column_value t c row) (row_columns td) = fst row # snd row"
proof -
  have keys: "map column_key (tb_columns t) = def_column_keys td"
    using assms(1) by (simp add: describes_def)
  have "column_value t (cd_name (td_columns td ! i)) row = snd row ! i" if "i < length (td_columns td)" for i
  proof -
    have "def_column_keys td ! i = fold_name (cd_name (td_columns td ! i))"
      using that by (simp add: def_column_keys_def)
    moreover have "distinct (id_key # def_column_keys td)" using assms(2) by (simp add: def_wf_def)
    moreover have "length (def_column_keys td) = length (td_columns td)" by (simp add: def_column_keys_def)
    ultimately have "dget (zip (def_column_keys td) (snd row)) (fold_name (cd_name (td_columns td ! i))) = Some (snd row ! i)"
      and "fold_name (cd_name (td_columns td ! i)) \<noteq> id_key"
      using that assms(3) map_of_zip_nth [of "def_column_keys td" "snd row" i]
      by (auto simp: in_set_conv_nth)
    then show ?thesis by (simp add: column_value_def keys)
  qed
  then have "map (\<lambda>c. column_value t (cd_name c) row) (td_columns td) = snd row"
    using assms(3) by (intro nth_equalityI) simp_all
  then show ?thesis
    by (simp add: row_columns_def column_value_def [of t "''id''"] comp_def)
qed

lemma known_row_columns: "describes eng td t \<Longrightarrow> known_columns t (row_columns td)"
  by (auto simp: known_columns_def row_columns_def describes_def def_column_keys_def list_all_iff)

lemma known_data_columns: "describes eng td t \<Longrightarrow> known_columns t (map cd_name (td_columns td))"
  using known_row_columns [of eng td t] by (simp add: known_columns_def row_columns_def)

lemma row_lengths:
  "describes eng td t \<Longrightarrow> row \<in> set (tb_rows t) \<Longrightarrow> length (snd row) = length (td_columns td)"
  by (auto simp: describes_alt rows_ok_def list_all_iff dest!: bspec list_all2_lengthD)

lemma id_affinity_key: "describes eng td t \<Longrightarrow> apply_affinity eng (id_affinity t) v = key_of eng td v"
  by (simp add: describes_def id_affinity_def key_of_def)

text \<open>\<open>get_row\<close> looks the bound id up in the map.\<close>

lemma selected_row:
  assumes "describes eng td t" and "def_wf td" and "row \<in> set (tb_rows t)"
  shows "row_to_dict td (row_columns td) (map (\<lambda>c. column_value t c row) (row_columns td)) = stored_row td row"
  using select_row [OF assms(1,2) row_lengths [OF assms(1,3)]] row_to_dict_stored [OF assms(2) row_lengths [OF assms(1,3)]]
  by simp

lemma get_row_run:
  assumes inv: "repo_inv eng tds db" and td: "find_def name tds = Some td"
  shows "get_row eng name j db =
    (bindR (bind_value j) (\<lambda>v. Inr (if v = SNull then None else row_at tds db name (key_of eng td v))), db)"
proof -
  obtain t where t: "find_table (td_table_name td) db = Some t" "describes eng td t" "def_wf td"
    and req: "require_table name db = (Inr td, db)"
    by (rule found_tableE [OF inv td])
  have found: "map_option (row_to_dict td (row_columns td)) (map_option (\<lambda>row. map (\<lambda>c. column_value t c row) (row_columns td))
      (List.find (id_matches eng t v) (tb_rows t))) =
      (if v = SNull then None else row_at tds db name (key_of eng td v))" for v
  proof (cases "v = SNull")
    case True
    then have "List.find (id_matches eng t v) (tb_rows t) = None"
      by (auto simp: find_None_iff id_matches_def)
    with True show ?thesis by simp
  next
    case False
    then have "id_matches eng t v = (\<lambda>r. fst r = key_of eng td v)"
      by (auto simp: id_matches_def id_affinity_key [OF t(2)])
    then show ?thesis
      using False selected_row [OF t(2,3)]
      by (cases "List.find (\<lambda>r. fst r = key_of eng td v) (tb_rows t)")
        (auto simp: row_at_def td t(1) dest: find_SomeD)
  qed
  show ?thesis
    using found
    by (cases "bind_value j")
      (simp_all add: get_row_def bindC_def req sql_select_id_def the_table_run [OF t(1)] guard_sql_def
        known_row_columns [OF t(2)])
qed

subsection \<open>Writing\<close>

text \<open>
  The law about the parameters: a numeric text is read as a REAL or as an INTEGER of 64 bits.
\<close>

lemma numbers_onlyD:
  "numbers_only eng \<Longrightarrow> eng_text_number eng s = Some n \<Longrightarrow> (\<exists>i. n = SInt i \<and> int64 i) \<or> (\<exists>r. n = SReal r)"
  by (auto simp: numbers_only_def)

definition row_cells :: "sql_engine \<Rightarrow> table_def \<Rightarrow> sqlval list \<Rightarrow> sqlval list" where
  "row_cells eng td vs = map (\<lambda>(c, v). apply_affinity eng (sql_type (cd_type c)) v) (zip (td_columns td) vs)"

lemma new_row_cells:
  assumes "describes eng td t" and "def_wf td" and "length vs = length (td_columns td)"
  shows "new_row_values eng t (map cd_name (td_columns td)) vs = row_cells eng td vs"
proof -
  have keys: "map column_key (tb_columns t) = def_column_keys td"
    and affs: "map sc_affinity (tb_columns t) = map (\<lambda>c. sql_type (cd_type c)) (td_columns td)"
    using assms(1) by (simp_all add: describes_alt)
  have len: "length (tb_columns t) = length (td_columns td)"
    using affs by (metis length_map)
  have d: "distinct (def_column_keys td)" using assms(2) by (simp add: def_wf_def)
  show ?thesis
  proof (rule nth_equalityI)
    show "length (new_row_values eng t (map cd_name (td_columns td)) vs) = length (row_cells eng td vs)"
      by (simp add: new_row_values_def row_cells_def len assms(3))
    fix i assume "i < length (new_row_values eng t (map cd_name (td_columns td)) vs)"
    then have i: "i < length (td_columns td)" by (simp add: new_row_values_def len)
    have key: "column_key (tb_columns t ! i) = def_column_keys td ! i"
      using arg_cong [OF keys, of "\<lambda>xs. xs ! i"] i len by simp
    have aff: "sc_affinity (tb_columns t ! i) = sql_type (cd_type (td_columns td ! i))"
      using arg_cong [OF affs, of "\<lambda>xs. xs ! i"] i len by simp
    have "dget (zip (def_column_keys td) vs) (def_column_keys td ! i) = Some (vs ! i)"
      using map_of_zip_nth [of "def_column_keys td" vs i] i assms(3) d
      by (metis def_column_keys_def length_map)
    then show "new_row_values eng t (map cd_name (td_columns td)) vs ! i = row_cells eng td vs ! i"
      using i len assms(3) by (simp add: new_row_values_def row_cells_def key aff comp_def flip: def_column_keys_def)
  qed
qed

lemma cell_conforms:
  assumes "numbers_only eng" and "bind_value (to_sql_value c j) = Inr v"
  shows "conforms eng (sql_type (cd_type c)) (apply_affinity eng (sql_type (cd_type c)) v)"
proof (cases "cd_type c")
  case ColText
  then show ?thesis by (cases v) simp_all
next
  case ColNumber
  then show ?thesis
  proof (cases v)
    case (SText s)
    show ?thesis
    proof (cases "eng_text_number eng s")
      case None
      with SText ColNumber show ?thesis by simp
    next
      case (Some n)
      with numbers_onlyD [OF assms(1) Some] SText ColNumber show ?thesis by auto
    qed
  qed simp_all
next
  case ColBoolean
  with assms(2) show ?thesis by (cases j) (auto simp: to_sql_value_def int64_def split: if_splits)
qed

lemma cells_conform:
  assumes "numbers_only eng" and "mapMR bind_value (map (\<lambda>c. to_sql_value c (f c)) (td_columns td)) = Inr vs"
  shows "list_all2 (conforms eng) (map (\<lambda>c. sql_type (cd_type c)) (td_columns td)) (row_cells eng td vs)"
proof -
  have len: "length vs = length (td_columns td)"
    using mapMR_Inr_length [OF assms(2)] by simp
  show ?thesis
    unfolding list_all2_conv_all_nth
  proof (intro conjI allI impI)
    show "length (map (\<lambda>c. sql_type (cd_type c)) (td_columns td)) = length (row_cells eng td vs)"
      by (simp add: row_cells_def len)
    fix i assume "i < length (map (\<lambda>c. sql_type (cd_type c)) (td_columns td))"
    then have i: "i < length (td_columns td)" by simp
    then have "bind_value (to_sql_value (td_columns td ! i) (f (td_columns td ! i))) = Inr (vs ! i)"
      using mapMR_Inr_nth [OF assms(2), of i] by simp
    from cell_conforms [OF assms(1) this] i len
    show "conforms eng (map (\<lambda>c. sql_type (cd_type c)) (td_columns td) ! i) (row_cells eng td vs ! i)"
      by (simp add: row_cells_def)
  qed
qed

lemma insert_by_id_set: "set (insert_by_id row rs) = insert row (set rs)"
  by (induction rs) (auto split: sqlval.splits)

lemma insert_by_id_distinct:
  "distinct (map fst (insert_by_id row rs)) \<longleftrightarrow> fst row \<notin> fst ` set rs \<and> distinct (map fst rs)"
  by (induction rs) (auto simp: insert_by_id_set split: sqlval.splits)

lemma row_id_ok_mono: "row_id_ok auto m i \<Longrightarrow> m \<le> m' \<Longrightarrow> row_id_ok auto m' i"
  by (cases "(auto, m, i)" rule: row_id_ok.cases) auto

text \<open>Placing a row keeps the table well formed and changes one entry of the map.\<close>

lemma describes_place:
  assumes t: "describes eng td t" and vs: "list_all2 (conforms eng) (map (\<lambda>c. sql_type (cd_type c)) (td_columns td)) vs"
    and k: "if td_id_type td = IdAutoIncrement then is_integer k else (\<exists>s. k = SText s)"
  shows "describes eng td (place_row t (k, vs))"
proof -
  let ?t = "place_row t (k, vs)"
  have auto: "tb_autoincrement t \<longleftrightarrow> td_id_type td = IdAutoIncrement"
    and ok: "rows_ok eng (td_id_type td = IdAutoIncrement) (tb_sequence t)
         (map (\<lambda>c. sql_type (cd_type c)) (td_columns td)) (tb_rows t)"
    using t by (simp_all add: describes_alt)
  have seq: "tb_sequence t \<le> tb_sequence ?t"
    by (simp add: place_row_def Let_def split: sqlval.split)
  have new: "row_id_ok (td_id_type td = IdAutoIncrement) (tb_sequence ?t) k"
    using k auto by (cases k) (auto simp: place_row_def Let_def split: if_splits)
  have set: "set (tb_rows ?t) = insert (k, vs) {r \<in> set (tb_rows t). fst r \<noteq> k}"
    by (auto simp: place_row_def Let_def insert_by_id_set)
  have "distinct (map fst (filter (\<lambda>r. fst r \<noteq> k) (tb_rows t)))"
    using ok by (simp add: rows_ok_def distinct_map_filter)
  then have "distinct (map fst (tb_rows ?t))"
    by (auto simp: place_row_def Let_def insert_by_id_distinct)
  moreover have "row_id_ok (td_id_type td = IdAutoIncrement) (tb_sequence ?t) (fst r)
      \<and> list_all2 (conforms eng) (map (\<lambda>c. sql_type (cd_type c)) (td_columns td)) (snd r)"
    if "r \<in> set (tb_rows ?t)" for r
    using that ok new vs row_id_ok_mono [OF _ seq] unfolding set rows_ok_def list_all_iff by auto
  ultimately have "rows_ok eng (td_id_type td = IdAutoIncrement) (tb_sequence ?t)
         (map (\<lambda>c. sql_type (cd_type c)) (td_columns td)) (tb_rows ?t)"
    by (simp add: rows_ok_def list_all_iff)
  then show ?thesis
    using t unfolding describes_alt by (simp add: place_row_def Let_def)
qed

lemma find_insert_by_id:
  "fst row \<notin> fst ` set rs \<Longrightarrow>
     List.find (\<lambda>r. fst r = k) (insert_by_id row rs) = (if k = fst row then Some row else List.find (\<lambda>r. fst r = k) rs)"
  by (induction rs) (auto split: sqlval.splits)

lemma find_filter: "(\<And>x. P x \<Longrightarrow> Q x) \<Longrightarrow> List.find P (filter Q xs) = List.find P xs"
  by (induction xs) auto

lemma find_filter_none: "(\<And>x. Q x \<Longrightarrow> \<not> P x) \<Longrightarrow> List.find P (filter Q xs) = None"
  by (induction xs) auto

lemma find_place:
  "List.find (\<lambda>r. fst r = k) (tb_rows (place_row t row)) =
     (if k = fst row then Some row else List.find (\<lambda>r. fst r = k) (tb_rows t))"
proof -
  let ?others = "filter (\<lambda>r. fst r \<noteq> fst row) (tb_rows t)"
  have "List.find (\<lambda>r. fst r = k) ?others = (if k = fst row then None else List.find (\<lambda>r. fst r = k) (tb_rows t))"
    by (cases "k = fst row") (auto intro: find_filter find_filter_none)
  moreover have "fst row \<notin> fst ` set ?others" by auto
  ultimately show ?thesis
    by (auto simp: place_row_def Let_def find_insert_by_id find_append split: option.splits)
qed


lemma table_key_place: "table_key (place_row t row) = table_key t"
  by (simp add: place_row_def Let_def table_key_def)

text \<open>A statement that replaces the table of one definition by another table of that definition.\<close>

lemma find_table_put:
  assumes "find_table name db = Some t" and "table_key t' = table_key t"
  shows "find_table other (put_table t' db) =
    (if fold_name other = fold_name name then Some t' else find_table other db)"
proof -
  have t: "table_key t = fold_name name"
    using find_SomeD [OF assms(1) [unfolded find_table_def]] by simp
  have "List.find (\<lambda>u. table_key u = k) (map (\<lambda>u. if table_key u = table_key t' then t' else u) us) =
      (if k = table_key t' then (if table_key t' \<in> set (map table_key us) then Some t' else None)
       else List.find (\<lambda>u. table_key u = k) us)" for k us
    by (induction us) auto
  moreover have "table_key t \<in> set (map table_key (db_tables db))"
    using find_SomeD [OF assms(1) [unfolded find_table_def]] by force
  ultimately show ?thesis
    by (simp add: find_table_def put_table_def t assms(2) [unfolded t])
qed

lemma repo_inv_put:
  assumes inv: "repo_inv eng tds db" and td: "find_def name tds = Some td" and t: "describes eng td t'"
    and db': "db_tables db' = db_tables (put_table t' db)" "ed_meta db' = ed_meta db"
      "db_other_tables db' = db_other_tables db"
  shows "repo_inv eng tds db'"
proof -
  from inv have wf: "catalogue_wf (db_other_tables db) tds"
    and desc: "list_all2 (describes eng) tds (db_tables db)" and cat: "catalogue db = Inr tds"
    by (simp_all add: repo_inv_def)
  have keys: "distinct (map def_key tds)" using wf by (simp add: catalogue_wf_def)
  have mem: "td \<in> set tds" using find_def_SomeD [OF td] by simp
  have "list_all2 (describes eng) (map (\<lambda>d. d) tds) (map (\<lambda>u. if table_key u = table_key t' then t' else u) (db_tables db))"
  proof (rule list_all2_map_both [OF desc])
    fix d u
    assume d: "d \<in> set tds" "describes eng d u"
    show "describes eng d (if table_key u = table_key t' then t' else u)"
      using d t same_key_same_def [OF keys d(1) mem] by (auto simp: describes_def)
  qed
  with cat wf db' show ?thesis
    by (simp add: repo_inv_def catalogue_def put_table_def)
qed

lemma row_at_put:
  assumes inv: "repo_inv eng tds db" and td: "find_def name tds = Some td"
    and t: "find_table (td_table_name td) db = Some t" and key: "table_key t' = table_key t"
    and db': "db_tables db' = db_tables (put_table t' db)"
  shows "row_at tds db' other k =
    (if other = name then map_option (stored_row td) (List.find (\<lambda>r. fst r = k) (tb_rows t'))
     else row_at tds db other k)"
proof -
  have find: "find_table n db' = (if fold_name n = fold_name (td_table_name td) then Some t' else find_table n db)" for n
    using find_table_put [OF t key, of n] db' by (simp add: find_table_def)
  have keys: "distinct (map def_key tds)"
    using inv by (simp add: repo_inv_def catalogue_wf_def)
  show ?thesis
  proof (cases "find_def other tds")
    case None
    with td show ?thesis by (auto simp: row_at_def)
  next
    case (Some d)
    have "fold_name (td_table_name d) = fold_name (td_table_name td) \<longleftrightarrow> other = name"
      using name_key_iff [OF keys td, of d] find_def_SomeD [OF Some] by (auto simp: def_key_def)
    with Some td show ?thesis by (auto simp: row_at_def find)
  qed
qed


text \<open>
  An exception that does not touch tables or metadata, and is not the failed assertion. After an
  error of binding or running the statement the transaction is still open.
\<close>

definition harmless :: "entity_db \<Rightarrow> exn \<Rightarrow> entity_db \<Rightarrow> bool" where
  "harmless db e db' \<longleftrightarrow> e \<noteq> AssertionError \<and> db_tables db' = db_tables db \<and> ed_meta db' = ed_meta db
     \<and> db_other_tables db' = db_other_tables db
     \<and> (e \<in> {SqlIntegrityError, OverflowError, SqlProgrammingError} \<longrightarrow> db_in_transaction db')"

lemma bind_value_error: "bind_value j = Inl e \<Longrightarrow> e \<noteq> AssertionError"
  by (cases j) (auto split: if_splits)

lemma mapMR_error: "mapMR f xs = Inl e \<Longrightarrow> \<exists>x \<in> set xs. f x = Inl e"
proof (induction xs)
  case Nil
  then show ?case by simp
next
  case (Cons x xs)
  then show ?case by (cases "f x"; cases "mapMR f xs") simp_all
qed

definition row_values :: "table_def \<Rightarrow> json dict \<Rightarrow> json list" where
  "row_values td row = map (\<lambda>c. to_sql_value c (dget_default row (cd_name c) JNull)) (td_columns td)"

text \<open>What storing a row does, whichever of the two INSERT statements it takes.\<close>

definition placed ::
  "sql_engine \<Rightarrow> table_def \<Rightarrow> sql_table \<Rightarrow> json dict \<Rightarrow> json \<Rightarrow> entity_db \<Rightarrow> entity_db \<Rightarrow> bool" where
  "placed eng td t row row_id db db' \<longleftrightarrow>
     (\<exists>us k v. mapMR bind_value (row_values td row) = Inr us
        \<and> bind_value row_id = Inr v \<and> v \<noteq> SNull \<and> key_of eng td v = k
        \<and> (if td_id_type td = IdAutoIncrement then is_integer k else (\<exists>s. k = SText s))
        \<and> bind_value (fetch_value k) = Inr k
        \<and> db_tables db' = db_tables (put_table (place_row t (k, row_cells eng td us)) db)
        \<and> ed_meta db' = ed_meta db \<and> db_other_tables db' = db_other_tables db)"

lemma key_bindable:
  assumes "numbers_only eng" and "bind_value j = Inr v" and "v \<noteq> SNull"
    and "td_id_type td = IdAutoIncrement \<Longrightarrow> is_integer (key_of eng td v)"
  shows "(if td_id_type td = IdAutoIncrement then is_integer (key_of eng td v) else (\<exists>s. key_of eng td v = SText s))
    \<and> bind_value (fetch_value (key_of eng td v)) = Inr (key_of eng td v)"
proof (cases "td_id_type td")
  case IdUuid
  with assms(3) show ?thesis by (cases v) (simp_all add: key_of_def)
next
  case IdAutoIncrement
  then have int: "is_integer (whole (numeric eng v))" using assms(4) by (simp add: key_of_def)
  have "int64 i" if "whole (numeric eng v) = SInt i" for i
  proof (cases "numeric eng v")
    case (SInt n)
    show ?thesis
    proof (cases v)
      case (SInt m)
      with that assms(2) show ?thesis by (cases j) (auto split: if_splits simp: int64_def)
    next
      case (SText s)
      with \<open>numeric eng v = SInt n\<close> that show ?thesis
        by (auto split: option.splits dest: numbers_onlyD [OF assms(1)])
    qed (use SInt in simp_all)
  qed (use that in \<open>auto split: if_splits\<close>)
  with int show ?thesis
    using IdAutoIncrement by (cases "whole (numeric eng v)") (simp_all add: key_of_def)
qed

text \<open>The id that an INSERT without one gets is beyond those of all rows.\<close>

lemma foldl_max_ge: "m \<le> foldl max (m :: int) xs"
  by (induction xs arbitrary: m) (auto intro: order_trans [OF max.cobounded1])

lemma ids_below_next:
  assumes "describes eng td t" and "td_id_type td = IdAutoIncrement" and "r \<in> set (tb_rows t)"
  shows "\<exists>m < max_row_id t + 1. fst r = SInt m"
proof -
  have "row_id_ok True (tb_sequence t) (fst r)"
    using assms by (auto simp: describes_alt rows_ok_def list_all_iff)
  moreover have "tb_sequence t \<le> max_row_id t" by (simp add: max_row_id_def foldl_max_ge)
  ultimately show ?thesis by (cases "fst r") auto
qed

lemma sql_insert_places:
  assumes t: "find_table (td_table_name td) db = Some t" "describes eng td t" "def_wf td"
    and auto: "td_id_type td = IdAutoIncrement"
  shows "(\<exists>n db1. sql_insert eng (td_table_name td) (map cd_name (td_columns td)) (row_values td row) db = (Inr n, db1)
        \<and> placed eng td t row (JInt n) db db1 \<and> (\<forall>r \<in> set (tb_rows t). \<exists>m < n. fst r = SInt m))
    \<or> (\<exists>e db1. sql_insert eng (td_table_name td) (map cd_name (td_columns td)) (row_values td row) db = (Inl e, db1)
        \<and> harmless db e db1)"
proof (cases "mapMR bind_value (row_values td row)")
  case (Inl e)
  then have "e \<noteq> AssertionError"
    using mapMR_error [OF Inl] bind_value_error by blast
  with Inl show ?thesis
    by (auto simp: sql_insert_def bindC_def the_table_run [OF t(1)] guard_sql_def begin_transaction_def
        harmless_def known_data_columns [OF t(2)])
next
  case (Inr us)
  have len: "length us = length (td_columns td)"
    using mapMR_Inr_length [OF Inr] by (simp add: row_values_def)
  have cells: "new_row_values eng t (map cd_name (td_columns td)) us = row_cells eng td us"
    by (rule new_row_cells [OF t(2,3) len])
  show ?thesis
  proof (cases "td_columns td \<noteq> [] \<and> not_null_ok t (row_cells eng td us) \<and> int64 (max_row_id t + 1)")
    case False
    with Inr cells show ?thesis
      by (auto simp: sql_insert_def bindC_def the_table_run [OF t(1)] guard_sql_def begin_transaction_def
          harmless_def known_data_columns [OF t(2)] Let_def)
  next
    case True
    with Inr cells have "sql_insert eng (td_table_name td) (map cd_name (td_columns td)) (row_values td row) db =
       (Inr (max_row_id t + 1), put_table (place_row t (SInt (max_row_id t + 1), row_cells eng td us))
          (db\<lparr>db_in_transaction := True\<rparr>))"
      by (simp add: sql_insert_def bindC_def the_table_run [OF t(1)] guard_sql_def begin_transaction_def
          known_data_columns [OF t(2)] Let_def)
    then show ?thesis
      using True Inr auto ids_below_next [OF t(2) auto] by (auto simp: placed_def key_of_def put_table_def)
  qed
qed

lemma sql_replace_places:
  assumes t: "find_table (td_table_name td) db = Some t" "describes eng td t" "def_wf td"
    and num: "numbers_only eng" and id: "row_id \<noteq> JNull"
  shows "(\<exists>db1. sql_replace eng (td_table_name td) (map cd_name (td_columns td)) row_id (row_values td row) db = (Inr (), db1)
        \<and> placed eng td t row row_id db db1)
    \<or> (\<exists>e db1. sql_replace eng (td_table_name td) (map cd_name (td_columns td)) row_id (row_values td row) db = (Inl e, db1)
        \<and> harmless db e db1)"
proof (cases "bind_value row_id")
  case (Inl e)
  with bind_value_error [OF Inl] show ?thesis
    by (auto simp: sql_replace_def bindC_def the_table_run [OF t(1)] guard_sql_def begin_transaction_def
        harmless_def known_data_columns [OF t(2)])
next
  case id_bound: (Inr v)
  have v: "v \<noteq> SNull" using id id_bound by (cases row_id) (auto split: if_splits)
  show ?thesis
  proof (cases "mapMR bind_value (row_values td row)")
    case (Inl e)
    then have "e \<noteq> AssertionError"
      using mapMR_error [OF Inl] bind_value_error by blast
    with Inl id_bound show ?thesis
      by (auto simp: sql_replace_def bindC_def the_table_run [OF t(1)] guard_sql_def begin_transaction_def
          harmless_def known_data_columns [OF t(2)])
  next
    case (Inr us)
    have len: "length us = length (td_columns td)"
      using mapMR_Inr_length [OF Inr] by (simp add: row_values_def)
    have cells: "new_row_values eng t (map cd_name (td_columns td)) us = row_cells eng td us"
      by (rule new_row_cells [OF t(2,3) len])
    have auto: "tb_autoincrement t \<longleftrightarrow> td_id_type td = IdAutoIncrement"
      using t(2) by (simp add: describes_def)
    let ?k = "key_of eng td v"
    show ?thesis
    proof (cases "td_columns td \<noteq> [] \<and> not_null_ok t (row_cells eng td us) \<and> (td_id_type td = IdAutoIncrement \<longrightarrow> is_integer ?k)")
      case False
      with Inr id_bound cells auto show ?thesis
        by (auto simp: sql_replace_def bindC_def the_table_run [OF t(1)] guard_sql_def begin_transaction_def
            harmless_def known_data_columns [OF t(2)] Let_def id_affinity_key [OF t(2)])
    next
      case True
      with Inr id_bound cells auto have "sql_replace eng (td_table_name td) (map cd_name (td_columns td)) row_id (row_values td row) db =
         (Inr (), put_table (place_row t (?k, row_cells eng td us)) (db\<lparr>db_in_transaction := True\<rparr>))"
        by (auto simp: sql_replace_def bindC_def the_table_run [OF t(1)] guard_sql_def begin_transaction_def
            known_data_columns [OF t(2)] Let_def id_affinity_key [OF t(2)])
      moreover have "placed eng td t row row_id db (put_table (place_row t (?k, row_cells eng td us)) (db\<lparr>db_in_transaction := True\<rparr>))"
        unfolding placed_def using Inr id_bound v key_bindable [OF num id_bound v, of td] True
        by (intro exI [of _ us] exI [of _ ?k] exI [of _ v]) (simp add: put_table_def)
      ultimately show ?thesis by blast
    qed
  qed
qed


text \<open>
  \<open>upsert_row\<close>, as a whole: an exception that changes no table and no metadata, or the new row at
  its key in the map, read back.
\<close>

text \<open>
  The key of the new row: the given id's, if there is one (\<open>0\<close>, the empty text and \<open>False\<close> count as
  none); without one, in an auto-increment table, an integer beyond the ids of all rows; otherwise
  that of the next generated id.
\<close>

definition key_for ::
  "sql_engine \<Rightarrow> table_def list \<Rightarrow> entity_db \<Rightarrow> string \<Rightarrow> table_def \<Rightarrow> json \<Rightarrow> sqlval \<Rightarrow> bool" where
  "key_for eng tds db name td given k \<longleftrightarrow>
     (if truthy given then \<exists>v. bind_value given = Inr v \<and> k = key_of eng td v
      else if given = JNull \<and> td_id_type td = IdAutoIncrement
      then \<exists>n. k = SInt n \<and> (\<forall>k'. row_at tds db name k' \<noteq> None \<longrightarrow> (\<exists>m < n. k' = SInt m))
      else k = key_of eng td (SText (ed_uuid db (ed_uuid_count db))))"

definition upserted ::
  "sql_engine \<Rightarrow> table_def list \<Rightarrow> string \<Rightarrow> json dict \<Rightarrow> entity_db \<Rightarrow> json dict \<Rightarrow> entity_db \<Rightarrow> bool" where
  "upserted eng tds name row db stored db' \<longleftrightarrow>
     (\<exists>td t us k. find_def name tds = Some td \<and> find_table (td_table_name td) db = Some t
        \<and> mapMR bind_value (row_values td row) = Inr us
        \<and> stored = stored_row td (k, row_cells eng td us)
        \<and> bind_value (fetch_value k) = Inr k \<and> key_of eng td k = k \<and> k \<noteq> SNull
        \<and> key_for eng tds db name td (dget_default row ''id'' JNull) k
        \<and> repo_inv eng tds db' \<and> \<not> db_in_transaction db' \<and> db_other_tables db' = db_other_tables db
        \<and> (\<forall>other k'. row_at tds db' other k' =
              (if other = name \<and> k' = k then Some stored else row_at tds db other k')))"

lemma key_of_idem:
  "(if td_id_type td = IdAutoIncrement then is_integer k else (\<exists>s. k = SText s)) \<Longrightarrow> key_of eng td k = k \<and> k \<noteq> SNull"
  by (cases "td_id_type td"; cases k) (auto simp: key_of_def)

text \<open>The id under which the code stores a row, before it is bound.\<close>

definition id_for :: "table_def \<Rightarrow> sql_table \<Rightarrow> entity_db \<Rightarrow> json \<Rightarrow> json \<Rightarrow> bool" where
  "id_for td t db given row_id \<longleftrightarrow>
     (if truthy given then row_id = given
      else if given = JNull \<and> td_id_type td = IdAutoIncrement
      then \<exists>n. row_id = JInt n \<and> (\<forall>r \<in> set (tb_rows t). \<exists>m < n. fst r = SInt m)
      else row_id = JStr (ed_uuid db (ed_uuid_count db)))"

lemma key_for_id:
  assumes td: "find_def name tds = Some td" and t: "find_table (td_table_name td) db = Some t"
    and i: "id_for td t db given row_id" and v: "bind_value row_id = Inr v"
  shows "key_for eng tds db name td given (key_of eng td v)"
proof -
  have rows: "\<exists>r \<in> set (tb_rows t). fst r = k" if "row_at tds db name k \<noteq> None" for k
  proof -
    from that td t obtain r where "List.find (\<lambda>r. fst r = k) (tb_rows t) = Some r"
      by (auto simp: row_at_def)
    then show ?thesis by (auto dest: find_SomeD)
  qed
  show ?thesis
  proof (cases "\<not> truthy given \<and> given = JNull \<and> td_id_type td = IdAutoIncrement")
    case True
    with i v obtain n where "v = SInt n" "\<forall>r \<in> set (tb_rows t). \<exists>m < n. fst r = SInt m"
      by (auto simp: id_for_def split: if_splits)
    with True rows show ?thesis by (fastforce simp: key_for_def key_of_def)
  next
    case False
    with i v show ?thesis by (auto simp: key_for_def id_for_def)
  qed
qed

lemma placed_upserted:
  assumes inv: "repo_inv eng tds db" and num: "numbers_only eng" and td: "find_def name tds = Some td"
    and t: "find_table (td_table_name td) db = Some t" "describes eng td t"
    and p: "placed eng td t row row_id db db1"
    and given: "id_for td t db (dget_default row ''id'' JNull) row_id"
  shows "\<exists>stored. bindC (get_row eng name row_id) (\<lambda>s. case s of None \<Rightarrow> raise AssertionError | Some d \<Rightarrow> ret d)
       (db1\<lparr>db_in_transaction := False\<rparr>) = (Inr stored, db1\<lparr>db_in_transaction := False\<rparr>)
     \<and> upserted eng tds name row db stored (db1\<lparr>db_in_transaction := False\<rparr>)"
proof -
  from p obtain us k v where us: "mapMR bind_value (row_values td row) = Inr us"
    and v: "bind_value row_id = Inr v" "v \<noteq> SNull" "key_of eng td v = k"
    and k: "if td_id_type td = IdAutoIncrement then is_integer k else (\<exists>s. k = SText s)"
    and fetch: "bind_value (fetch_value k) = Inr k"
    and db1: "db_tables db1 = db_tables (put_table (place_row t (k, row_cells eng td us)) db)"
      "ed_meta db1 = ed_meta db" "db_other_tables db1 = db_other_tables db"
    unfolding placed_def by blast
  let ?db = "db1\<lparr>db_in_transaction := False\<rparr>" and ?t = "place_row t (k, row_cells eng td us)"
  have conf: "list_all2 (conforms eng) (map (\<lambda>c. sql_type (cd_type c)) (td_columns td)) (row_cells eng td us)"
    by (rule cells_conform [OF num us [unfolded row_values_def]])
  have inv': "repo_inv eng tds ?db"
    by (rule repo_inv_put [OF inv td describes_place [OF t(2) conf k]]) (simp_all add: db1)
  have map: "row_at tds ?db other k' = (if other = name \<and> k' = k
      then Some (stored_row td (k, row_cells eng td us)) else row_at tds db other k')" for other k'
  proof -
    have "row_at tds ?db other k' = (if other = name
        then map_option (stored_row td) (List.find (\<lambda>r. fst r = k') (tb_rows ?t)) else row_at tds db other k')"
      by (rule row_at_put [OF inv td t(1) table_key_place]) (simp add: db1)
    then show ?thesis by (simp add: find_place row_at_def td t(1))
  qed
  have "bindC (get_row eng name row_id) (\<lambda>s. case s of None \<Rightarrow> raise AssertionError | Some d \<Rightarrow> ret d) ?db
      = (Inr (stored_row td (k, row_cells eng td us)), ?db)"
    using v map by (simp add: bindC_def get_row_run [OF inv' td])
  moreover have "key_for eng tds db name td (dget_default row ''id'' JNull) k"
    using key_for_id [OF td t(1) given v(1), of eng] v(3) by simp
  then have "upserted eng tds name row db (stored_row td (k, row_cells eng td us)) ?db"
    unfolding upserted_def using td t(1) us fetch key_of_idem [OF k, of eng] inv' map db1(3)
    by (intro exI [of _ td] exI [of _ t] exI [of _ us] exI [of _ k]) simp
  ultimately show ?thesis by blast
qed

text \<open>The first half of an upsert: which statement stores the row, and under which id.\<close>

abbreviation store_row :: "sql_engine \<Rightarrow> table_def \<Rightarrow> json dict \<Rightarrow> (entity_db, json) cmd" where
  "store_row eng td row \<equiv>
     if dget_default row ''id'' JNull = JNull \<and> td_id_type td = IdAutoIncrement
     then bindC (sql_insert eng (td_table_name td) (map cd_name (td_columns td)) (row_values td row)) (\<lambda>n. ret (JInt n))
     else bindC (if truthy (dget_default row ''id'' JNull) then ret (dget_default row ''id'' JNull)
                 else bindC fresh_uuid (\<lambda>u. ret (JStr u))) (\<lambda>row_id.
          bindC (sql_replace eng (td_table_name td) (map cd_name (td_columns td)) row_id (row_values td row)) (\<lambda>_.
          ret row_id))"

lemma store_row_cases:
  assumes t: "find_table (td_table_name td) db = Some t" "describes eng td t" "def_wf td" and num: "numbers_only eng"
  obtains (stored) row_id db1 where "store_row eng td row db = (Inr row_id, db1)"
      and "placed eng td t row row_id db db1"
      and "id_for td t db (dget_default row ''id'' JNull) row_id"
  | (failed) e db1 where "store_row eng td row db = (Inl e, db1)" and "harmless db e db1"
proof (cases "dget_default row ''id'' JNull = JNull \<and> td_id_type td = IdAutoIncrement")
  case True
  note fresh = sql_insert_places [OF t conjunct2 [OF True], of row] and stored' = stored [unfolded if_P [OF True]]
    and failed' = failed [unfolded if_P [OF True]]
  show ?thesis
    using fresh stored' failed' True by (auto simp: bindC_def id_for_def)
next
  case False
  note stored' = stored [unfolded if_not_P [OF False]] and failed' = failed [unfolded if_not_P [OF False]]
  show ?thesis
  proof (cases "truthy (dget_default row ''id'' JNull)")
    case True
    then have "dget_default row ''id'' JNull \<noteq> JNull" by auto
    from sql_replace_places [OF t num this, of row] show ?thesis
      using stored' [unfolded if_P [OF True]] failed' [unfolded if_P [OF True]] True
      by (auto simp: bindC_def id_for_def)
  next
    case not: False
    let ?db = "db\<lparr>ed_uuid_count := ed_uuid_count db + 1\<rparr>" and ?u = "JStr (ed_uuid db (ed_uuid_count db))"
    have eq: "placed eng td t row ?u ?db db1 = placed eng td t row ?u db db1"
      "harmless ?db e db1 = harmless db e db1" for db1 e
      by (simp_all add: placed_def put_table_def harmless_def)
    have "find_table (td_table_name td) ?db = Some t" using t(1) by (simp add: find_table_def)
    from sql_replace_places [OF this t(2,3) num, of ?u row] show ?thesis
      using stored' [unfolded if_not_P [OF not]] failed' [unfolded if_not_P [OF not]] not False
      unfolding eq by (auto simp: bindC_def fresh_uuid_def id_for_def)
  qed
qed

lemma upsert_row_split:
  assumes "require_table name db = (Inr td, db)"
  shows "upsert_row eng name row db = bindC (store_row eng td row) (\<lambda>row_id. bindC sql_commit (\<lambda>_.
     bindC (get_row eng name row_id) (\<lambda>s. case s of None \<Rightarrow> raise AssertionError | Some d \<Rightarrow> ret d))) db"
  by (simp add: upsert_row_def bindC_def [of "require_table name"] assms Let_def row_values_def)

lemma upsert_row_cases:
  assumes inv: "repo_inv eng tds db" and num: "numbers_only eng"
    and run: "upsert_row eng name row db = (r, db')"
  shows "(\<exists>e. r = Inl e \<and> harmless db e db') \<or> (\<exists>stored. r = Inr stored \<and> upserted eng tds name row db stored db')"
  using inv
proof (cases rule: require_tableE [where name = name])
  case unknown
  with run show ?thesis by (auto simp: upsert_row_def bindC_def harmless_def)
next
  case (known td t)
  note split = upsert_row_split [OF known(2)]
  show ?thesis
  proof (cases rule: store_row_cases [where row = row, OF known(3,4,5) num])
    case (1 row_id db1)
    have "sql_commit db1 = (Inr (), db1\<lparr>db_in_transaction := False\<rparr>)" by (simp add: sql_commit_def)
    then have "upsert_row eng name row db = bindC (get_row eng name row_id)
        (\<lambda>s. case s of None \<Rightarrow> raise AssertionError | Some d \<Rightarrow> ret d) (db1\<lparr>db_in_transaction := False\<rparr>)"
      unfolding split bindC_Inr [where m = "store_row eng td row", OF 1(1)]
      by (rule bindC_Inr [where m = sql_commit])
    with placed_upserted [OF inv num known(1,3,4) 1(2,3)] run show ?thesis by auto
  next
    case (2 e db1)
    with run show ?thesis unfolding split bindC_Inl [where m = "store_row eng td row", OF 2(1)] by auto
  qed
qed

subsection \<open>Deleting\<close>

lemma find_filter_other:
  "List.find (\<lambda>r. fst r = k') (filter (\<lambda>r. fst r \<noteq> k) rs) = (if k' = k then None else List.find (\<lambda>r. fst r = k') rs)"
  by (cases "k' = k") (auto intro: find_filter find_filter_none)

lemma describes_filter:
  "describes eng td t \<Longrightarrow> describes eng td (t\<lparr>tb_rows := filter P (tb_rows t)\<rparr>)"
  by (auto simp: describes_alt rows_ok_def list_all_iff distinct_map_filter)

lemma matching_id:
  "describes eng td t \<Longrightarrow> id_matches eng t v r \<longleftrightarrow> v \<noteq> SNull \<and> fst r = key_of eng td v"
  by (simp add: id_matches_def id_affinity_key)

lemma find_unmatched:
  assumes "describes eng td t"
  shows "List.find (\<lambda>r. fst r = k) (filter (\<lambda>x. \<not> id_matches eng t v x) rs) =
      (if v \<noteq> SNull \<and> k = key_of eng td v then None else List.find (\<lambda>r. fst r = k) rs)"
  by (cases "v = SNull") (simp_all add: matching_id [OF assms] find_filter_other)

lemma delete_row_run:
  assumes inv: "repo_inv eng tds db" and td: "find_def name tds = Some td"
    and v: "bind_value row_id = Inr v" and run: "delete_row eng name row_id db = (r, db')"
  shows "r = Inr (v \<noteq> SNull \<and> row_at tds db name (key_of eng td v) \<noteq> None)"
    and "repo_inv eng tds db'" and "db_other_tables db' = db_other_tables db"
    and "row_at tds db' other k =
      (if other = name \<and> v \<noteq> SNull \<and> k = key_of eng td v then None else row_at tds db other k)"
proof -
  obtain t where t: "find_table (td_table_name td) db = Some t" "describes eng td t" "def_wf td"
    and req: "require_table name db = (Inr td, db)"
    by (rule found_tableE [OF inv td])
  let ?m = "id_matches eng t v"
  let ?t = "t\<lparr>tb_rows := filter (\<lambda>x. \<not> ?m x) (tb_rows t)\<rparr>"
  have eq: "delete_row eng name row_id db =
      (Inr (list_ex ?m (tb_rows t)), (put_table ?t db)\<lparr>db_in_transaction := False\<rparr>)"
    using v by (simp add: delete_row_def bindC_def req sql_delete_id_def the_table_run [OF t(1)]
        begin_transaction_def sql_commit_def put_table_def)
  have at: "row_at tds db name k = map_option (stored_row td) (List.find (\<lambda>r. fst r = k) (tb_rows t))" for k
    by (simp add: row_at_def td t(1))
  have "list_ex ?m (tb_rows t) \<longleftrightarrow> v \<noteq> SNull \<and> List.find (\<lambda>r. fst r = key_of eng td v) (tb_rows t) \<noteq> None"
    by (force simp: matching_id [OF t(2)] list_ex_iff find_None_iff)
  with eq run at show "r = Inr (v \<noteq> SNull \<and> row_at tds db name (key_of eng td v) \<noteq> None)" by auto
  have db': "db' = (put_table ?t db)\<lparr>db_in_transaction := False\<rparr>" using eq run by simp
  show "repo_inv eng tds db'"
    by (rule repo_inv_put [OF inv td describes_filter [where P = "\<lambda>x. \<not> ?m x", OF t(2)]]) (simp_all add: db' put_table_def)
  show "db_other_tables db' = db_other_tables db" by (simp add: db' put_table_def)
  have "row_at tds db' other k = (if other = name
      then map_option (stored_row td) (List.find (\<lambda>r. fst r = k) (tb_rows ?t)) else row_at tds db other k)"
    by (rule row_at_put [OF inv td t(1)]) (simp_all add: db' table_key_def put_table_def)
  then show "row_at tds db' other k =
      (if other = name \<and> v \<noteq> SNull \<and> k = key_of eng td v then None else row_at tds db other k)"
    by (simp add: find_unmatched [OF t(2)] at)
qed

lemma delete_row_raises:
  assumes inv: "repo_inv eng tds db" and "find_def name tds = None \<or> (\<exists>e. bind_value row_id = Inl e)"
  shows "\<exists>e. delete_row eng name row_id db = (Inl e, db\<lparr>db_in_transaction := True\<rparr>)
    \<or> delete_row eng name row_id db = (Inl e, db)"
proof (cases "find_def name tds")
  case None
  then show ?thesis
    using unknown_table [OF inv] by (auto simp: delete_row_def bindC_def)
next
  case (Some td)
  obtain t where t: "find_table (td_table_name td) db = Some t" "describes eng td t" "def_wf td"
    and req: "require_table name db = (Inr td, db)"
    by (rule found_tableE [OF inv Some])
  from assms(2) Some obtain e where "bind_value row_id = Inl e" by auto
  then show ?thesis
    by (auto simp: delete_row_def bindC_def req sql_delete_id_def the_table_run [OF t(1)] begin_transaction_def)
qed

subsection \<open>Any sequence of operations\<close>

datatype repo_op =
    OpCreate table_def
  | OpDrop string
  | OpAddColumn string column_def
  | OpRenameColumn string string string
  | OpDropColumn string string
  | OpUpsert string "json dict"
  | OpDelete string json

fun run_op :: "sql_engine \<Rightarrow> repo_op \<Rightarrow> entity_db \<Rightarrow> entity_db" where
  "run_op eng (OpCreate td) db = snd (create_table eng td db)"
| "run_op eng (OpDrop name) db = snd (drop_table name db)"
| "run_op eng (OpAddColumn name c) db = snd (add_column eng name c db)"
| "run_op eng (OpRenameColumn name old new) db = snd (rename_column eng name old new db)"
| "run_op eng (OpDropColumn name c) db = snd (drop_column name c db)"
| "run_op eng (OpUpsert name row) db = snd (upsert_row eng name row db)"
| "run_op eng (OpDelete name row_id) db = snd (delete_row eng name row_id db)"

lemma repo_inv_same_tables:
  "repo_inv eng tds db \<Longrightarrow> db_tables db' = db_tables db \<Longrightarrow> ed_meta db' = ed_meta db \<Longrightarrow>
     db_other_tables db' = db_other_tables db \<Longrightarrow> repo_inv eng tds db'"
  by (simp add: repo_inv_def catalogue_def)

lemma alters_inv:
  "alters eng tds name f db r db' \<Longrightarrow> repo_inv eng tds db \<Longrightarrow>
     (\<exists>tds'. repo_inv eng tds' db') \<and> db_other_tables db' = db_other_tables db"
  by (auto simp: alters_def altered_def put_table_def)

lemma run_op_inv:
  assumes inv: "repo_inv eng tds db" and num: "numbers_only eng"
  shows "(\<exists>tds'. repo_inv eng tds' (run_op eng op db)) \<and> db_other_tables (run_op eng op db) = db_other_tables db"
proof (cases op)
  case (OpCreate td)
  obtain r db' where run: "create_table eng td db = (r, db')" by fastforce
  from create_table_cases [OF run] repo_inv_created [OF inv, of td] inv run OpCreate
  show ?thesis by (auto simp: created_def)
next
  case (OpDrop name)
  with drop_table_run [OF inv, of name] repo_inv_dropped [OF inv, of name] inv
  show ?thesis by (auto simp: dropped_def split: option.splits)
next
  case (OpAddColumn name c)
  obtain r db' where run: "add_column eng name c db = (r, db')" by fastforce
  with alters_inv [OF add_column_alters [OF inv run] inv] OpAddColumn show ?thesis by simp
next
  case (OpRenameColumn name old new)
  obtain r db' where run: "rename_column eng name old new db = (r, db')" by fastforce
  with alters_inv [OF rename_column_alters [OF inv run] inv] OpRenameColumn show ?thesis by simp
next
  case (OpDropColumn name c)
  obtain r db' where run: "drop_column name c db = (r, db')" by fastforce
  with alters_inv [OF drop_column_alters [OF inv run] inv] OpDropColumn show ?thesis by simp
next
  case (OpUpsert name row)
  obtain r db' where run: "upsert_row eng name row db = (r, db')" by fastforce
  from upsert_row_cases [OF inv num run] show ?thesis
    using run OpUpsert repo_inv_same_tables [OF inv, of db']
    by (auto simp: harmless_def upserted_def)
next
  case (OpDelete name row_id)
  obtain r db' where run: "delete_row eng name row_id db = (r, db')" by fastforce
  show ?thesis
  proof (cases "find_def name tds = None \<or> (\<exists>e. bind_value row_id = Inl e)")
    case True
    have "repo_inv eng tds (db\<lparr>db_in_transaction := True\<rparr>)"
      by (rule repo_inv_same_tables [OF inv]) simp_all
    with delete_row_raises [OF inv True] run OpDelete inv show ?thesis by auto
  next
    case False
    then obtain td v where "find_def name tds = Some td" "bind_value row_id = Inr v"
      by (metis option.exhaust sum.exhaust)
    from delete_row_run(2,3) [OF inv this run] run OpDelete show ?thesis by auto
  qed
qed

lemma run_ops_inv:
  "repo_inv eng tds db \<Longrightarrow> numbers_only eng \<Longrightarrow>
     (\<exists>tds'. repo_inv eng tds' (fold (run_op eng) ops db))
     \<and> db_other_tables (fold (run_op eng) ops db) = db_other_tables db"
proof (induction ops arbitrary: tds db)
  case Nil
  then show ?case by auto
next
  case (Cons op ops)
  obtain tds' where inv: "repo_inv eng tds' (run_op eng op db)"
    and others: "db_other_tables (run_op eng op db) = db_other_tables db"
    using run_op_inv [OF Cons.prems] by blast
  from Cons.IH [OF inv Cons.prems(2)] others show ?case by simp
qed

lemma repo_inv_open: "repo_inv eng [] (repo_open others uuids clock)"
  by (simp add: repo_inv_def repo_open_def catalogue_def catalogue_wf_def links_def)

end
