(* ===== verification/Entities_Props.thy ===== *)
theory Entities_Props
  imports Entities_Rows
begin

text \<open>
  The properties of the entity repository: consistency of metadata and engine over every sequence
  of operations, the schema operations as operations on the catalogue, the row operations as
  operations on the map from ids to rows, and two ways in which the code falls short.
\<close>

lemma others_open: "db_other_tables (repo_open others uuids clock) = meta_table_name # others"
  by (simp add: repo_open_def)

lemma zip_names_cells:
  "zip (map f cs) (map (\<lambda>(c, v). g c v) (zip cs vs)) = map (\<lambda>(c, v). (f c, g c v)) (zip cs vs)"
  by (induction cs vs rule: list_induct2') simp_all

lemma stored_row_zip:
  "stored_row td (k, vs) = zip (row_columns td) (fetch_value k # map (\<lambda>(c, v). cell_of c v) (zip (td_columns td) vs))"
  by (simp add: stored_row_def row_columns_def zip_names_cells)

lemma stored_row_column:
  assumes "def_wf td" and "length vs = length (td_columns td)" and "i < length (td_columns td)"
  shows "dget (stored_row td (k, vs)) (cd_name (td_columns td ! i)) = Some (cell_of (td_columns td ! i) (vs ! i))"
  using map_of_zip_nth [of "row_columns td" "fetch_value k # map (\<lambda>(c, v). cell_of c v) (zip (td_columns td) vs)" "Suc i"]
    def_names [OF assms(1)] assms(2,3)
  by (simp add: stored_row_zip row_columns_def)

subsection \<open>Consistency\<close>

text \<open>
  C3: the repository stays consistent. After any sequence of operations with any arguments,
  whether they returned or raised, \<open>list_tables\<close> returns a catalogue, sorted by name, in which
  the table names and each table's column names are distinct for SQLite (no case, no trailing
  newline), no column is called id, no table has the name of a table of another store in the same
  file, and the engine holds exactly the described tables, with rows of the right shape: distinct
  ids of the declared kind, one conforming value per column.
\<close>

theorem repository_stays_consistent:
  assumes "numbers_only eng" and "db = fold (run_op eng) ops (repo_open others uuids clock)"
  shows "\<exists>tds. list_tables db = (Inr (sort_key td_table_name tds), db)
     \<and> catalogue_wf (meta_table_name # others) tds \<and> list_all2 (describes eng) tds (db_tables db)"
proof -
  obtain tds where "repo_inv eng tds db" and "db_other_tables db = meta_table_name # others"
    using run_ops_inv [OF repo_inv_open assms(1), of ops others uuids clock] assms(2) others_open by auto
  then show ?thesis
    using list_tables_run by (auto simp: repo_inv_def)
qed

text \<open>
  C22: a Tool is backed by at most one table, and by a fit one. In every reachable repository two
  listed tables with the same \<open>tool_linked\<close> value are the same table, and a linked table has every
  column its Tool needs, with the right type, whatever renames and drops were tried.
\<close>

theorem one_fit_table_per_tool:
  assumes "numbers_only eng" and "db = fold (run_op eng) ops (repo_open others uuids clock)"
    and "list_tables db = (Inr tables, db')" and "a \<in> set tables" and "b \<in> set tables"
    and "td_tool_linked a = Some link" and "td_tool_linked b = Some link"
  shows "a = b \<and> has_required_columns a"
proof -
  obtain tds where inv: "repo_inv eng tds db"
    using run_ops_inv [OF repo_inv_open assms(1)] assms(2) by blast
  then have "list_tables db = (Inr (sort_key td_table_name tds), db)"
    by (intro list_tables_run) (simp add: repo_inv_def)
  with assms(3-5) have "a \<in> set tds" "b \<in> set tds" by auto
  moreover have "distinct (links tds)" "list_all def_wf tds"
    using inv by (simp_all add: repo_inv_def catalogue_wf_def)
  moreover have "distinct (links ts) \<Longrightarrow> a \<in> set ts \<Longrightarrow> b \<in> set ts \<Longrightarrow> a = b" for ts :: "table_def list"
    using assms(6,7) by (induction ts) (auto simp: links_def split: option.splits)
  ultimately show ?thesis by (auto simp: list_all_iff def_wf_def)
qed

subsection \<open>Refinement of the catalogue\<close>

definition column_change ::
  "table_def list \<Rightarrow> string \<Rightarrow> (column_def list \<Rightarrow> column_def list) \<Rightarrow> table_def result \<Rightarrow> table_def list option" where
  "column_change tds name f r =
     (case (find_def name tds, r) of
        (Some td, Inr td') \<Rightarrow> if td' = td\<lparr>td_columns := f (td_columns td)\<rparr>
                             then Some (with_columns name (f (td_columns td)) tds) else None
      | _ \<Rightarrow> None)"

text \<open>
  C10: the schema operations implement operations on the catalogue. From a consistent repository,
  an operation that raises leaves the database exactly as it was; creating adds the definition,
  dropping removes it, and adding, renaming and dropping a column change that table's column list,
  which is also what is returned. The repository is consistent with the new catalogue.
\<close>

theorem schema_operations_refine:
  assumes "repo_inv eng tds db"
  shows "(case create_table eng td db of (Inl e, db') \<Rightarrow> db' = db | (Inr u, db') \<Rightarrow> repo_inv eng (tds @ [td]) db')
    \<and> (case drop_table name db of (Inl e, db') \<Rightarrow> db' = db
           | (Inr u, db') \<Rightarrow> repo_inv eng (without_table name tds) db')
    \<and> (case add_column eng name c db of (Inl e, db') \<Rightarrow> db' = db
           | (Inr d, db') \<Rightarrow> \<exists>tds'. column_change tds name (\<lambda>cs. cs @ [c]) (Inr d) = Some tds' \<and> repo_inv eng tds' db')
    \<and> (case rename_column eng name old new db of (Inl e, db') \<Rightarrow> db' = db
           | (Inr d, db') \<Rightarrow> \<exists>tds'. column_change tds name
               (map (\<lambda>c. if cd_name c = old then c\<lparr>cd_name := new\<rparr> else c)) (Inr d) = Some tds' \<and> repo_inv eng tds' db')
    \<and> (case drop_column name col db of (Inl e, db') \<Rightarrow> db' = db
           | (Inr d, db') \<Rightarrow> \<exists>tds'. column_change tds name (filter (\<lambda>c. cd_name c \<noteq> col)) (Inr d) = Some tds' \<and> repo_inv eng tds' db')"
proof -
  have alt: "case m of (Inl e, db') \<Rightarrow> db' = db
      | (Inr d, db') \<Rightarrow> \<exists>tds'. column_change tds name f (Inr d) = Some tds' \<and> repo_inv eng tds' db'"
    if "\<And>r db'. m = (r, db') \<Longrightarrow> alters eng tds name f db r db'" for m f
  proof -
    obtain r db' where m: "m = (r, db')" by fastforce
    from that [OF m] m show ?thesis
      by (cases r) (auto simp: alters_def column_change_def)
  qed
  have "case create_table eng td db of (Inl e, db') \<Rightarrow> db' = db | (Inr u, db') \<Rightarrow> repo_inv eng (tds @ [td]) db'"
  proof -
    obtain r db' where run: "create_table eng td db = (r, db')" by fastforce
    from create_table_cases [OF run] repo_inv_created [OF assms, of td] run show ?thesis by auto
  qed
  moreover have "case drop_table name db of (Inl e, db') \<Rightarrow> db' = db
           | (Inr u, db') \<Rightarrow> repo_inv eng (without_table name tds) db'"
    using drop_table_run [OF assms, of name] repo_inv_dropped [OF assms, of name]
    by (auto split: option.splits)
  moreover have "case add_column eng name c db of (Inl e, db') \<Rightarrow> db' = db
           | (Inr d, db') \<Rightarrow> \<exists>tds'. column_change tds name (\<lambda>cs. cs @ [c]) (Inr d) = Some tds' \<and> repo_inv eng tds' db'"
    by (rule alt) (rule add_column_alters [OF assms])
  moreover have "case rename_column eng name old new db of (Inl e, db') \<Rightarrow> db' = db
           | (Inr d, db') \<Rightarrow> \<exists>tds'. column_change tds name
               (map (\<lambda>c. if cd_name c = old then c\<lparr>cd_name := new\<rparr> else c)) (Inr d) = Some tds' \<and> repo_inv eng tds' db'"
    by (rule alt) (rule rename_column_alters [OF assms])
  moreover have "case drop_column name col db of (Inl e, db') \<Rightarrow> db' = db
           | (Inr d, db') \<Rightarrow> \<exists>tds'. column_change tds name (filter (\<lambda>c. cd_name c \<noteq> col)) (Inr d) = Some tds' \<and> repo_inv eng tds' db'"
    by (rule alt) (rule drop_column_alters [OF assms])
  ultimately show ?thesis by (intro conjI)
qed

subsection \<open>Rows\<close>

text \<open>What the engine stores of a value given for a column, as it is read back.\<close>

definition read_back :: "sql_engine \<Rightarrow> column_def \<Rightarrow> json \<Rightarrow> json result" where
  "read_back eng c j = mapR (\<lambda>v. cell_of c (apply_affinity eng (sql_type (cd_type c)) v)) (bind_value (to_sql_value c j))"

lemma upsertedE:
  assumes "repo_inv eng tds db" and "upserted eng tds name row db stored db'"
  obtains td k where "find_def name tds = Some td" and "dget stored ''id'' = Some (fetch_value k)"
    and "bind_value (fetch_value k) = Inr k" and "key_of eng td k = k" and "k \<noteq> SNull"
    and "list_all (\<lambda>c. dget stored (cd_name c) \<noteq> None
           \<and> read_back eng c (dget_default row (cd_name c) JNull) = Inr (the (dget stored (cd_name c)))) (td_columns td)"
    and "key_for eng tds db name td (dget_default row ''id'' JNull) k"
    and "get_row eng name (fetch_value k) db' = (Inr (Some stored), db')" and "repo_inv eng tds db'"
    and "\<And>other k'. row_at tds db' other k' = (if other = name \<and> k' = k then Some stored else row_at tds db other k')"
proof -
  from assms(2) obtain td us k where td: "find_def name tds = Some td"
    and us: "mapMR bind_value (row_values td row) = Inr us"
    and stored: "stored = stored_row td (k, row_cells eng td us)"
    and k: "bind_value (fetch_value k) = Inr k" "key_of eng td k = k" "k \<noteq> SNull"
    and given: "key_for eng tds db name td (dget_default row ''id'' JNull) k"
    and inv: "repo_inv eng tds db'"
    and map: "\<And>other k'. row_at tds db' other k' = (if other = name \<and> k' = k then Some stored else row_at tds db other k')"
    unfolding upserted_def by blast
  have wf: "def_wf td" by (rule found_tableE [OF assms(1) td])
  have len: "length us = length (td_columns td)"
    using mapMR_Inr_length [OF us] by (simp add: row_values_def)
  have cell: "dget stored (cd_name c) \<noteq> None
      \<and> read_back eng c (dget_default row (cd_name c) JNull) = Inr (the (dget stored (cd_name c)))"
    if "c \<in> set (td_columns td)" for c
  proof -
    from that obtain i where i: "i < length (td_columns td)" "c = td_columns td ! i"
      by (auto simp: in_set_conv_nth)
    have "bind_value (to_sql_value c (dget_default row (cd_name c) JNull)) = Inr (us ! i)"
      using mapMR_Inr_nth [OF us, of i] i by (simp add: row_values_def)
    moreover have "dget stored (cd_name c) = Some (cell_of c (apply_affinity eng (sql_type (cd_type c)) (us ! i)))"
      using stored_row_column [OF wf, of "row_cells eng td us" i k] i len by (simp add: stored row_cells_def)
    ultimately show ?thesis by (simp add: read_back_def)
  qed
  have "get_row eng name (fetch_value k) db' = (Inr (Some stored), db')"
    using get_row_run [OF inv td, of "fetch_value k"] k map by simp
  moreover have "dget stored ''id'' = Some (fetch_value k)" by (simp add: stored stored_row_def)
  ultimately show ?thesis
    using that [OF td _ k _ given] cell inv map by (simp add: list_all_iff)
qed

text \<open>
  C4: an upsert is a write to the map from ids to rows. From a consistent repository, an upsert
  that raises changes no table (and the failed assertion of the code is never what it raises);
  one that returns a row leaves the repository consistent, and the row it returns has an id, every
  column's value as SQLite reads it back, is what \<open>get_row\<close> finds under that id afterwards, and is
  the only entry of any table that changed. The entry's key (\<open>key_for\<close>) is that of the id the
  caller gave; where none was given it is an integer beyond the ids of all rows in an
  auto-increment table, and the next generated id otherwise. The ids \<open>0\<close>, \<open>False\<close> and the empty
  text get a generated id, as the code's \<open>provided_id or uuid4().hex\<close> has it.
\<close>

theorem upsert_writes_one_row:
  assumes "repo_inv eng tds db" and "numbers_only eng" and "upsert_row eng name row db = (r, db')"
  shows "case r of
      Inl e \<Rightarrow> e \<noteq> AssertionError \<and> db_tables db' = db_tables db \<and> ed_meta db' = ed_meta db
    | Inr stored \<Rightarrow> repo_inv eng tds db' \<and>
        (\<exists>td i k. find_def name tds = Some td \<and> dget stored ''id'' = Some i \<and> bind_value i = Inr k
          \<and> key_for eng tds db name td (dget_default row ''id'' JNull) k
          \<and> list_all (\<lambda>c. dget stored (cd_name c) \<noteq> None
               \<and> read_back eng c (dget_default row (cd_name c) JNull) = Inr (the (dget stored (cd_name c)))) (td_columns td)
          \<and> get_row eng name i db' = (Inr (Some stored), db')
          \<and> (\<forall>other k'. row_at tds db' other k' = (if other = name \<and> k' = k then Some stored else row_at tds db other k')))"
proof (cases r)
  case (Inl e)
  with upsert_row_cases [OF assms] show ?thesis by (auto simp: harmless_def)
next
  case (Inr stored)
  with upsert_row_cases [OF assms] have "upserted eng tds name row db stored db'" by auto
  then show ?thesis
  proof (rule upsertedE [OF assms(1)])
    fix td k
    assume facts: "find_def name tds = Some td" "dget stored ''id'' = Some (fetch_value k)"
      "bind_value (fetch_value k) = Inr k" "key_for eng tds db name td (dget_default row ''id'' JNull) k"
      "list_all (\<lambda>c. dget stored (cd_name c) \<noteq> None
           \<and> read_back eng c (dget_default row (cd_name c) JNull) = Inr (the (dget stored (cd_name c)))) (td_columns td)"
      "get_row eng name (fetch_value k) db' = (Inr (Some stored), db')" "repo_inv eng tds db'"
      "\<And>other k'. row_at tds db' other k' = (if other = name \<and> k' = k then Some stored else row_at tds db other k')"
    show ?thesis
      unfolding Inr sum.case
      by (intro conjI exI [of _ td] exI [of _ "fetch_value k"] exI [of _ k] allI facts)
  qed
qed

text \<open>
  C24: a delete removes one entry of the map. From a consistent repository, deleting an id that can
  be bound, of a table that exists, returns whether there was such a row, removes that row, and
  leaves every other row of every table and the consistency of the repository.
\<close>

theorem delete_removes_one_row:
  assumes "repo_inv eng tds db" and "find_def name tds = Some td" and "bind_value i = Inr v"
    and "delete_row eng name i db = (r, db')"
  shows "r = Inr (v \<noteq> SNull \<and> row_at tds db name (key_of eng td v) \<noteq> None) \<and> repo_inv eng tds db'
    \<and> get_row eng name i db' = (Inr None, db')
    \<and> (\<forall>other k. row_at tds db' other k =
         (if other = name \<and> v \<noteq> SNull \<and> k = key_of eng td v then None else row_at tds db other k))"
proof -
  note del = delete_row_run [OF assms]
  have "get_row eng name i db' = (Inr None, db')"
    using get_row_run [OF del(2) assms(2), of i] assms(3) del(4) by simp
  with del show ?thesis by blast
qed

subsection \<open>Where the code falls short\<close>

text \<open>
  A table without columns can be created but never holds a row. Every upsert into it raises
  SQLite's syntax error (the statement text has an empty column list), whatever the row.
\<close>

theorem table_without_columns_takes_no_row:
  assumes "repo_inv eng tds db" and "find_def name tds = Some td" and "td_columns td = []"
  shows "fst (upsert_row eng name row db) = Inl SqlOperationalError"
proof -
  obtain t where t: "find_table (td_table_name td) db = Some t" "describes eng td t" "def_wf td"
    and req: "require_table name db = (Inr td, db)"
    by (rule found_tableE [OF assms(1,2)])
  from t(1) have t': "find_table (td_table_name td) (db\<lparr>ed_uuid_count := n\<rparr>) = Some t" for n
    by (simp add: find_table_def)
  show ?thesis
    by (simp add: upsert_row_def bindC_def req assms(3) Let_def sql_insert_def sql_replace_def fresh_uuid_def
        the_table_run [OF t(1)] the_table_run [OF t'] guard_sql_def)
qed

text \<open>
  C30: a refused row leaves the connection's transaction open. When an upsert raises because a
  value cannot be bound or a required column has no value, no commit or rollback follows: the
  transaction that \<open>sqlite3\<close> opened for the statement is still open, and with it SQLite's write
  lock on the file that the session and customer stores also write to. The witness is a row
  without its required column, as a create Tool call of the LLM may carry.
\<close>

theorem refused_row_leaves_transaction_open:
  assumes "repo_inv eng tds db" and "numbers_only eng" and "upsert_row eng name row db = (Inl e, db')"
    and "e \<in> {SqlIntegrityError, OverflowError, SqlProgrammingError}"
  shows "db_in_transaction db' \<and> db_tables db' = db_tables db"
  using upsert_row_cases [OF assms(1-3)] assms(4) by (auto simp: harmless_def)

subsection \<open>Witnesses\<close>

definition demo_eng :: sql_engine where
  "demo_eng = \<lparr>eng_real_text = (\<lambda>_. ''0.0''), eng_text_number = (\<lambda>_. None),
               eng_reserved = (\<lambda>w. w \<in> {''select'', ''order'', ''table''})\<rparr>"

definition demo_table :: table_def where
  "demo_table = \<lparr>td_table_name = ''rooms'', td_display_name = ''Rooms'',
     td_columns = [\<lparr>cd_name = ''kind'', cd_type = ColText, cd_required = True\<rparr>,
                   \<lparr>cd_name = ''free'', cd_type = ColBoolean, cd_required = False\<rparr>],
     td_id_type = IdAutoIncrement, td_tool_linked = None\<rparr>"

definition bare_table :: table_def where
  "bare_table = demo_table\<lparr>td_table_name := ''notes'', td_columns := []\<rparr>"

definition demo_file :: entity_db where
  "demo_file = repo_open [''sessions'', ''customers''] (\<lambda>n. ''4f'') (\<lambda>n. 0)"

definition demo_repo :: entity_db where
  "demo_repo = snd (create_table demo_eng bare_table (snd (create_table demo_eng demo_table demo_file)))"

lemma demo_numbers: "numbers_only demo_eng"
  by (simp add: numbers_only_def demo_eng_def)

lemma demo_repo_inv: "repo_inv demo_eng [demo_table, bare_table] demo_repo"
proof -
  have a: "fst (create_table demo_eng demo_table demo_file) = Inr ()"
    and b: "fst (create_table demo_eng bare_table (snd (create_table demo_eng demo_table demo_file))) = Inr ()"
    by code_simp+
  have "repo_inv demo_eng ([] @ [demo_table]) (snd (create_table demo_eng demo_table demo_file))"
    using create_table_cases [OF prod.collapse [symmetric], of demo_eng demo_table demo_file]
      repo_inv_created [OF repo_inv_open, of demo_table] a
    by (auto simp: demo_file_def)
  from repo_inv_created [OF this, of bare_table] b
    create_table_cases [OF prod.collapse [symmetric], of demo_eng bare_table "snd (create_table demo_eng demo_table demo_file)"]
  show ?thesis by (auto simp: demo_repo_def)
qed

lemma delete_removes_one_row_witness:
  "fst (delete_row demo_eng ''rooms'' (JInt 7) demo_repo) = Inr False"
proof -
  have "find_def ''rooms'' [demo_table, bare_table] = Some demo_table"
    and "bind_value (JInt 7) = Inr (SInt 7)" by code_simp+
  from delete_removes_one_row [OF demo_repo_inv this prod.collapse [symmetric]]
  have "fst (delete_row demo_eng ''rooms'' (JInt 7) demo_repo) =
      Inr (SInt 7 \<noteq> SNull \<and> row_at [demo_table, bare_table] demo_repo ''rooms'' (key_of demo_eng demo_table (SInt 7)) \<noteq> None)"
    by blast
  moreover have "row_at [demo_table, bare_table] demo_repo ''rooms'' (key_of demo_eng demo_table (SInt 7)) = None"
    by code_simp
  ultimately show ?thesis by simp
qed

lemma table_without_columns_takes_no_row_witness:
  "fst (create_table demo_eng bare_table demo_file) = Inr ()
   \<and> fst (upsert_row demo_eng ''notes'' [(''id'', JInt 1)] demo_repo) = Inl SqlOperationalError"
proof -
  have "find_def ''notes'' [demo_table, bare_table] = Some bare_table" and "td_columns bare_table = []"
    and c: "fst (create_table demo_eng bare_table demo_file) = Inr ()"
    by code_simp+
  with table_without_columns_takes_no_row [OF demo_repo_inv] show ?thesis by blast
qed

lemma refused_row_leaves_transaction_open_witness:
  "db_in_transaction (snd (upsert_row demo_eng ''rooms'' [(''free'', JBool True)] demo_repo))
   \<and> \<not> db_in_transaction demo_repo"
proof -
  let ?x = "upsert_row demo_eng ''rooms'' [(''free'', JBool True)] demo_repo"
  have "fst ?x = Inl SqlIntegrityError" and c: "\<not> db_in_transaction demo_repo"
    by code_simp+
  then have "?x = (Inl SqlIntegrityError, snd ?x)" by (metis prod.collapse)
  from refused_row_leaves_transaction_open [OF demo_repo_inv demo_numbers this] c show ?thesis by simp
qed

text \<open>A row with an id given for an auto-increment table.\<close>

lemma upsert_writes_one_row_witness:
  "\<exists>stored k. fst (upsert_row demo_eng ''rooms'' [(''kind'', JStr ''suite''), (''id'', JInt 7)] demo_repo) = Inr stored
     \<and> key_for demo_eng [demo_table, bare_table] demo_repo ''rooms'' demo_table (JInt 7) k
     \<and> dget stored ''id'' = Some (fetch_value k) \<and> dget stored ''kind'' = Some (JStr ''suite'')"
proof -
  let ?row = "[(''kind'', JStr ''suite''), (''id'', JInt 7)]"
  let ?x = "upsert_row demo_eng ''rooms'' ?row demo_repo"
  have x: "fst ?x = Inr [(''id'', JInt 7), (''kind'', JStr ''suite''), (''free'', JNull)]"
    and d: "find_def ''rooms'' [demo_table, bare_table] = Some demo_table"
    and i: "bind_value (JInt 7) = Inr (SInt 7)"
    by code_simp+
  from x have "?x = (Inr [(''id'', JInt 7), (''kind'', JStr ''suite''), (''free'', JNull)], snd ?x)"
    by (metis prod.collapse)
  from upsert_writes_one_row [OF demo_repo_inv demo_numbers this] d i
  have "key_for demo_eng [demo_table, bare_table] demo_repo ''rooms'' demo_table (JInt 7) (SInt 7)"
    by (simp add: dget_default_def int64_def)
  with x show ?thesis by (intro exI conjI) (auto simp: x)
qed

lemma repository_stays_consistent_witness:
  "\<exists>tds. list_all2 (describes demo_eng) tds (db_tables (fold (run_op demo_eng)
      [OpCreate demo_table, OpDropColumn ''rooms'' ''free'', OpUpsert ''rooms'' []] demo_file))"
  using repository_stays_consistent [OF demo_numbers refl, of
      "[OpCreate demo_table, OpDropColumn ''rooms'' ''free'', OpUpsert ''rooms'' []]"
      "[''sessions'', ''customers'']" "\<lambda>n. ''4f''" "\<lambda>n. 0"]
  unfolding demo_file_def by blast

definition demo_menu_table :: table_def where
  "demo_menu_table = \<lparr>td_table_name = ''menu'', td_display_name = ''Menu'',
     td_columns = [\<lparr>cd_name = ''name'', cd_type = ColText, cd_required = True\<rparr>,
                   \<lparr>cd_name = ''category'', cd_type = ColText, cd_required = True\<rparr>,
                   \<lparr>cd_name = ''price'', cd_type = ColNumber, cd_required = True\<rparr>,
                   \<lparr>cd_name = ''stock_quantity'', cd_type = ColNumber, cd_required = True\<rparr>],
     td_id_type = IdUuid, td_tool_linked = Some ''sqlite_menu''\<rparr>"

lemma one_fit_table_per_tool_witness: "has_required_columns demo_menu_table"
proof -
  let ?ops = "[OpCreate demo_menu_table, OpDropColumn ''menu'' ''price'',
     OpCreate (demo_menu_table\<lparr>td_table_name := ''menu2''\<rparr>)]"
  let ?db = "fold (run_op demo_eng) ?ops demo_file"
  have "fst (list_tables ?db) = Inr [demo_menu_table]" by code_simp
  then have run: "list_tables ?db = (Inr [demo_menu_table], snd (list_tables ?db))" by (metis prod.collapse)
  have link: "td_tool_linked demo_menu_table = Some ''sqlite_menu''" by (simp add: demo_menu_table_def)
  show ?thesis
    using one_fit_table_per_tool [OF demo_numbers refl run [unfolded demo_file_def] _ _ link link] by simp
qed

lemma schema_operations_refine_witness:
  "repo_inv demo_eng [demo_table] (snd (drop_table ''notes'' demo_repo))"
proof -
  have "fst (drop_table ''notes'' demo_repo) = Inr ()"
    and "without_table ''notes'' [demo_table, bare_table] = [demo_table]" by code_simp+
  moreover have "case drop_table ''notes'' demo_repo of (Inl e, db') \<Rightarrow> db' = demo_repo
      | (Inr u, db') \<Rightarrow> repo_inv demo_eng (without_table ''notes'' [demo_table, bare_table]) db'"
    by (rule schema_operations_refine [OF demo_repo_inv, THEN conjunct2, THEN conjunct1])
  ultimately show ?thesis by (cases "drop_table ''notes'' demo_repo") auto
qed

end
