(* ===== verification/Provisioning.thy ===== *)
theory Provisioning
  imports Admin Config_Store Entities_Props
begin

text \<open>
  The state of the admin backend, and self-serve provisioning
  (\<open>business_config/provisioning.py\<close>). The backend is the admin store and the interface
  layer's tokens, the files, and one database per Business; \<open>bk_dbs b\<close> is the file of Business
  \<open>b\<close> as the entity repository finds it when it is first opened, \<open>bk_repos\<close> the repositories the
  entities router has opened.
\<close>

record backend =
  bk_admin :: admin_state
  bk_disk :: disk
  bk_dbs :: "string \<Rightarrow> entity_db"
  bk_repos :: "string list"

text \<open>
  The libraries and settings of the server: the token and password functions, PyYAML and pydantic,
  the database engine, Python's rendering of floats, pydantic's rendering as JSON text, and the
  directory of the Businesses.
\<close>

record server_env = auth_env +
  sv_io :: config_io
  sv_eng :: sql_engine
  sv_float_repr :: "real \<Rightarrow> string"
  sv_json_text :: "json \<Rightarrow> string"
  sv_businesses_dir :: string

definition on_admin :: "(admin_state, 'a) cmd \<Rightarrow> (backend, 'a) cmd" where
  "on_admin = zoom bk_admin (\<lambda>a w. w\<lparr>bk_admin := a\<rparr>)"

definition on_disk :: "(disk, 'a) cmd \<Rightarrow> (backend, 'a) cmd" where
  "on_disk = zoom bk_disk (\<lambda>d w. w\<lparr>bk_disk := d\<rparr>)"

definition on_repo :: "string \<Rightarrow> (entity_db, 'a) cmd \<Rightarrow> (backend, 'a) cmd" where
  "on_repo business_id = zoom (\<lambda>w. bk_dbs w business_id)
     (\<lambda>db w. w\<lparr>bk_dbs := (bk_dbs w)(business_id := db)\<rparr>)"

definition env_auth :: "server_env \<Rightarrow> auth_env" where
  "env_auth sv = auth_env.truncate sv"

subsection \<open>The code\<close>

definition create_business_config :: "string \<Rightarrow> string \<Rightarrow> business_config result" where
  "create_business_config business_id display_name =
     (if \<not> business_id_match business_id then Inl (InvalidBusinessIdError business_id)
      else Inr
        \<lparr>bc_business_id = business_id, bc_display_name = display_name, bc_enabled = True,
         bc_llm = default_llm_config, bc_context = default_context_config ''context'',
         bc_business_logic =
           \<lparr>bl_persona = ''You are the '' @ display_name @ '' assistant. Update this persona from the ''
              @ ''admin Config page to describe how you should sound and what you help with.'',
            bl_scope_instructions = ''Answer questions using the context documents and tools configured for ''
              @ ''this Business. Update this from the admin Config page.'',
            bl_tone = None, bl_out_of_scope_response = None\<rparr>,
         bc_tools = [], bc_tool_provider = ''in_memory'', bc_storage = default_storage_config,
         bc_auth_type = ''none'', bc_frontend_adapters = default_frontend_adapters,
         bc_rails = default_rails_config\<rparr>)"

definition business_dir :: "server_env \<Rightarrow> string \<Rightarrow> string" where
  "business_dir sv business_id = sv_businesses_dir sv @ ''/'' @ business_id"

definition business_yaml :: "server_env \<Rightarrow> string \<Rightarrow> string" where
  "business_yaml sv business_id = business_dir sv business_id @ ''/business.yaml''"

definition provision_business ::
  "server_env \<Rightarrow> string \<Rightarrow> string \<Rightarrow> string \<Rightarrow> string \<Rightarrow> (backend, admin_user) cmd" where
  "provision_business sv business_id display_name owner_email owner_password =
     bindC (liftR (create_business_config business_id display_name)) (\<lambda>config.
     let dir = business_dir sv business_id in
     bindC (gets (\<lambda>w. path_exists dir (bk_disk w))) (\<lambda>exists.
     if exists then raise (BusinessAlreadyExistsError business_id)
     else
     bindC (on_admin (get_user_by_email owner_email)) (\<lambda>taken.
     if taken \<noteq> None then raise (OwnerEmailAlreadyExistsError owner_email)
     else
     bindC (on_disk (make_dir dir)) (\<lambda>_.
     bindC (on_disk (make_dir (dir @ ''/context''))) (\<lambda>_.
     bindC (on_disk (write_business_config_atomically (sv_io sv) (business_yaml sv business_id)
              (dump_config config))) (\<lambda>_.
     bindC (on_admin (hash_password (env_auth sv) owner_password)) (\<lambda>password_hash.
     let owner = \<lparr>au_email = owner_email, au_password_hash = password_hash, au_role = Owner,
                  au_business_id = Some business_id\<rparr> in
     bindC (on_admin (upsert_user owner)) (\<lambda>_.
     ret owner))))))))"

subsection \<open>What a signup leaves behind\<close>

lemma on_admin_run: "on_admin m w = (case m (bk_admin w) of (r, a) \<Rightarrow> (r, w\<lparr>bk_admin := a\<rparr>))"
  by (simp add: on_admin_def zoom_def)

lemma on_disk_run: "on_disk m w = (case m (bk_disk w) of (r, d) \<Rightarrow> (r, w\<lparr>bk_disk := d\<rparr>))"
  by (simp add: on_disk_def zoom_def)

lemma on_repo_run: "on_repo b m w = (case m (bk_dbs w b) of (r, db) \<Rightarrow> (r, w\<lparr>bk_dbs := (bk_dbs w)(b := db)\<rparr>))"
  by (simp add: on_repo_def zoom_def)

text \<open>The files of a Business whose directory and configuration have been written.\<close>

definition provisioned_disk :: "server_env \<Rightarrow> string \<Rightarrow> business_config \<Rightarrow> disk \<Rightarrow> disk" where
  "provisioned_disk sv b config dk =
     snd (write_business_config_atomically (sv_io sv) (business_yaml sv b) (dump_config config)
       (dk\<lparr>dk_dirs := dk_dirs dk @ [business_dir sv b, business_dir sv b @ ''/context'']\<rparr>))"

definition signed_up :: "string \<Rightarrow> string \<Rightarrow> string \<Rightarrow> admin_user" where
  "signed_up b email hash =
     \<lparr>au_email = email, au_password_hash = hash, au_role = Owner, au_business_id = Some b\<rparr>"

lemma provision_run:
  assumes "provision_business sv b name email password w = (r, w')"
  shows "(\<exists>e. r = Inl e \<and> w' = w \<and> (e = InvalidBusinessIdError b \<and> \<not> business_id_match b
           \<or> e = BusinessAlreadyExistsError b \<and> path_exists (business_dir sv b) (bk_disk w)
           \<or> e = OwnerEmailAlreadyExistsError email \<and> fst (get_user_by_email email (bk_admin w)) \<noteq> Inr None
           \<or> fst (get_user_by_email email (bk_admin w)) = Inl e))
    \<or> (\<exists>config h. create_business_config b name = Inr config \<and> \<not> path_exists (business_dir sv b) (bk_disk w)
        \<and> fst (get_user_by_email email (bk_admin w)) = Inr None
        \<and> ev_pw_hash sv (as_salt_count (bk_admin w)) password = h
        \<and> bk_disk w' = provisioned_disk sv b config (bk_disk w)
        \<and> bk_dbs w' = bk_dbs w \<and> bk_repos w' = bk_repos w
        \<and> (let a = (bk_admin w)\<lparr>as_salt_count := as_salt_count (bk_admin w) + 1\<rparr> in
           case h of Inl e \<Rightarrow> r = Inl e \<and> bk_admin w' = a
           | Inr hash \<Rightarrow> r = Inr (signed_up b email hash) \<and> bk_admin w' = snd (upsert_user (signed_up b email hash) a)))"
proof (cases "create_business_config b name")
  case (Inl e)
  with assms show ?thesis
    by (auto simp: provision_business_def bindC_def create_business_config_def split: if_splits)
next
  case (Inr config)
  obtain g where g: "get_user_by_email email (bk_admin w) = (g, bk_admin w)"
    using get_user_state [of email "bk_admin w"] by (metis prod.collapse)
  show ?thesis
  proof (cases "path_exists (business_dir sv b) (bk_disk w)")
    case True
    with Inr assms show ?thesis by (auto simp: provision_business_def bindC_def Let_def)
  next
    case False
    note pre = Inr False g
    show ?thesis
    proof (cases "g = Inr None")
      case False
      with pre assms show ?thesis
        by (cases g) (auto simp: provision_business_def bindC_def Let_def on_admin_run)
    next
      case True
      have hash: "ev_pw_hash (env_auth sv) n p = ev_pw_hash sv n p" for n p
        by (simp add: env_auth_def auth_env.truncate_def)
      have disk: "bk_disk w' = provisioned_disk sv b config (bk_disk w)"
        and rest: "bk_dbs w' = bk_dbs w \<and> bk_repos w' = bk_repos w
        \<and> (let a = (bk_admin w)\<lparr>as_salt_count := as_salt_count (bk_admin w) + 1\<rparr> in
           case ev_pw_hash sv (as_salt_count (bk_admin w)) password of Inl e \<Rightarrow> r = Inl e \<and> bk_admin w' = a
           | Inr hash \<Rightarrow> r = Inr (signed_up b email hash) \<and> bk_admin w' = snd (upsert_user (signed_up b email hash) a))"
        using pre True assms
        by (cases "ev_pw_hash sv (as_salt_count (bk_admin w)) password";
            auto simp: provision_business_def bindC_def Let_def on_admin_run on_disk_run make_dir_def
              write_atomically_run provisioned_disk_def hash_password_def hash upsert_user_def signed_up_def)+
      with pre True show ?thesis by auto
    qed
  qed
qed

lemma get_user_upsert:
  "fst (get_user_by_email e (snd (upsert_user u s))) =
     (if e = au_email u then Inr (Some u) else fst (get_user_by_email e s))"
proof -
  let ?row = "\<lparr>ur_email = au_email u, ur_password_hash = au_password_hash u,
                ur_role = role_value (au_role u), ur_business_id = au_business_id u\<rparr>"
  have "List.find (\<lambda>r. ur_email r = e) (map (\<lambda>r. if ur_email r = au_email u then ?row else r) rs) =
      (if e = au_email u \<and> list_ex (\<lambda>r. ur_email r = au_email u) rs then Some ?row
       else List.find (\<lambda>r. ur_email r = e) rs)" for rs :: "user_row list"
    by (induction rs) auto
  moreover have "List.find (\<lambda>r. ur_email r = au_email u) rs = None" if "\<not> list_ex (\<lambda>r. ur_email r = au_email u) rs" for rs :: "user_row list"
    using that by (induction rs) auto
  ultimately show ?thesis
    by (auto simp: upsert_user_def get_user_by_email_def Let_def find_append split: option.splits)
qed

lemma provisioned_files:
  "dget (dk_files (provisioned_disk sv b config dk)) f =
     (if f = business_yaml sv b then Some (io_dump (sv_io sv) (dump_config config))
      else if f = business_yaml sv b @ ''.tmp'' then None else dget (dk_files dk) f)"
  "dk_dirs (provisioned_disk sv b config dk) = dk_dirs dk @ [business_dir sv b, business_dir sv b @ ''/context'']"
  by (simp_all add: provisioned_disk_def write_atomically_run)

text \<open>A fresh configuration is valid data: what pydantic must accept for a signup to be loadable.\<close>

definition accepts_new_config :: "config_io \<Rightarrow> string \<Rightarrow> string \<Rightarrow> bool" where
  "accepts_new_config io b name \<longleftrightarrow>
     (\<forall>config. create_business_config b name = Inr config \<longrightarrow> io_validate io (dump_config config) = Some config)"

lemma provisioned_loads:
  assumes "yaml_round_trip (sv_io sv)" and "accepts_new_config (sv_io sv) b name"
    and "create_business_config b name = Inr config"
  shows "fst (load_business_config (sv_io sv) (business_yaml sv b) (provisioned_disk sv b config dk)) = Inr config"
  using assms by (simp add: load_business_config_def provisioned_files accepts_new_config_def yaml_round_trip_def)

lemma business_id_safe:
  assumes "business_id_match b"
  shows "CHR ''/'' \<notin> set b" and "CHR ''.'' \<notin> set b" and "b \<noteq> []"
proof -
  obtain s where s: "slug_from False s" and b: "b = s \<or> b = s @ [newline]"
    using matches_at_dollar_cases [OF assms [unfolded business_id_match_def]] by blast
  have chars: "c \<noteq> CHR ''/'' \<and> c \<noteq> CHR ''.''" if "c \<in> set s" for c
    using bspec [OF slug_from_chars [OF s] that] slug_char_not [of c] by auto
  have "s \<noteq> []" using s by auto
  with chars b show "CHR ''/'' \<notin> set b" and "CHR ''.'' \<notin> set b" and "b \<noteq> []" by force+
qed

text \<open>
  C37: a signup creates a whole Business or nothing. When bcrypt accepts the password, a signup that
  raises has changed nothing at all. One that succeeds had a free id without a slash or a dot, so
  the new directory is a child of the Businesses directory, and a free email; it has made that
  directory and its \<open>context\<close> directory, and no other; the configuration file in it loads to the id and
  name asked for, the admin store knows the email as the owner of that Business with the new password
  hash, and every other file (but for the temporary copy of the configuration, of which none is
  left), user, database and the audit log are as they were.
\<close>

theorem signup_creates_all_or_nothing:
  assumes "provision_business sv b name email password w = (r, w')"
    and "yaml_round_trip (sv_io sv)" and "accepts_new_config (sv_io sv) b name"
    and "\<And>n. ev_pw_hash sv n password = Inr (hash n)"
  shows "case r of
      Inl e \<Rightarrow> w' = w
    | Inr owner \<Rightarrow>
        CHR ''/'' \<notin> set b \<and> CHR ''.'' \<notin> set b \<and> b \<noteq> []
        \<and> \<not> path_exists (business_dir sv b) (bk_disk w)
        \<and> fst (get_user_by_email email (bk_admin w)) = Inr None
        \<and> owner = signed_up b email (hash (as_salt_count (bk_admin w)))
        \<and> dk_dirs (bk_disk w') = dk_dirs (bk_disk w) @ [business_dir sv b, business_dir sv b @ ''/context'']
        \<and> (\<exists>config. fst (load_business_config (sv_io sv) (business_yaml sv b) (bk_disk w')) = Inr config
              \<and> bc_business_id config = b \<and> bc_display_name config = name \<and> bc_enabled config)
        \<and> (\<forall>e. fst (get_user_by_email e (bk_admin w')) =
               (if e = email then Inr (Some owner) else fst (get_user_by_email e (bk_admin w))))
        \<and> (\<forall>f. f \<noteq> business_yaml sv b \<and> f \<noteq> business_yaml sv b @ ''.tmp'' \<longrightarrow>
               dget (dk_files (bk_disk w')) f = dget (dk_files (bk_disk w)) f)
        \<and> dget (dk_files (bk_disk w')) (business_yaml sv b @ ''.tmp'') = None
        \<and> bk_dbs w' = bk_dbs w \<and> as_audit (bk_admin w') = as_audit (bk_admin w)"
proof (cases r)
  case (Inl e)
  with provision_run [OF assms(1)] assms(4) show ?thesis by (auto simp: Let_def)
next
  case (Inr owner)
  let ?h = "hash (as_salt_count (bk_admin w))"
  let ?a = "(bk_admin w)\<lparr>as_salt_count := as_salt_count (bk_admin w) + 1\<rparr>"
  from provision_run [OF assms(1)] Inr assms(4) obtain config where
    config: "create_business_config b name = Inr config" and free: "\<not> path_exists (business_dir sv b) (bk_disk w)"
    and noone: "fst (get_user_by_email email (bk_admin w)) = Inr None"
    and disk: "bk_disk w' = provisioned_disk sv b config (bk_disk w)"
    and dbs: "bk_dbs w' = bk_dbs w" and owner: "owner = signed_up b email ?h"
    and admin: "bk_admin w' = snd (upsert_user (signed_up b email ?h) ?a)"
    by (auto simp: Let_def)
  have match: "business_id_match b" and fields: "bc_business_id config = b \<and> bc_display_name config = name \<and> bc_enabled config"
    using config by (auto simp: create_business_config_def split: if_splits)
  have "fst (load_business_config (sv_io sv) (business_yaml sv b) (bk_disk w')) = Inr config"
    unfolding disk by (rule provisioned_loads [OF assms(2,3) config])
  with fields have loads: "\<exists>config. fst (load_business_config (sv_io sv) (business_yaml sv b) (bk_disk w')) = Inr config
      \<and> bc_business_id config = b \<and> bc_display_name config = name \<and> bc_enabled config" by blast
  have users: "fst (get_user_by_email e (bk_admin w')) =
      (if e = email then Inr (Some owner) else fst (get_user_by_email e (bk_admin w)))" for e
    unfolding admin get_user_upsert owner by (simp add: signed_up_def get_user_by_email_def split: option.splits)
  have audit: "as_audit (bk_admin w') = as_audit (bk_admin w)"
    unfolding admin by (simp add: upsert_user_def Let_def)
  show ?thesis
    unfolding Inr sum.case
    using business_id_safe [OF match] free noone owner loads users dbs audit by (auto simp: disk provisioned_files)
qed

text \<open>
  Bcrypt runs too late. When the id and the email are free but bcrypt refuses the password (it
  raises for one longer than 72 bytes), the signup raises that error and leaves the directory and
  a loadable configuration behind, with no user for the email; from then on every signup for the
  id, with whatever name, email and password, is told that the Business already exists, and
  changes nothing.
\<close>

lemma refused_password_takes_the_id:
  assumes "provision_business sv b name email password w = (r, w')"
    and "create_business_config b name = Inr config" and "\<not> path_exists (business_dir sv b) (bk_disk w)"
    and "fst (get_user_by_email email (bk_admin w)) = Inr None"
    and "ev_pw_hash sv (as_salt_count (bk_admin w)) password = Inl e"
    and "yaml_round_trip (sv_io sv)" and "accepts_new_config (sv_io sv) b name"
  shows "r = Inl e
    \<and> fst (load_business_config (sv_io sv) (business_yaml sv b) (bk_disk w')) = Inr config
    \<and> fst (get_user_by_email email (bk_admin w')) = Inr None
    \<and> provision_business sv b name' email' password' w' = (Inl (BusinessAlreadyExistsError b), w')"
proof -
  have match: "business_id_match b"
    using assms(2) by (auto simp: create_business_config_def split: if_splits)
  with provision_run [OF assms(1)] assms(2-5) have
    r: "r = Inl e" and disk: "bk_disk w' = provisioned_disk sv b config (bk_disk w)"
    and admin: "bk_admin w' = (bk_admin w)\<lparr>as_salt_count := as_salt_count (bk_admin w) + 1\<rparr>"
    by (auto simp: Let_def)
  have "path_exists (business_dir sv b) (bk_disk w')"
    by (simp add: path_exists_def disk provisioned_files)
  moreover obtain config' where "create_business_config b name' = Inr config'"
    using match by (simp add: create_business_config_def)
  ultimately have again: "provision_business sv b name' email' password' w' = (Inl (BusinessAlreadyExistsError b), w')"
    by (simp add: provision_business_def bindC_def Let_def)
  have "fst (get_user_by_email email (bk_admin w')) = Inr None"
    using assms(4) unfolding admin by (simp add: get_user_by_email_def split: option.splits)
  with r again provisioned_loads [OF assms(6,7,2)] show ?thesis by (simp add: disk)
qed

subsection \<open>Witnesses\<close>

definition demo_signup_config :: business_config where
  "demo_signup_config = (case create_business_config ''acme'' ''Acme'' of Inr c \<Rightarrow> c | Inl _ \<Rightarrow> demo_business)"

definition demo_signup_io :: config_io where
  "demo_signup_io =
     \<lparr>io_load = (\<lambda>t. if t = ''K'' then Some (JObj (dump_config demo_signup_config)) else None),
      io_dump = (\<lambda>raw. ''K''),
      io_validate = (\<lambda>raw. if raw = dump_config demo_signup_config then Some demo_signup_config else None)\<rparr>"

text \<open>bcrypt as it is documented: a password of more than 72 bytes is refused.\<close>

definition demo_server :: server_env where
  "demo_server = auth_env.extend
     (demo_env\<lparr>ev_pw_hash := (\<lambda>n p. if 72 < length p then Inl ValueError else Inr (''h:'' @ p))\<rparr>)
     \<lparr>sv_io = demo_signup_io, sv_eng = demo_eng, sv_float_repr = (\<lambda>_. []), sv_json_text = (\<lambda>_. []),
      sv_businesses_dir = ''businesses''\<rparr>"

definition demo_backend :: backend where
  "demo_backend =
     \<lparr>bk_admin = demo_admin, bk_disk = \<lparr>dk_files = [], dk_dirs = [''businesses'']\<rparr>,
      bk_dbs = (\<lambda>_. repo_open [] (\<lambda>n. nat_digits n) (\<lambda>_. 0)), bk_repos = []\<rparr>"

lemma provision_succeeds:
  assumes "provision_business sv b name email password w = (r, w')"
    and "create_business_config b name = Inr config" and "\<not> path_exists (business_dir sv b) (bk_disk w)"
    and "fst (get_user_by_email email (bk_admin w)) = Inr None"
    and "ev_pw_hash sv (as_salt_count (bk_admin w)) password = Inr h"
  shows "r = Inr (signed_up b email h)"
proof -
  have "business_id_match b"
    using assms(2) by (auto simp: create_business_config_def split: if_splits)
  with provision_run [OF assms(1)] assms(2-5) show ?thesis by (auto simp: Let_def)
qed

lemma demo_signup_created: "create_business_config ''acme'' ''Acme'' = Inr demo_signup_config"
  by code_simp

lemma demo_server_libraries:
  "yaml_round_trip (sv_io demo_server)" "accepts_new_config (sv_io demo_server) ''acme'' ''Acme''"
  "ev_pw_hash demo_server n ''pw'' = Inr ''h:pw''"
  "72 < length p \<Longrightarrow> ev_pw_hash demo_server n p = Inl ValueError"
  by (simp_all add: demo_server_def auth_env.extend_def demo_signup_io_def yaml_round_trip_def
      accepts_new_config_def demo_signup_created)

lemma demo_place_free:
  "\<not> path_exists (business_dir demo_server ''acme'') (bk_disk demo_backend)"
  "fst (get_user_by_email ''kofi@acme.gh'' (bk_admin demo_backend)) = Inr None"
  by (simp_all add: path_exists_def is_file_def business_dir_def demo_backend_def demo_server_def auth_env.extend_def
      get_user_by_email_def demo_admin_def)

lemma signup_creates_all_or_nothing_witness:
  "\<exists>owner config w'. provision_business demo_server ''acme'' ''Acme'' ''kofi@acme.gh'' ''pw'' demo_backend = (Inr owner, w')
     \<and> fst (load_business_config demo_signup_io (business_yaml demo_server ''acme'') (bk_disk w')) = Inr config
     \<and> bc_business_id config = ''acme''"
proof -
  obtain r w' where run: "provision_business demo_server ''acme'' ''Acme'' ''kofi@acme.gh'' ''pw'' demo_backend = (r, w')"
    by fastforce
  have r: "r = Inr (signed_up ''acme'' ''kofi@acme.gh'' ''h:pw'')"
    by (rule provision_succeeds [OF run demo_signup_created demo_place_free demo_server_libraries(3)])
  have io: "sv_io demo_server = demo_signup_io" by (simp add: demo_server_def auth_env.extend_def)
  have "\<exists>config. fst (load_business_config (sv_io demo_server) (business_yaml demo_server ''acme'') (bk_disk w')) = Inr config
      \<and> bc_business_id config = ''acme'' \<and> bc_display_name config = ''Acme'' \<and> bc_enabled config"
    using signup_creates_all_or_nothing [OF run demo_server_libraries(1-3)] unfolding r sum.case by (elim conjE)
  with run show ?thesis unfolding r io by blast
qed

lemma refused_password_takes_the_id_witness:
  "\<exists>w'. provision_business demo_server ''acme'' ''Acme'' ''kofi@acme.gh'' (replicate 73 CHR ''x'') demo_backend
          = (Inl ValueError, w')
     \<and> provision_business demo_server ''acme'' ''Acme'' ''kofi@acme.gh'' ''pw'' w'
          = (Inl (BusinessAlreadyExistsError ''acme''), w')"
proof -
  obtain r w' where run: "provision_business demo_server ''acme'' ''Acme'' ''kofi@acme.gh'' (replicate 73 CHR ''x'') demo_backend = (r, w')"
    by fastforce
  have "ev_pw_hash demo_server (as_salt_count (bk_admin demo_backend)) (replicate 73 CHR ''x'') = Inl ValueError"
    by (rule demo_server_libraries(4)) simp
  from refused_password_takes_the_id [OF run demo_signup_created demo_place_free this demo_server_libraries(1,2)] run
  show ?thesis by blast
qed

end
