(* ===== verification/Admin_Routes.thy ===== *)
theory Admin_Routes
  imports Provisioning
begin

text \<open>
  The HTTP routes of the admin backend (\<open>interfaces/admin/router.py\<close>). A route is a command on
  the backend; FastAPI's routing, body parsing and response encoding are left out. An
  \<open>HTTPException\<close> is a value of its status code, and any other exception that leaves a route
  is what FastAPI answers with status 500.
\<close>

definition owner_only :: "admin_role list" where
  "owner_only = [Owner]"

definition owner_and_platform_operator :: "admin_role list" where
  "owner_and_platform_operator = [Owner, PlatformOperator]"

record login_response =
  lr_access_token :: string
  lr_token_type :: string

definition bearer_token :: "string option \<Rightarrow> string result" where
  "bearer_token authorization =
     (case authorization of
        None \<Rightarrow> Inl (HTTPException 401)
      | Some a \<Rightarrow> if \<not> py_startswith a ''Bearer '' then Inl (HTTPException 401)
                  else Inr (drop (length ''Bearer '') a))"

definition config_path :: "server_env \<Rightarrow> string \<Rightarrow> (backend, string) cmd" where
  "config_path sv business_id =
     (let path = business_yaml sv business_id in
      bindC (gets (\<lambda>w. is_file path (bk_disk w))) (\<lambda>found.
      if \<not> found then raise (HTTPException 404) else ret path))"

definition http_auth_error :: "exn \<Rightarrow> exn" where
  "http_auth_error e =
     (if e = AdminAuthError then HTTPException 401
      else if e = AdminForbiddenError then HTTPException 403 else e)"

definition admin_authorize ::
  "server_env \<Rightarrow> string option \<Rightarrow> string option \<Rightarrow> admin_role list \<Rightarrow> (backend, admin_user) cmd" where
  "admin_authorize sv authorization business_id allowed_roles =
     bindC (liftR (bearer_token authorization)) (\<lambda>token.
     rethrow http_auth_error (on_admin (authorize (env_auth sv) token business_id allowed_roles)))"

definition login_response_of :: "string \<Rightarrow> login_response" where
  "login_response_of token = \<lparr>lr_access_token = token, lr_token_type = ''bearer''\<rparr>"

definition login :: "server_env \<Rightarrow> string \<Rightarrow> string \<Rightarrow> (backend, login_response) cmd" where
  "login sv email password =
     bindC (on_admin (get_user_by_email email)) (\<lambda>found.
     bindC (case found of
              None \<Rightarrow> raise (HTTPException 401)
            | Some user \<Rightarrow>
                bindC (liftR (verify_password (env_auth sv) password (au_password_hash user))) (\<lambda>ok.
                if \<not> ok then raise (HTTPException 401) else ret user)) (\<lambda>user.
     bindC (on_admin (create_access_token (env_auth sv) user)) (\<lambda>token.
     ret (login_response_of token))))"

definition signup_error :: "exn \<Rightarrow> exn" where
  "signup_error e =
     (case e of InvalidBusinessIdError _ \<Rightarrow> HTTPException 400
      | BusinessAlreadyExistsError _ \<Rightarrow> HTTPException 409
      | OwnerEmailAlreadyExistsError _ \<Rightarrow> HTTPException 409
      | _ \<Rightarrow> e)"

definition signup :: "server_env \<Rightarrow> string \<Rightarrow> string \<Rightarrow> string \<Rightarrow> string \<Rightarrow> (backend, login_response) cmd" where
  "signup sv business_id display_name owner_email owner_password =
     bindC (rethrow signup_error (provision_business sv business_id display_name owner_email owner_password)) (\<lambda>owner.
     bindC (on_admin (record_audit owner (Some business_id) ''business.signup'' None (Some (au_email owner)))) (\<lambda>_.
     bindC (on_admin (create_access_token (env_auth sv) owner)) (\<lambda>token.
     ret (login_response_of token))))"

definition get_config :: "server_env \<Rightarrow> string \<Rightarrow> string option \<Rightarrow> (backend, json dict) cmd" where
  "get_config sv business_id authorization =
     bindC (admin_authorize sv authorization (Some business_id) owner_only) (\<lambda>_.
     bindC (config_path sv business_id) (\<lambda>path.
     bindC (rethrow (\<lambda>e. if e = BusinessConfigError then HTTPException 404 else e)
              (on_disk (load_business_config (sv_io sv) path))) (\<lambda>config.
     ret (dump_config config))))"

definition py_str_dict :: "server_env \<Rightarrow> json dict \<Rightarrow> string" where
  "py_str_dict sv d = py_repr (sv_float_repr sv) (JObj d)"

definition patch_config ::
  "server_env \<Rightarrow> string \<Rightarrow> json dict \<Rightarrow> string option \<Rightarrow> (backend, json dict) cmd" where
  "patch_config sv business_id patch authorization =
     bindC (admin_authorize sv authorization (Some business_id) owner_only) (\<lambda>user.
     bindC (config_path sv business_id) (\<lambda>path.
     bindC (on_disk (load_business_config (sv_io sv) path)) (\<lambda>config.
     let before = dump_config config in
     bindC (rethrow (\<lambda>e. if e = ConfigPatchError then HTTPException 400 else e)
              (on_disk (update_business_config (sv_io sv) path patch))) (\<lambda>updated.
     let after = dump_config updated in
     bindC (on_admin (record_audit user (Some business_id) ''config.update''
              (Some (py_str_dict sv before)) (Some (py_str_dict sv after)))) (\<lambda>_.
     ret after)))))"

definition dump_audit_entry :: "audit_entry \<Rightarrow> json dict" where
  "dump_audit_entry e =
     [(''id'', (case al_id e of None \<Rightarrow> JNull | Some n \<Rightarrow> JInt n)), (''actor_email'', JStr (al_actor_email e)),
      (''business_id'', opt_str (al_business_id e)), (''action'', JStr (al_action e)),
      (''before'', opt_str (al_before e)), (''after'', opt_str (al_after e)),
      (''timestamp'', JFloat (al_timestamp e))]"

definition get_audit_log :: "server_env \<Rightarrow> string \<Rightarrow> string option \<Rightarrow> (backend, json dict list) cmd" where
  "get_audit_log sv business_id authorization =
     bindC (admin_authorize sv authorization (Some business_id) owner_and_platform_operator) (\<lambda>_.
     bindC (on_admin (list_audit_log (Some business_id))) (\<lambda>entries.
     ret (map dump_audit_entry entries)))"

end
