(* ===== verification/Llm_Types.thy ===== *)
theory Llm_Types
  imports Py_Values
begin

text \<open>
  The vocabulary shared by the LLM axis and the Tool Rail (\<open>llm/tool_types.py\<close>,
  \<open>llm/base.py\<close>) and the normalised message dictionaries that the Agent Core builds.
\<close>

record tool_spec =
  ts_name :: string
  ts_description :: string
  ts_input_schema :: "json dict"

record tool_call =
  tc_id :: string
  tc_name :: string
  tc_arguments :: "json dict"
  tc_provider_data :: "json dict option"

record llm_response =
  lr_text :: string
  lr_tool_calls :: "tool_call list"

text \<open>\<open>ToolCall.model_dump()\<close>: the fields in declaration order.\<close>

definition dump_tool_call :: "tool_call \<Rightarrow> json" where
  "dump_tool_call tc = JObj
     [(''id'', JStr (tc_id tc)), (''name'', JStr (tc_name tc)),
      (''arguments'', JObj (tc_arguments tc)),
      (''provider_data'', (case tc_provider_data tc of None \<Rightarrow> JNull | Some d \<Rightarrow> JObj d))]"

definition turn :: "string \<Rightarrow> string \<Rightarrow> json dict" where
  "turn role content = [(''role'', JStr role), (''content'', JStr content)]"

definition tool_call_turn :: "tool_call \<Rightarrow> json dict" where
  "tool_call_turn tc =
     [(''role'', JStr ''assistant''), (''content'', JStr ''''),
      (''tool_calls'', JArr [dump_tool_call tc])]"

definition tool_result_turn :: "string \<Rightarrow> string \<Rightarrow> json dict" where
  "tool_result_turn call_id content =
     [(''role'', JStr ''tool''), (''tool_call_id'', JStr call_id), (''content'', JStr content)]"

definition role_of :: "json dict \<Rightarrow> json option" where
  "role_of m = dget m ''role''"

lemma role_of_turns [simp]:
  "role_of (turn r c) = Some (JStr r)"
  "role_of (tool_call_turn tc) = Some (JStr ''assistant'')"
  "role_of (tool_result_turn i c) = Some (JStr ''tool'')"
  by (simp_all add: role_of_def turn_def tool_call_turn_def tool_result_turn_def)

text \<open>What \<open>LLMProvider.generate\<close> is called with.\<close>

record gen_request =
  gr_system :: string
  gr_messages :: "json dict list"
  gr_max_tokens :: int
  gr_tools :: "tool_spec list option"

end
