(* ===== verification/Tool_Rail.thy ===== *)
theory Tool_Rail
  imports Llm_Types Config_Schema
begin

text \<open>
  The Tool Rail (\<open>rails/tool_rail.py\<close>): the decision for one Tool call, and the Data Rail's
  checkpoints (\<open>rails/data_rail.py\<close>), which pass their argument through.
\<close>

datatype tool_rail_decision = Allow | RequireConfirmation | Deny

fun decide :: "tool_call \<Rightarrow> tool_config list \<Rightarrow> tool_rail_decision" where
  "decide tc [] = Deny"
| "decide tc (t # ts) =
     (if tl_name t = tc_name tc then
        (if \<not> tl_enabled t then Deny
         else if tl_requires_confirmation t then RequireConfirmation
         else Allow)
      else decide tc ts)"

record context_doc =
  dc_name :: string
  dc_content :: string

definition check_data_access :: "context_doc list \<Rightarrow> string \<Rightarrow> context_doc list" where
  "check_data_access docs business_id = docs"

definition check_tool_data_access :: "json \<Rightarrow> string \<Rightarrow> json" where
  "check_tool_data_access tool_result business_id = tool_result"

text \<open>The Tools an Agent Core offers the LLM (\<open>AgentCore.tool_specs\<close>).\<close>

definition tool_specs_of :: "tool_config list \<Rightarrow> tool_spec list" where
  "tool_specs_of tools =
     map (\<lambda>t. \<lparr>ts_name = tl_name t, ts_description = tl_description t,
               ts_input_schema = tl_input_schema t\<rparr>) (filter tl_enabled tools)"

subsection \<open>Lemmas\<close>

fun_cases decide_AllowE: "decide tc ts = Allow"

lemma decide_find:
  "decide tc ts =
     (case List.find (\<lambda>t. tl_name t = tc_name tc) ts of
        None \<Rightarrow> Deny
      | Some t \<Rightarrow> if \<not> tl_enabled t then Deny
                  else if tl_requires_confirmation t then RequireConfirmation else Allow)"
  by (induction ts) auto

lemma decide_not_Deny_iff:
  "decide tc ts \<noteq> Deny \<longleftrightarrow>
     (\<exists>t. List.find (\<lambda>t. tl_name t = tc_name tc) ts = Some t \<and> tl_enabled t)"
  by (auto simp: decide_find split: option.splits)

lemma decide_Allow_iff:
  "decide tc ts = Allow \<longleftrightarrow>
     (\<exists>t. List.find (\<lambda>t. tl_name t = tc_name tc) ts = Some t \<and> tl_enabled t
          \<and> \<not> tl_requires_confirmation t)"
  by (auto simp: decide_find split: option.splits)

lemma decide_RequireConfirmation_iff:
  "decide tc ts = RequireConfirmation \<longleftrightarrow>
     (\<exists>t. List.find (\<lambda>t. tl_name t = tc_name tc) ts = Some t \<and> tl_enabled t
          \<and> tl_requires_confirmation t)"
  by (auto simp: decide_find split: option.splits)

lemma decide_name_only: "tc_name a = tc_name b \<Longrightarrow> decide a ts = decide b ts"
  by (simp add: decide_find)

lemma tool_specs_names: "map ts_name (tool_specs_of tools) = map tl_name (filter tl_enabled tools)"
  by (simp add: tool_specs_of_def comp_def)

text \<open>Decisions are ordered by what they let through, so that configurations can be compared.\<close>

fun leave :: "tool_rail_decision \<Rightarrow> nat" where
  "leave Deny = 0"
| "leave RequireConfirmation = 1"
| "leave Allow = 2"

instantiation tool_rail_decision :: linorder
begin

definition less_eq_tool_rail_decision :: "tool_rail_decision \<Rightarrow> tool_rail_decision \<Rightarrow> bool" where
  "less_eq_tool_rail_decision d d' \<longleftrightarrow> leave d \<le> leave d'"

definition less_tool_rail_decision :: "tool_rail_decision \<Rightarrow> tool_rail_decision \<Rightarrow> bool" where
  "less_tool_rail_decision d d' \<longleftrightarrow> leave d < leave d'"

instance
proof
  fix d d' :: tool_rail_decision
  assume "d \<le> d'" and "d' \<le> d"
  then show "d = d'" by (cases d; cases d'; simp add: less_eq_tool_rail_decision_def)
qed (auto simp: less_eq_tool_rail_decision_def less_tool_rail_decision_def)

end

lemma Deny_least [simp]: "Deny \<le> d"
  by (simp add: less_eq_tool_rail_decision_def)

lemma Allow_le_iff [simp]: "Allow \<le> d \<longleftrightarrow> d = Allow"
  by (cases d) (simp_all add: less_eq_tool_rail_decision_def)

text \<open>
  Tightening entries (disabling a Tool, or asking for a confirmation), and appending Tools of other
  names, never lets a call through that was held back; so what the tightened configuration allows was
  allowed before.
\<close>

definition tightened :: "tool_config \<Rightarrow> tool_config \<Rightarrow> bool" where
  "tightened t' t \<longleftrightarrow> tl_name t' = tl_name t \<and> (tl_enabled t' \<longrightarrow> tl_enabled t)
     \<and> (tl_requires_confirmation t \<longrightarrow> tl_requires_confirmation t')"

lemma decide_tightened: "list_all2 tightened ts' ts \<Longrightarrow> decide tc ts' \<le> decide tc ts"
  by (induction rule: list_all2_induct) (auto simp: tightened_def less_eq_tool_rail_decision_def)

lemma decide_unknown: "tc_name tc \<notin> set (map tl_name ts) \<Longrightarrow> decide tc ts = Deny"
  by (induction ts) auto

lemma decide_other_names: "tc_name tc \<notin> set (map tl_name us) \<Longrightarrow> decide tc (ts @ us) = decide tc ts"
  by (induction ts) (simp_all add: decide_unknown)

lemma decide_appended: "tc_name tc \<notin> set (map tl_name ts) \<Longrightarrow> decide tc (ts @ us) = decide tc us"
  by (induction ts) auto

lemma Allow_tightened:
  assumes "list_all2 tightened ts' ts" and "tc_name tc \<notin> set (map tl_name us)" and "decide tc (ts' @ us) = Allow"
  shows "decide tc ts = Allow"
  using decide_tightened [OF assms(1), of tc] assms(2,3) by (simp add: decide_other_names)

lemma find_by_distinct_key:
  "distinct (map f xs) \<Longrightarrow> x \<in> set xs \<Longrightarrow> List.find (\<lambda>y. f y = f x) xs = Some x"
  by (induction xs) (auto simp: image_iff)

end
