(* ===== verification/Crud_Tools.thy ===== *)
theory Crud_Tools
  imports Tool_Rail Entities_Props
begin

text \<open>
  The four Tools a Custom Table owns: their names and Tool configurations
  (\<open>entities/crud_tools.py\<close>), and their dispatch to the entity repository
  (\<open>tools/entity_crud_provider.py\<close>).
\<close>

subsection \<open>Names and configurations\<close>

fun json_type :: "column_type \<Rightarrow> string" where
  "json_type ColText = ''string''"
| "json_type ColNumber = ''number''"
| "json_type ColBoolean = ''boolean''"

definition crud_verbs :: "string list" where
  "crud_verbs = [''list'', ''create'', ''update'', ''delete'']"

definition crud_tool_name :: "string \<Rightarrow> string \<Rightarrow> string" where
  "crud_tool_name verb table_name = verb @ ''_'' @ table_name"

definition crud_tool_names :: "string \<Rightarrow> string list" where
  "crud_tool_names table_name = map (\<lambda>verb. crud_tool_name verb table_name) crud_verbs"

definition column_properties :: "table_def \<Rightarrow> json dict" where
  "column_properties td =
     fold (\<lambda>c. AList.update (cd_name c)
        (JObj [(''type'', JStr (json_type (cd_type c))),
               (''description'', JStr (''The row's '' @ repr_str (cd_name c) @ '' value.''))]))
       (td_columns td) []"

definition id_property :: "json dict" where
  "id_property = [(''id'', JObj [(''type'', JStr ''string''), (''description'', JStr ''The row's id.'')])]"

definition object_schema :: "json dict \<Rightarrow> string list option \<Rightarrow> json dict" where
  "object_schema properties required =
     [(''type'', JStr ''object''), (''properties'', JObj properties)]
     @ (case required of None \<Rightarrow> [] | Some names \<Rightarrow> [(''required'', JArr (map JStr names))])"

definition crud_tool :: "string \<Rightarrow> string \<Rightarrow> json dict \<Rightarrow> bool \<Rightarrow> tool_config" where
  "crud_tool name description schema confirm =
     (default_tool_config name description)\<lparr>tl_input_schema := schema, tl_requires_confirmation := confirm\<rparr>"

definition derive_crud_tool_configs :: "table_def \<Rightarrow> tool_config list" where
  "derive_crud_tool_configs td =
     (let properties = column_properties td;
          required = map cd_name (filter cd_required (td_columns td));
          shown = repr_str (td_display_name td);
          name = (\<lambda>verb. crud_tool_name verb (td_table_name td))
      in [crud_tool (name ''list'') (''List every row in the '' @ shown @ '' table.'')
            (object_schema [] None) False,
          crud_tool (name ''create'') (''Add a new row to the '' @ shown @ '' table.'')
            (object_schema properties (Some required)) True,
          crud_tool (name ''update'') (''Update an existing row in the '' @ shown @ '' table by id. ''
             @ ''Only the fields provided are changed; the rest keep their current value.'')
            (object_schema (dmerge id_property properties) (Some [''id''])) True,
          crud_tool (name ''delete'') (''Delete a row from the '' @ shown @ '' table by id.'')
            (object_schema id_property (Some [''id''])) True])"

subsection \<open>Dispatch\<close>

definition parse_tool_name :: "string \<Rightarrow> (string \<times> string) option" where
  "parse_tool_name name =
     (case split_once CHR ''_'' name of
        None \<Rightarrow> None
      | Some (verb, table_name) \<Rightarrow>
          if verb \<notin> set crud_verbs \<or> table_name = [] then None else Some (verb, table_name))"

definition find_listed_table :: "string \<Rightarrow> (entity_db, table_def option) cmd" where
  "find_listed_table name = bindC list_tables (\<lambda>ts. ret (List.find (\<lambda>t. td_table_name t = name) ts))"

definition success_with :: "json dict \<Rightarrow> json" where
  "success_with d = JObj (dmerge [(''success'', JBool True)] d)"

definition failure_with :: "string \<Rightarrow> json" where
  "failure_with message = JObj [(''success'', JBool False), (''error'', JStr message)]"

definition no_such_row :: "(real \<Rightarrow> string) \<Rightarrow> json \<Rightarrow> json" where
  "no_such_row fr row_id = failure_with (''No such row: '' @ py_repr fr row_id)"

definition crud_update ::
  "sql_engine \<Rightarrow> (real \<Rightarrow> string) \<Rightarrow> string \<Rightarrow> json dict \<Rightarrow> (entity_db, json) cmd" where
  "crud_update eng fr table_name arguments =
     bindC (liftR (dict_index arguments ''id'')) (\<lambda>row_id.
     bindC (get_row eng table_name row_id) (\<lambda>existing.
     case existing of
       None \<Rightarrow> ret (no_such_row fr row_id)
     | Some row \<Rightarrow>
         bindC (upsert_row eng table_name
                  (AList.update ''id'' row_id (dmerge row (dwithout ''id'' arguments)))) (\<lambda>updated.
         ret (success_with updated))))"

definition crud_delete ::
  "sql_engine \<Rightarrow> (real \<Rightarrow> string) \<Rightarrow> string \<Rightarrow> json dict \<Rightarrow> (entity_db, json) cmd" where
  "crud_delete eng fr table_name arguments =
     bindC (liftR (dict_index arguments ''id'')) (\<lambda>row_id.
     bindC (delete_row eng table_name row_id) (\<lambda>deleted.
     ret (if \<not> deleted then no_such_row fr row_id else JObj [(''success'', JBool True)])))"

definition entity_crud_call ::
  "sql_engine \<Rightarrow> (real \<Rightarrow> string) \<Rightarrow> string \<Rightarrow> json dict \<Rightarrow> (entity_db, json) cmd" where
  "entity_crud_call eng fr name arguments =
     (case parse_tool_name name of
        None \<Rightarrow> raise (UnknownToolError name)
      | Some (verb, table_name) \<Rightarrow>
          bindC (find_listed_table table_name) (\<lambda>table.
          if (case table of None \<Rightarrow> True | Some t \<Rightarrow> td_tool_linked t \<noteq> None)
          then raise (UnknownToolError name)
          else if verb = ''list''
          then bindC (list_rows table_name) (\<lambda>rows. ret (JObj [(''rows'', JArr (map JObj rows))]))
          else if verb = ''create''
          then bindC (upsert_row eng table_name (dwithout ''id'' arguments)) (\<lambda>created.
               ret (success_with created))
          else if verb = ''update'' then crud_update eng fr table_name arguments
          else crud_delete eng fr table_name arguments))"

subsection \<open>The naming convention\<close>

lemma verbs_no_underscore: "verb \<in> set crud_verbs \<Longrightarrow> CHR ''_'' \<notin> set verb"
  by (auto simp: crud_verbs_def)

lemma parse_tool_name_Some_iff:
  "parse_tool_name name = Some (verb, table) \<longleftrightarrow>
     verb \<in> set crud_verbs \<and> table \<noteq> [] \<and> name = crud_tool_name verb table"
proof
  assume "parse_tool_name name = Some (verb, table)"
  then have "split_once CHR ''_'' name = Some (verb, table)" "verb \<in> set crud_verbs" "table \<noteq> []"
    by (auto simp: parse_tool_name_def split: option.splits if_splits)
  then show "verb \<in> set crud_verbs \<and> table \<noteq> [] \<and> name = crud_tool_name verb table"
    by (simp add: split_once_Some_iff crud_tool_name_def)
next
  assume "verb \<in> set crud_verbs \<and> table \<noteq> [] \<and> name = crud_tool_name verb table"
  then show "parse_tool_name name = Some (verb, table)"
    using verbs_no_underscore [of verb] by (simp add: parse_tool_name_def crud_tool_name_def)
qed

text \<open>
  The two sides of the naming convention agree. For a table with a name, the generated Tools
  carry exactly the four names of \<open>crud_tool_names\<close>, in order; each is parsed back to its verb
  and that very table, whatever underscores the table's name has; and of the four, only the
  listing Tool passes the Tool Rail without a confirmation.
\<close>

theorem crud_names_round_trip:
  assumes "td_table_name td \<noteq> []"
  shows "map tl_name (derive_crud_tool_configs td) = crud_tool_names (td_table_name td)
    \<and> map parse_tool_name (crud_tool_names (td_table_name td)) = map (\<lambda>v. Some (v, td_table_name td)) crud_verbs
    \<and> (\<forall>tc verb. verb \<in> set crud_verbs \<longrightarrow> tc_name tc = crud_tool_name verb (td_table_name td) \<longrightarrow>
         decide tc (derive_crud_tool_configs td) = (if verb = ''list'' then Allow else RequireConfirmation))"
proof -
  have "map tl_name (derive_crud_tool_configs td) = crud_tool_names (td_table_name td)"
    by (simp add: derive_crud_tool_configs_def crud_tool_names_def crud_verbs_def crud_tool_def
        default_tool_config_def Let_def)
  moreover have "parse_tool_name (crud_tool_name v (td_table_name td)) = Some (v, td_table_name td)"
    if "v \<in> set crud_verbs" for v
    using that assms by (simp add: parse_tool_name_Some_iff)
  then have "map parse_tool_name (crud_tool_names (td_table_name td)) = map (\<lambda>v. Some (v, td_table_name td)) crud_verbs"
    by (simp add: crud_tool_names_def)
  moreover have "decide tc (derive_crud_tool_configs td) = (if verb = ''list'' then Allow else RequireConfirmation)"
    if "verb \<in> set crud_verbs" and "tc_name tc = crud_tool_name verb (td_table_name td)" for tc verb
    using that
    by (auto simp: derive_crud_tool_configs_def crud_verbs_def crud_tool_def default_tool_config_def Let_def
        crud_tool_name_def)
  ultimately show ?thesis by blast
qed

theorem crud_names_round_trip_witness:
  "parse_tool_name ''update_spa_bookings'' = Some (''update'', ''spa_bookings'')"
proof -
  have "map parse_tool_name (crud_tool_names ''spa_bookings'') = map (\<lambda>v. Some (v, ''spa_bookings'')) crud_verbs"
    using crud_names_round_trip [of "demo_table\<lparr>td_table_name := ''spa_bookings''\<rparr>"] by simp
  then show ?thesis by (simp add: crud_tool_names_def crud_verbs_def crud_tool_name_def)
qed

subsection \<open>The provider over the repository\<close>

lemma find_listed_table_run:
  assumes "repo_inv eng tds db"
  shows "find_listed_table name db = (Inr (find_def name tds), db)"
proof -
  have keys: "distinct (map def_key tds)" and cat: "catalogue db = Inr tds"
    using assms by (simp_all add: repo_inv_def catalogue_wf_def)
  have "List.find (\<lambda>t. td_table_name t = name) (sort_key td_table_name tds) = find_def name tds"
  proof (cases "find_def name tds")
    case None
    then have "List.find (\<lambda>t. td_table_name t = name) (sort_key td_table_name tds) = None"
      by (simp add: find_def_def find_None_iff)
    with None show ?thesis by simp
  next
    case (Some td)
    have "inj_on td_table_name (set tds)"
      using keys by (auto simp: inj_on_def distinct_map def_key_def)
    then have "distinct (map td_table_name (sort_key td_table_name tds))"
      using keys by (simp add: distinct_map)
    from find_by_distinct_key [OF this, of td] find_def_SomeD [OF Some] Some show ?thesis by simp
  qed
  with list_tables_run [OF cat] show ?thesis
    by (simp add: find_listed_table_def bindC_def)
qed

text \<open>A name the provider knows: one of the four verbs on a listed table that no Tool is linked to.\<close>

definition crud_target :: "table_def list \<Rightarrow> string \<Rightarrow> (string \<times> table_def) option" where
  "crud_target tds name =
     (case parse_tool_name name of
        None \<Rightarrow> None
      | Some (verb, table_name) \<Rightarrow> (case find_def table_name tds of
          None \<Rightarrow> None
        | Some td \<Rightarrow> if td_tool_linked td \<noteq> None then None else Some (verb, td)))"

lemma crud_call_unknown:
  assumes "repo_inv eng tds db" and "crud_target tds name = None"
  shows "entity_crud_call eng fr name args db = (Inl (UnknownToolError name), db)"
  using assms(2) find_listed_table_run [OF assms(1)]
  by (auto simp: crud_target_def entity_crud_call_def bindC_def split: option.splits if_splits)

lemma crud_call_known:
  assumes "repo_inv eng tds db" and "crud_target tds name = Some (verb, td)"
  shows "entity_crud_call eng fr name args db =
    (if verb = ''list'' then bindC (list_rows (td_table_name td)) (\<lambda>rows. ret (JObj [(''rows'', JArr (map JObj rows))]))
     else if verb = ''create'' then bindC (upsert_row eng (td_table_name td) (dwithout ''id'' args)) (\<lambda>c. ret (success_with c))
     else if verb = ''update'' then crud_update eng fr (td_table_name td) args
     else crud_delete eng fr (td_table_name td) args) db"
    and "find_def (td_table_name td) tds = Some td"
proof -
  obtain t where p: "parse_tool_name name = Some (verb, t)" "find_def t tds = Some td" "td_tool_linked td = None"
    using assms(2) by (auto simp: crud_target_def split: option.splits if_splits)
  moreover have "t = td_table_name td" using find_def_SomeD [OF p(2)] by simp
  ultimately show "entity_crud_call eng fr name args db =
    (if verb = ''list'' then bindC (list_rows (td_table_name td)) (\<lambda>rows. ret (JObj [(''rows'', JArr (map JObj rows))]))
     else if verb = ''create'' then bindC (upsert_row eng (td_table_name td) (dwithout ''id'' args)) (\<lambda>c. ret (success_with c))
     else if verb = ''update'' then crud_update eng fr (td_table_name td) args
     else crud_delete eng fr (td_table_name td) args) db"
    and "find_def (td_table_name td) tds = Some td"
    using find_listed_table_run [OF assms(1)] by (simp_all add: entity_crud_call_def bindC_def)
qed

text \<open>A value read from a conforming cell and written back is the same value.\<close>

lemma read_back_cell:
  assumes "conforms eng (sql_type (cd_type c)) v" and "cell_of c v = j"
  shows "read_back eng c j = Inr j"
proof (cases "cd_type c")
  case ColText
  with assms show ?thesis
    by (cases v) (auto simp: cell_of_def read_back_def to_sql_value_def)
next
  case ColNumber
  with assms show ?thesis
    by (cases v) (auto simp: cell_of_def read_back_def to_sql_value_def split: if_splits)
next
  case ColBoolean
  with assms show ?thesis
    by (cases v) (auto simp: cell_of_def read_back_def to_sql_value_def int64_def)
qed

lemma get_row_conforms:
  assumes inv: "repo_inv eng tds db" and td: "find_def name tds = Some td"
    and get: "get_row eng name i db = (Inr (Some row), db')" and c: "c \<in> set (td_columns td)"
  shows "\<exists>j. dget row (cd_name c) = Some j \<and> read_back eng c j = Inr j"
proof -
  obtain t where t: "find_table (td_table_name td) db = Some t" "describes eng td t" "def_wf td"
    by (rule found_tableE [OF inv td]) (rule that)
  obtain k where "row_at tds db name k = Some row"
    using get get_row_run [OF inv td, of i] by (auto simp: bindR_Inr_iff split: if_splits)
  then obtain r where r: "r \<in> set (tb_rows t)" "row = stored_row td r"
    by (auto simp: row_at_def td t(1) dest: find_SomeD)
  obtain n where n: "n < length (td_columns td)" "c = td_columns td ! n"
    using c by (auto simp: in_set_conv_nth)
  have len: "length (snd r) = length (td_columns td)" by (rule row_lengths [OF t(2) r(1)])
  have "list_all2 (conforms eng) (map (\<lambda>c. sql_type (cd_type c)) (td_columns td)) (snd r)"
    using t(2) r(1) by (auto simp: describes_alt rows_ok_def list_all_iff)
  then have "conforms eng (sql_type (cd_type c)) (snd r ! n)"
    using n list_all2_nthD by fastforce
  moreover have "dget row (cd_name c) = Some (cell_of c (snd r ! n))"
    using stored_row_column [OF t(3) len n(1), of "fst r"] n(2) r(2) by simp
  ultimately show ?thesis using read_back_cell by blast
qed

lemma updated_column:
  assumes inv: "repo_inv eng tds db" and td: "find_def t tds = Some td" and "distinct (dkeys args)"
    and found: "get_row eng t i db = (Inr (Some row), db)" and c: "c \<in> set (td_columns td)"
    and cell: "dget stored (cd_name c) \<noteq> None"
      "read_back eng c (dget_default (AList.update ''id'' i (dmerge row (dwithout ''id'' args))) (cd_name c) JNull)
         = Inr (the (dget stored (cd_name c)))"
  shows "case dget args (cd_name c) of
      None \<Rightarrow> dget stored (cd_name c) = dget row (cd_name c)
    | Some j \<Rightarrow> read_back eng c j = Inr (the (dget stored (cd_name c)))"
proof -
  have "def_wf td" by (rule found_tableE [OF inv td])
  from def_names [OF this] c have "cd_name c \<noteq> ''id''"
    by (metis distinct.simps(2) imageI list.set_map row_columns_def)
  then have new: "dget (AList.update ''id'' i (dmerge row (dwithout ''id'' args))) (cd_name c) =
      (case dget args (cd_name c) of Some j \<Rightarrow> Some j | None \<Rightarrow> dget row (cd_name c))"
    using assms(3) by (simp add: dget_dmerge distinct_dwithout)
  obtain j where "dget row (cd_name c) = Some j" "read_back eng c j = Inr j"
    using get_row_conforms [OF inv td found c] by blast
  with cell new show ?thesis by (cases "dget args (cd_name c)") (auto simp: dget_default_def)
qed

text \<open>
  C15: what a successful call of the generated update Tool writes. On a consistent repository, a
  successful call whose id finds a row returns and stores a row in which each column named in the
  arguments has the given value as SQLite reads it back and every other column has the value of the
  row found; that is the only entry of any table that changed. If the id is one that Python counts
  as true, the entry is that of the row found, and reading the id gives the updated row. If it is
  \<open>0\<close>, \<open>0.0\<close>, \<open>False\<close> or the empty text, the entry is that of a generated id: the call reports
  success, but has added a copy of the row and left the row it was called for alone.
\<close>

theorem crud_update_changes_given_fields:
  assumes "repo_inv eng tds db" and "numbers_only eng" and "crud_target tds name = Some (''update'', td)"
    and "distinct (dkeys args)" and "dget args ''id'' = Some i"
    and "get_row eng (td_table_name td) i db = (Inr (Some row), db)"
    and "entity_crud_call eng fr name args db = (Inr result, db')"
  shows "\<exists>stored k. result = success_with stored
     \<and> (if truthy i
        then (\<exists>v. bind_value i = Inr v \<and> k = key_of eng td v)
             \<and> get_row eng (td_table_name td) i db' = (Inr (Some stored), db')
        else k = key_of eng td (SText (ed_uuid db (ed_uuid_count db)))
             \<and> dget stored ''id'' = Some (fetch_value k))
     \<and> list_all (\<lambda>c. case dget args (cd_name c) of
          None \<Rightarrow> dget stored (cd_name c) = dget row (cd_name c)
        | Some j \<Rightarrow> read_back eng c j = Inr (the (dget stored (cd_name c)))) (td_columns td)
     \<and> (\<forall>other k'. row_at tds db' other k' =
          (if other = td_table_name td \<and> k' = k then Some stored else row_at tds db other k'))"
proof -
  note known = crud_call_known [OF assms(1,3)]
  let ?t = "td_table_name td" and ?new = "AList.update ''id'' i (dmerge row (dwithout ''id'' args))"
  have td: "find_def ?t tds = Some td" by (rule known(2))
  have call: "bindC (upsert_row eng ?t ?new) (\<lambda>updated. ret (success_with updated)) db = (Inr result, db')"
    using assms(5-7) known(1) [of fr args]
    by (simp add: crud_update_def bindC_def dict_index_def)
  then obtain stored where stored: "upsert_row eng ?t ?new db = (Inr stored, db')" "result = success_with stored"
    by (auto elim!: bindC_InrE)
  have id: "dget_default ?new ''id'' JNull = i" by (simp add: dget_default_def)
  have up: "upserted eng tds ?t ?new db stored db'"
    using upsert_row_cases [OF assms(1,2) stored(1)] by auto
  have i: "i \<noteq> JNull" using get_row_run [OF assms(1) td, of i] assms(6) by auto
  show ?thesis
  proof (rule upsertedE [OF assms(1) up])
    fix td' k
    assume f: "find_def ?t tds = Some td'" "dget stored ''id'' = Some (fetch_value k)"
      and cells: "list_all (\<lambda>c. dget stored (cd_name c) \<noteq> None
           \<and> read_back eng c (dget_default ?new (cd_name c) JNull) = Inr (the (dget stored (cd_name c)))) (td_columns td')"
      and given: "key_for eng tds db ?t td' (dget_default ?new ''id'' JNull) k"
      and inv: "repo_inv eng tds db'" and k: "k \<noteq> SNull"
      and map: "\<And>other k'. row_at tds db' other k' = (if other = ?t \<and> k' = k then Some stored else row_at tds db other k')"
    have td': "td' = td" using f(1) td by simp
    have get: "get_row eng ?t i db' = (Inr (Some stored), db')"
      if "bind_value i = Inr v" "k = key_of eng td v" for v
    proof -
      have "v \<noteq> SNull" using that k by (auto simp: key_of_def split: if_splits)
      then show ?thesis using get_row_run [OF inv td, of i] that map by simp
    qed
    have key: "if truthy i
        then (\<exists>v. bind_value i = Inr v \<and> k = key_of eng td v) \<and> get_row eng ?t i db' = (Inr (Some stored), db')
        else k = key_of eng td (SText (ed_uuid db (ed_uuid_count db))) \<and> dget stored ''id'' = Some (fetch_value k)"
      using given get i f(2) unfolding key_for_def id td' by (auto split: if_splits)
    have col: "case dget args (cd_name c) of
          None \<Rightarrow> dget stored (cd_name c) = dget row (cd_name c)
        | Some j \<Rightarrow> read_back eng c j = Inr (the (dget stored (cd_name c)))" if "c \<in> set (td_columns td)" for c
      using cells that by (intro updated_column [OF assms(1) td assms(4,6)]) (auto simp: list_all_iff td')
    show ?thesis
      by (intro exI [of _ stored] exI [of _ k] conjI stored(2) key)
        (use col map in \<open>auto simp: list_all_iff\<close>)
  qed
qed

text \<open>The Tool that needs no confirmation only reads.\<close>

lemma list_rows_state: "snd (list_rows name db) = db"
  by (auto simp: list_rows_def bindC_def require_table_def sql_select_def the_table_def guard_sql_def
      split: option.splits sum.splits)

text \<open>
  C16: what passes without a confirmation does not write. On a consistent repository, a call that
  names one of a Custom Table's generated Tools and that the Tool Rail allows outright, under the
  generated configuration, leaves the database exactly as it was, whatever it returns or raises;
  and a name the provider does not know raises \<open>UnknownToolError\<close> and changes nothing either.
\<close>

theorem unconfirmed_crud_calls_do_not_write:
  assumes "repo_inv eng tds db"
  shows "(crud_target tds (tc_name tc) = Some (verb, td) \<and> decide tc (derive_crud_tool_configs td) = Allow \<longrightarrow>
           snd (entity_crud_call eng fr (tc_name tc) (tc_arguments tc) db) = db)
    \<and> (crud_target tds (tc_name tc) = None \<longrightarrow>
           entity_crud_call eng fr (tc_name tc) (tc_arguments tc) db = (Inl (UnknownToolError (tc_name tc)), db))"
proof (intro conjI impI)
  assume h: "crud_target tds (tc_name tc) = Some (verb, td) \<and> decide tc (derive_crud_tool_configs td) = Allow"
  then have "parse_tool_name (tc_name tc) = Some (verb, td_table_name td)"
    by (auto simp: crud_target_def split: option.splits if_splits dest: find_def_SomeD)
  then have "verb = ''list''"
    using h by (auto simp: parse_tool_name_Some_iff derive_crud_tool_configs_def crud_verbs_def crud_tool_def
        default_tool_config_def Let_def crud_tool_name_def)
  with h crud_call_known(1) [OF assms, of "tc_name tc" verb td fr "tc_arguments tc"]
  have "entity_crud_call eng fr (tc_name tc) (tc_arguments tc) db =
      bindC (list_rows (td_table_name td)) (\<lambda>rows. ret (JObj [(''rows'', JArr (map JObj rows))])) db"
    by simp
  then show "snd (entity_crud_call eng fr (tc_name tc) (tc_arguments tc) db) = db"
    using list_rows_state [of "td_table_name td" db]
    by (auto simp: bindC_def split: prod.splits sum.splits)
next
  assume "crud_target tds (tc_name tc) = None"
  then show "entity_crud_call eng fr (tc_name tc) (tc_arguments tc) db = (Inl (UnknownToolError (tc_name tc)), db)"
    by (rule crud_call_unknown [OF assms])
qed

subsection \<open>Witnesses\<close>

lemma unconfirmed_crud_calls_do_not_write_witness:
  "snd (entity_crud_call demo_eng (\<lambda>_. '''') ''list_rooms'' [] demo_repo) = demo_repo"
proof -
  let ?tc = "\<lparr>tc_id = ''1'', tc_name = ''list_rooms'', tc_arguments = [], tc_provider_data = None\<rparr>"
  have "crud_target [demo_table, bare_table] (tc_name ?tc) = Some (''list'', demo_table)"
    and "decide ?tc (derive_crud_tool_configs demo_table) = Allow"
    by code_simp+
  then show ?thesis
    using unconfirmed_crud_calls_do_not_write [OF demo_repo_inv, of ?tc "''list''" demo_table "\<lambda>_. ''''"] by simp
qed

definition demo_stocked :: entity_db where
  "demo_stocked = snd (upsert_row demo_eng ''rooms'' [(''kind'', JStr ''suite'')] demo_repo)"

lemma demo_stocked_inv: "repo_inv demo_eng [demo_table, bare_table] demo_stocked"
proof -
  have "fst (upsert_row demo_eng ''rooms'' [(''kind'', JStr ''suite'')] demo_repo) =
      Inr [(''id'', JInt 1), (''kind'', JStr ''suite''), (''free'', JNull)]" by code_simp
  with upsert_row_cases [OF demo_repo_inv demo_numbers prod.collapse [symmetric],
      of "''rooms''" "[(''kind'', JStr ''suite'')]"]
  show ?thesis by (auto simp: upserted_def demo_stocked_def)
qed

lemma crud_update_changes_given_fields_witness:
  "\<exists>stored. fst (get_row demo_eng ''rooms'' (JInt 1)
      (snd (entity_crud_call demo_eng (\<lambda>_. '''') ''update_rooms'' [(''free'', JBool True), (''id'', JInt 1)] demo_stocked)))
    = Inr (Some stored) \<and> dget stored ''kind'' = Some (JStr ''suite'')"
proof -
  let ?args = "[(''free'', JBool True), (''id'', JInt 1)]"
  let ?x = "entity_crud_call demo_eng (\<lambda>_. '''') ''update_rooms'' ?args demo_stocked"
  let ?y = "get_row demo_eng ''rooms'' (JInt 1) demo_stocked"
  have name: "td_table_name demo_table = ''rooms''" by (simp add: demo_table_def)
  have "crud_target [demo_table, bare_table] ''update_rooms'' = Some (''update'', demo_table)"
    and y: "fst ?y = Inr (Some [(''id'', JInt 1), (''kind'', JStr ''suite''), (''free'', JNull)])"
    and x: "fst ?x = Inr (success_with [(''id'', JInt 1), (''kind'', JStr ''suite''), (''free'', JBool True)])"
    and kind: "dget ?args ''kind'' = None"
    by code_simp+
  have ys: "?y = (Inr (Some [(''id'', JInt 1), (''kind'', JStr ''suite''), (''free'', JNull)]), demo_stocked)"
    using get_row_run [OF demo_stocked_inv, of "''rooms''" demo_table "JInt 1"] y
    by (simp add: find_def_def demo_table_def)
  have xs: "?x = (Inr (success_with [(''id'', JInt 1), (''kind'', JStr ''suite''), (''free'', JBool True)]), snd ?x)"
    using x by (metis prod.collapse)
  have "dget ?args ''id'' = Some (JInt 1)" "distinct (dkeys ?args)" and t: "truthy (JInt 1)" by simp_all
  from crud_update_changes_given_fields [OF demo_stocked_inv demo_numbers \<open>crud_target _ _ = _\<close> this(2,1)
      ys [folded name] xs]
  obtain stored where get: "get_row demo_eng ''rooms'' (JInt 1) (snd ?x) = (Inr (Some stored), snd ?x)"
    and cols: "list_all (\<lambda>c. case dget ?args (cd_name c) of
          None \<Rightarrow> dget stored (cd_name c) = dget [(''id'', JInt 1), (''kind'', JStr ''suite''), (''free'', JNull)] (cd_name c)
        | Some j \<Rightarrow> read_back demo_eng c j = Inr (the (dget stored (cd_name c)))) (td_columns demo_table)"
    unfolding name if_P [OF t] by blast
  from cols have "dget stored ''kind'' = Some (JStr ''suite'')"
    by (simp add: demo_table_def)
  with get show ?thesis by (intro exI [of _ stored]) simp
qed

text \<open>
  The update of a row by the id \<open>0\<close>, which finds the row of the text id \<open>0\<close>: success is reported
  and a second row is there.
\<close>

definition demo_texts :: entity_db where
  "demo_texts = snd (upsert_row demo_eng ''rooms'' [(''kind'', JStr ''suite''), (''id'', JStr ''0'')]
     (snd (create_table demo_eng (demo_table\<lparr>td_id_type := IdUuid\<rparr>) demo_file)))"

lemma update_by_zero_adds_a_row:
  "let (r, db) = entity_crud_call demo_eng (\<lambda>_. '''') ''update_rooms'' [(''free'', JBool True), (''id'', JInt 0)] demo_texts
   in r = Inr (success_with [(''id'', JStr ''4f''), (''kind'', JStr ''suite''), (''free'', JBool True)])
      \<and> fst (list_rows ''rooms'' db) =
          Inr [[(''id'', JStr ''0''), (''kind'', JStr ''suite''), (''free'', JNull)],
               [(''id'', JStr ''4f''), (''kind'', JStr ''suite''), (''free'', JBool True)]]"
  by code_simp

end
