(* ===== verification/Entity_Routes.thy ===== *)
theory Entity_Routes
  imports Admin_Routes Crud_Tools
begin

text \<open>
  The HTTP routes for a Business's tables, columns and rows
  (\<open>interfaces/admin/entities_router.py\<close>): every route, with the exceptions it translates. A
  new table that is not linked to a Tool also gets its four generated Tools in the Business
  Config, and they go when the table is dropped.
\<close>

subsection \<open>Helpers\<close>

datatype deletion =
    ConfirmationRequired (confirm_token: string) (confirm_description: string)
  | Deleted

definition entity_repo :: "server_env \<Rightarrow> string \<Rightarrow> (backend, unit) cmd" where
  "entity_repo sv business_id =
     bindC (gets (\<lambda>w. business_id \<in> set (bk_repos w))) (\<lambda>cached.
     if cached then ret ()
     else
     bindC (config_path sv business_id) (\<lambda>_.
     modify (\<lambda>w. w\<lparr>bk_repos := bk_repos w @ [business_id]\<rparr>)))"

definition require_listed_table :: "string \<Rightarrow> string \<Rightarrow> (backend, table_def) cmd" where
  "require_listed_table business_id table_name =
     bindC (on_repo business_id list_tables) (\<lambda>tables.
     case List.find (\<lambda>t. td_table_name t = table_name) tables of
       Some t \<Rightarrow> ret t
     | None \<Rightarrow> raise (HTTPException 404))"

definition dump_table :: "table_def \<Rightarrow> json" where
  "dump_table td = JObj
     [(''table_name'', JStr (td_table_name td)), (''display_name'', JStr (td_display_name td)),
      (''columns'', JArr (map dump_column (td_columns td))), (''id_type'', JStr (id_type_value (td_id_type td))),
      (''tool_linked'', opt_str (td_tool_linked td))]"

definition table_json :: "server_env \<Rightarrow> table_def \<Rightarrow> string" where
  "table_json sv td = sv_json_text sv (dump_table td)"

definition audit_route ::
  "admin_user \<Rightarrow> string \<Rightarrow> string \<Rightarrow> string option \<Rightarrow> string option \<Rightarrow> (backend, unit) cmd" where
  "audit_route user business_id action before after =
     on_admin (record_audit user (Some business_id) action before after)"

definition confirmation_request_for :: "string \<Rightarrow> (backend, deletion) cmd" where
  "confirmation_request_for description =
     bindC (on_admin (request_confirmation description)) (\<lambda>token. ret (ConfirmationRequired token description))"

definition confirm_or_400 :: "string \<Rightarrow> (backend, unit) cmd" where
  "confirm_or_400 token =
     rethrow (\<lambda>e. if e = InvalidConfirmationTokenError then HTTPException 400 else e)
       (on_admin (resolve_confirm_token token))"

definition tools_patch :: "tool_config list \<Rightarrow> json dict" where
  "tools_patch tools = [(''tools'', JArr (map dump_tool tools))]"

subsection \<open>Tables\<close>

definition list_tables_route :: "server_env \<Rightarrow> string \<Rightarrow> string option \<Rightarrow> (backend, table_def list) cmd" where
  "list_tables_route sv business_id authorization =
     bindC (admin_authorize sv authorization (Some business_id) owner_only) (\<lambda>_.
     bindC (entity_repo sv business_id) (\<lambda>_.
     on_repo business_id list_tables))"

definition new_tool_configs :: "table_def \<Rightarrow> tool_config list" where
  "new_tool_configs td = (if td_tool_linked td = None then derive_crud_tool_configs td else [])"

definition create_table_error :: "exn \<Rightarrow> exn" where
  "create_table_error e =
     (case e of TableAlreadyExistsError _ \<Rightarrow> HTTPException 409
      | InvalidTableConfigError _ \<Rightarrow> HTTPException 400
      | InvalidToolLinkedTableError _ \<Rightarrow> HTTPException 400
      | _ \<Rightarrow> e)"

definition create_table_route ::
  "server_env \<Rightarrow> string \<Rightarrow> table_def \<Rightarrow> string option \<Rightarrow> (backend, table_def) cmd" where
  "create_table_route sv business_id td authorization =
     bindC (admin_authorize sv authorization (Some business_id) owner_only) (\<lambda>user.
     bindC (config_path sv business_id) (\<lambda>path.
     bindC (on_disk (load_business_config (sv_io sv) path)) (\<lambda>current.
     let new_tools = new_tool_configs td in
     if set (map tl_name (bc_tools current)) \<inter> set (map tl_name new_tools) \<noteq> {} then raise (HTTPException 409)
     else
     bindC (rethrow create_table_error
              (bindC (entity_repo sv business_id) (\<lambda>_. on_repo business_id (create_table (sv_eng sv) td)))) (\<lambda>_.
     bindC (if new_tools \<noteq> []
            then bindC (on_disk (update_business_config (sv_io sv) path (tools_patch (bc_tools current @ new_tools))))
                   (\<lambda>_. ret ())
            else ret ()) (\<lambda>_.
     bindC (audit_route user business_id ''table.create'' None (Some (table_json sv td))) (\<lambda>_.
     ret td))))))"

definition delete_table_route ::
  "server_env \<Rightarrow> string \<Rightarrow> string \<Rightarrow> string option \<Rightarrow> string option \<Rightarrow> (backend, deletion) cmd" where
  "delete_table_route sv business_id table_name token authorization =
     bindC (admin_authorize sv authorization (Some business_id) owner_only) (\<lambda>user.
     bindC (entity_repo sv business_id) (\<lambda>_.
     bindC (require_listed_table business_id table_name) (\<lambda>existing.
     case token of
       None \<Rightarrow> confirmation_request_for (''Delete table '' @ repr_str table_name @ '' from '' @ business_id)
     | Some t \<Rightarrow>
         bindC (confirm_or_400 t) (\<lambda>_.
         bindC (on_repo business_id (drop_table table_name)) (\<lambda>_.
         bindC (config_path sv business_id) (\<lambda>path.
         bindC (on_disk (load_business_config (sv_io sv) path)) (\<lambda>current.
         let removed_names = crud_tool_names table_name;
             remaining = filter (\<lambda>t. tl_name t \<notin> set removed_names) (bc_tools current)
         in
         bindC (if length remaining \<noteq> length (bc_tools current)
                then bindC (on_disk (update_business_config (sv_io sv) path (tools_patch remaining))) (\<lambda>_. ret ())
                else ret ()) (\<lambda>_.
         bindC (audit_route user business_id ''table.delete'' (Some (table_json sv existing)) None) (\<lambda>_.
         ret Deleted)))))))))"

subsection \<open>Columns\<close>

definition add_column_error :: "exn \<Rightarrow> exn" where
  "add_column_error e =
     (case e of ColumnAlreadyExistsError _ \<Rightarrow> HTTPException 409 | InvalidTableConfigError _ \<Rightarrow> HTTPException 400 | _ \<Rightarrow> e)"

definition add_column_route ::
  "server_env \<Rightarrow> string \<Rightarrow> string \<Rightarrow> column_def \<Rightarrow> string option \<Rightarrow> (backend, table_def) cmd" where
  "add_column_route sv business_id table_name column authorization =
     bindC (admin_authorize sv authorization (Some business_id) owner_only) (\<lambda>user.
     bindC (entity_repo sv business_id) (\<lambda>_.
     bindC (require_listed_table business_id table_name) (\<lambda>before.
     bindC (rethrow add_column_error (on_repo business_id (add_column (sv_eng sv) table_name column))) (\<lambda>updated.
     bindC (audit_route user business_id ''table.column.add'' (Some (table_json sv before)) (Some (table_json sv updated))) (\<lambda>_.
     ret updated)))))"

definition rename_column_error :: "exn \<Rightarrow> exn" where
  "rename_column_error e =
     (case e of UnknownColumnError _ \<Rightarrow> HTTPException 404
      | ColumnAlreadyExistsError _ \<Rightarrow> HTTPException 400
      | InvalidTableConfigError _ \<Rightarrow> HTTPException 400
      | InvalidToolLinkedTableError _ \<Rightarrow> HTTPException 400
      | _ \<Rightarrow> e)"

definition rename_column_route ::
  "server_env \<Rightarrow> string \<Rightarrow> string \<Rightarrow> string \<Rightarrow> string \<Rightarrow> string option \<Rightarrow> (backend, table_def) cmd" where
  "rename_column_route sv business_id table_name column_name new_name authorization =
     bindC (admin_authorize sv authorization (Some business_id) owner_only) (\<lambda>user.
     bindC (entity_repo sv business_id) (\<lambda>_.
     bindC (require_listed_table business_id table_name) (\<lambda>before.
     bindC (rethrow rename_column_error
              (on_repo business_id (rename_column (sv_eng sv) table_name column_name new_name))) (\<lambda>updated.
     bindC (audit_route user business_id ''table.column.rename'' (Some (table_json sv before)) (Some (table_json sv updated))) (\<lambda>_.
     ret updated)))))"

definition drop_column_error :: "exn \<Rightarrow> exn" where
  "drop_column_error e = (case e of InvalidToolLinkedTableError _ \<Rightarrow> HTTPException 400 | _ \<Rightarrow> e)"

definition delete_column_route ::
  "server_env \<Rightarrow> string \<Rightarrow> string \<Rightarrow> string \<Rightarrow> string option \<Rightarrow> string option \<Rightarrow> (backend, deletion) cmd" where
  "delete_column_route sv business_id table_name column_name token authorization =
     bindC (admin_authorize sv authorization (Some business_id) owner_only) (\<lambda>user.
     bindC (entity_repo sv business_id) (\<lambda>_.
     bindC (require_listed_table business_id table_name) (\<lambda>before.
     if \<not> list_ex (\<lambda>c. cd_name c = column_name) (td_columns before) then raise (HTTPException 404)
     else case token of
       None \<Rightarrow> confirmation_request_for
         (''Delete column '' @ repr_str column_name @ '' from '' @ business_id @ ''/'' @ table_name)
     | Some t \<Rightarrow>
         bindC (confirm_or_400 t) (\<lambda>_.
         bindC (rethrow drop_column_error (on_repo business_id (drop_column table_name column_name))) (\<lambda>updated.
         bindC (audit_route user business_id ''table.column.delete'' (Some (table_json sv before)) (Some (table_json sv updated))) (\<lambda>_.
         ret Deleted))))))"

subsection \<open>Rows\<close>

definition list_rows_route :: "server_env \<Rightarrow> string \<Rightarrow> string \<Rightarrow> string option \<Rightarrow> (backend, json dict list) cmd" where
  "list_rows_route sv business_id table_name authorization =
     bindC (admin_authorize sv authorization (Some business_id) owner_only) (\<lambda>_.
     bindC (entity_repo sv business_id) (\<lambda>_.
     bindC (require_listed_table business_id table_name) (\<lambda>_.
     rethrow (\<lambda>e. case e of UnknownTableError _ \<Rightarrow> HTTPException 404 | _ \<Rightarrow> e)
       (on_repo business_id (list_rows table_name)))))"

definition create_row_route ::
  "server_env \<Rightarrow> string \<Rightarrow> string \<Rightarrow> json dict \<Rightarrow> string option \<Rightarrow> (backend, json dict) cmd" where
  "create_row_route sv business_id table_name row authorization =
     bindC (admin_authorize sv authorization (Some business_id) owner_only) (\<lambda>user.
     bindC (entity_repo sv business_id) (\<lambda>_.
     bindC (require_listed_table business_id table_name) (\<lambda>_.
     bindC (on_repo business_id (upsert_row (sv_eng sv) table_name (dwithout ''id'' row))) (\<lambda>stored.
     bindC (audit_route user business_id ''row.create'' None (Some (py_str_dict sv stored))) (\<lambda>_.
     ret stored)))))"

definition update_row_route ::
  "server_env \<Rightarrow> string \<Rightarrow> string \<Rightarrow> string \<Rightarrow> json dict \<Rightarrow> string option \<Rightarrow> (backend, json dict) cmd" where
  "update_row_route sv business_id table_name row_id patch authorization =
     bindC (admin_authorize sv authorization (Some business_id) owner_only) (\<lambda>user.
     bindC (entity_repo sv business_id) (\<lambda>_.
     bindC (require_listed_table business_id table_name) (\<lambda>_.
     bindC (on_repo business_id (get_row (sv_eng sv) table_name (JStr row_id))) (\<lambda>found.
     case found of
       None \<Rightarrow> raise (HTTPException 404)
     | Some existing \<Rightarrow>
         bindC (on_repo business_id (upsert_row (sv_eng sv) table_name
                  (AList.update ''id'' (JStr row_id) (dmerge existing patch)))) (\<lambda>updated.
         bindC (audit_route user business_id ''row.update''
                  (Some (py_str_dict sv existing)) (Some (py_str_dict sv updated))) (\<lambda>_.
         ret updated))))))"

definition delete_row_route ::
  "server_env \<Rightarrow> string \<Rightarrow> string \<Rightarrow> string \<Rightarrow> string option \<Rightarrow> string option \<Rightarrow> (backend, deletion) cmd" where
  "delete_row_route sv business_id table_name row_id token authorization =
     bindC (admin_authorize sv authorization (Some business_id) owner_only) (\<lambda>user.
     bindC (entity_repo sv business_id) (\<lambda>_.
     bindC (require_listed_table business_id table_name) (\<lambda>_.
     bindC (on_repo business_id (get_row (sv_eng sv) table_name (JStr row_id))) (\<lambda>found.
     case found of
       None \<Rightarrow> raise (HTTPException 404)
     | Some existing \<Rightarrow>
         (case token of
            None \<Rightarrow> confirmation_request_for
              (''Delete row '' @ repr_str row_id @ '' from '' @ business_id @ ''/'' @ table_name)
          | Some t \<Rightarrow>
              bindC (confirm_or_400 t) (\<lambda>_.
              bindC (on_repo business_id (delete_row (sv_eng sv) table_name (JStr row_id))) (\<lambda>_.
              bindC (audit_route user business_id ''row.delete'' (Some (py_str_dict sv existing)) None) (\<lambda>_.
              ret Deleted))))))))"

end
