(* ===== verification/Frames.thy ===== *)
theory Frames
  imports Prelude
begin

text \<open>
  Frame conditions. A command obeys a relation when it relates every state to the state the
  command leaves, whether it returns or raises. The locale gives the composition rules for any
  reflexive and transitive relation; each component interprets it on its own relations. And two-run
  conditions: what a command answers depends on a part of the state only.
\<close>

definition obeys :: "('s \<Rightarrow> 's \<Rightarrow> bool) \<Rightarrow> ('s, 'a) cmd \<Rightarrow> bool" where
  "obeys R m \<longleftrightarrow> (\<forall>s r s'. m s = (r, s') \<longrightarrow> R s s')"

lemma obeysI: "(\<And>s r s'. m s = (r, s') \<Longrightarrow> R s s') \<Longrightarrow> obeys R m"
  unfolding obeys_def by blast

lemma obeysD: "obeys R m \<Longrightarrow> m s = (r, s') \<Longrightarrow> R s s'"
  unfolding obeys_def by blast

locale frame =
  fixes R :: "'s \<Rightarrow> 's \<Rightarrow> bool"
  assumes same: "R s s" and chain: "R s1 s2 \<Longrightarrow> R s2 s3 \<Longrightarrow> R s1 s3"
begin

lemma basic: "obeys R (ret x)" "obeys R (raise e)" "obeys R (gets g)" "obeys R (liftR r)"
  by (simp_all add: obeys_def same)

lemma step:
  assumes "bindC m f s = (r, s')" and "obeys R m"
  obtains (failed) e where "r = Inl e" and "m s = (Inl e, s')" and "R s s'"
    | (ok) x s1 where "m s = (Inr x, s1)" and "R s s1" and "f x s1 = (r, s')"
proof (cases "fst (m s)")
  case (Inl e)
  then obtain s1 where "m s = (Inl e, s1)" by (metis prod.collapse)
  with assms show thesis by (intro failed) (auto simp: bindC_def dest: obeysD)
next
  case (Inr x)
  then obtain s1 where "m s = (Inr x, s1)" by (metis prod.collapse)
  with assms show thesis by (intro ok) (auto simp: bindC_def dest: obeysD)
qed

lemma bind:
  assumes "obeys R m" and "\<And>x. obeys R (f x)"
  shows "obeys R (bindC m f)"
proof (rule obeysI)
  fix s r s' assume "bindC m f s = (r, s')"
  then show "R s s'"
  proof (cases rule: step [OF _ assms(1), consumes 1, case_names failed ok])
    case failed
    then show ?thesis by simp
  next
    case (ok x s1)
    from chain [OF ok(2) obeysD [OF assms(2) ok(3)]] show ?thesis .
  qed
qed

lemma branch: "obeys R m \<Longrightarrow> obeys R m' \<Longrightarrow> obeys R (if c then m else m')"
  by simp

lemma option_case:
  "obeys R m \<Longrightarrow> (\<And>x. obeys R (f x)) \<Longrightarrow> obeys R (case opt of None \<Rightarrow> m | Some x \<Rightarrow> f x)"
  by (cases opt) simp_all

lemma rethrown: "obeys R m \<Longrightarrow> obeys R (rethrow f m)"
  unfolding obeys_def by (auto simp: rethrow_apply split: prod.splits sum.splits)

lemmas intros = basic bind branch option_case rethrown

end

subsection \<open>Two runs\<close>

text \<open>
  \<open>blind view m\<close>: two runs of \<open>m\<close> from states with the same view return the same and leave
  states with the same view.
\<close>

definition blind :: "('s \<Rightarrow> 'v) \<Rightarrow> ('s, 'a) cmd \<Rightarrow> bool" where
  "blind view m \<longleftrightarrow> (\<forall>s1 s2. view s1 = view s2 \<longrightarrow>
     fst (m s1) = fst (m s2) \<and> view (snd (m s1)) = view (snd (m s2)))"

named_theorems blind_intros \<open>composition rules of blind\<close>

lemma blindD: "blind view m \<Longrightarrow> view s1 = view s2 \<Longrightarrow> fst (m s1) = fst (m s2) \<and> view (snd (m s1)) = view (snd (m s2))"
  unfolding blind_def by blast

lemma blind_runs:
  assumes "blind view m" and "view s1 = view s2"
  obtains r t1 t2 where "m s1 = (r, t1)" and "m s2 = (r, t2)" and "view t1 = view t2"
  using blindD [OF assms] by (metis prod.collapse)

lemma blind_bind [blind_intros]:
  assumes "blind view m" and "\<And>x. blind view (f x)"
  shows "blind view (bindC m f)"
  unfolding blind_def
proof (intro allI impI)
  fix s1 s2 assume "view s1 = view s2"
  from blind_runs [OF assms(1) this] obtain r t1 t2 where m: "m s1 = (r, t1)" "m s2 = (r, t2)" and eq: "view t1 = view t2" .
  show "fst (bindC m f s1) = fst (bindC m f s2) \<and> view (snd (bindC m f s1)) = view (snd (bindC m f s2))"
    using blindD [OF assms(2) eq] eq by (cases r) (auto simp: bindC_def m)
qed

lemma blind_basic [blind_intros]: "blind view (ret x)" "blind view (raise e)" "blind view (liftR r)"
  by (simp_all add: blind_def)

lemma blind_if [blind_intros]: "blind view m \<Longrightarrow> blind view m' \<Longrightarrow> blind view (if c then m else m')"
  by simp

lemma blind_option [blind_intros]:
  "blind view m \<Longrightarrow> (\<And>x. blind view (f x)) \<Longrightarrow> blind view (case opt of None \<Rightarrow> m | Some x \<Rightarrow> f x)"
  by (cases opt) simp_all

lemma blind_rethrow [blind_intros]:
  assumes "blind view m"
  shows "blind view (rethrow f m)"
  unfolding blind_def
proof (intro allI impI)
  fix s1 s2 assume "view s1 = view s2"
  from blind_runs [OF assms this] obtain r t1 t2 where "m s1 = (r, t1)" "m s2 = (r, t2)" "view t1 = view t2" .
  then show "fst (rethrow f m s1) = fst (rethrow f m s2) \<and> view (snd (rethrow f m s1)) = view (snd (rethrow f m s2))"
    by (cases r) (simp_all add: rethrow_apply)
qed

end
