(* ===== verification/Route_Props.thy ===== *)
theory Route_Props
  imports Entity_Routes Frames
begin

text \<open>
  What the admin routes guarantee: a request stays within the Business of its path and the
  authorised user, in what it writes and in what it answers, and a Business's tables and its
  generated Tools are created and removed together, as far as the code sees to it.
\<close>

subsection \<open>Requests\<close>

text \<open>Every authenticated route, with its path parameters, query and body; the Business id and the
  Authorization header are common to all.\<close>

datatype admin_request =
    GetConfig
  | PatchConfig "json dict"
  | GetAuditLog
  | ListTables
  | CreateTable table_def
  | DeleteTable string "string option"
  | AddColumn string column_def
  | RenameColumn string string string
  | DeleteColumn string string "string option"
  | ListRows string
  | CreateRow string "json dict"
  | UpdateRow string string "json dict"
  | DeleteRow string string "string option"

datatype reply =
    ObjectReply "json dict"
  | ObjectsReply "json dict list"
  | TableReply table_def
  | TablesReply "table_def list"
  | DeletionReply deletion

definition replyC :: "('a \<Rightarrow> reply) \<Rightarrow> (backend, 'a) cmd \<Rightarrow> (backend, reply) cmd" where
  "replyC f m = bindC m (\<lambda>x. ret (f x))"

fun admin_call :: "server_env \<Rightarrow> string \<Rightarrow> string option \<Rightarrow> admin_request \<Rightarrow> (backend, reply) cmd" where
  "admin_call sv b auth GetConfig = replyC ObjectReply (get_config sv b auth)"
| "admin_call sv b auth (PatchConfig patch) = replyC ObjectReply (patch_config sv b patch auth)"
| "admin_call sv b auth GetAuditLog = replyC ObjectsReply (get_audit_log sv b auth)"
| "admin_call sv b auth ListTables = replyC TablesReply (list_tables_route sv b auth)"
| "admin_call sv b auth (CreateTable td) = replyC TableReply (create_table_route sv b td auth)"
| "admin_call sv b auth (DeleteTable t tok) = replyC DeletionReply (delete_table_route sv b t tok auth)"
| "admin_call sv b auth (AddColumn t c) = replyC TableReply (add_column_route sv b t c auth)"
| "admin_call sv b auth (RenameColumn t c n) = replyC TableReply (rename_column_route sv b t c n auth)"
| "admin_call sv b auth (DeleteColumn t c tok) = replyC DeletionReply (delete_column_route sv b t c tok auth)"
| "admin_call sv b auth (ListRows t) = replyC ObjectsReply (list_rows_route sv b t auth)"
| "admin_call sv b auth (CreateRow t row) = replyC ObjectReply (create_row_route sv b t row auth)"
| "admin_call sv b auth (UpdateRow t i patch) = replyC ObjectReply (update_row_route sv b t i patch auth)"
| "admin_call sv b auth (DeleteRow t i tok) = replyC DeletionReply (delete_row_route sv b t i tok auth)"

fun roles_for :: "admin_request \<Rightarrow> admin_role list" where
  "roles_for GetAuditLog = owner_and_platform_operator"
| "roles_for _ = owner_only"

text \<open>The confirmation token a request carries.\<close>

fun request_token :: "admin_request \<Rightarrow> string option" where
  "request_token (DeleteTable _ t) = t"
| "request_token (DeleteColumn _ _ t) = t"
| "request_token (DeleteRow _ _ t) = t"
| "request_token _ = None"

subsection \<open>What a request may touch\<close>

definition grows :: "string \<Rightarrow> string \<Rightarrow> audit_entry list \<Rightarrow> audit_entry list \<Rightarrow> bool" where
  "grows b email before after \<longleftrightarrow>
     (\<exists>es. after = before @ es \<and> (\<forall>e \<in> set es. al_business_id e = Some b \<and> al_actor_email e = email))"

lemma grows_trans:
  assumes "grows b email xs ys" and "grows b email ys zs"
  shows "grows b email xs zs"
proof -
  from assms(1) obtain es where es: "ys = xs @ es" "\<forall>e \<in> set es. al_business_id e = Some b \<and> al_actor_email e = email"
    unfolding grows_def by blast
  from assms(2) obtain es' where "zs = ys @ es'" "\<forall>e \<in> set es'. al_business_id e = Some b \<and> al_actor_email e = email"
    unfolding grows_def by blast
  with es show ?thesis unfolding grows_def by (intro exI [of _ "es @ es'"]) auto
qed

text \<open>
  Of the confirmation tokens, only the one the request carries may go, and tokens newly issued come.
\<close>

definition tokens_kept :: "string option \<Rightarrow> admin_state \<Rightarrow> admin_state \<Rightarrow> bool" where
  "tokens_kept tok a a' \<longleftrightarrow> as_tokens a' = as_tokens a \<and> as_token_count a \<le> as_token_count a'
     \<and> (\<forall>t. dget (as_pending a') t \<noteq> dget (as_pending a) t \<longrightarrow>
          tok = Some t \<or> (\<exists>n. as_token_count a \<le> n \<and> n < as_token_count a' \<and> t = as_tokens a n))"

lemma tokens_kept_same [simp]:
  "as_tokens a' = as_tokens a \<Longrightarrow> as_token_count a' = as_token_count a \<Longrightarrow> as_pending a' = as_pending a \<Longrightarrow>
     tokens_kept tok a a'"
  by (simp add: tokens_kept_def)

lemma tokens_kept_trans:
  assumes "tokens_kept tok a a1" and "tokens_kept tok a1 a2"
  shows "tokens_kept tok a a2"
  unfolding tokens_kept_def
proof (intro conjI allI impI)
  show "as_tokens a2 = as_tokens a" "as_token_count a \<le> as_token_count a2"
    using assms by (simp_all add: tokens_kept_def)
  fix t assume "dget (as_pending a2) t \<noteq> dget (as_pending a) t"
  then consider (late) "dget (as_pending a2) t \<noteq> dget (as_pending a1) t" | (early) "dget (as_pending a1) t \<noteq> dget (as_pending a) t"
    by force
  then show "tok = Some t \<or> (\<exists>n. as_token_count a \<le> n \<and> n < as_token_count a2 \<and> t = as_tokens a n)"
  proof cases
    case late
    with assms(2) have "tok = Some t \<or> (\<exists>n. as_token_count a1 \<le> n \<and> n < as_token_count a2 \<and> t = as_tokens a1 n)"
      unfolding tokens_kept_def by blast
    moreover have "as_tokens a1 = as_tokens a" "as_token_count a \<le> as_token_count a1"
      using assms(1) by (simp_all add: tokens_kept_def)
    ultimately show ?thesis by (metis order_trans)
  next
    case early
    with assms(1) have "tok = Some t \<or> (\<exists>n. as_token_count a \<le> n \<and> n < as_token_count a1 \<and> t = as_tokens a n)"
      unfolding tokens_kept_def by blast
    moreover have "as_token_count a1 \<le> as_token_count a2" using assms(2) by (simp add: tokens_kept_def)
    ultimately show ?thesis by (metis order_less_le_trans)
  qed
qed

definition within_business :: "server_env \<Rightarrow> string \<Rightarrow> string \<Rightarrow> string option \<Rightarrow> backend \<Rightarrow> backend \<Rightarrow> bool" where
  "within_business sv b email tok w w' \<longleftrightarrow>
     (\<forall>b'. b' \<noteq> b \<longrightarrow> bk_dbs w' b' = bk_dbs w b')
     \<and> (\<forall>f. f \<noteq> business_yaml sv b \<and> f \<noteq> business_yaml sv b @ ''.tmp'' \<longrightarrow>
            dget (dk_files (bk_disk w')) f = dget (dk_files (bk_disk w)) f)
     \<and> dk_dirs (bk_disk w') = dk_dirs (bk_disk w)
     \<and> as_users (bk_admin w') = as_users (bk_admin w)
     \<and> grows b email (as_audit (bk_admin w)) (as_audit (bk_admin w'))
     \<and> tokens_kept tok (bk_admin w) (bk_admin w')"

named_theorems within_intros \<open>the steps of the routes respect within\_business\<close>

lemma within_refl [simp]: "within_business sv b email tok w w"
  by (simp add: within_business_def grows_def)

lemma within_trans:
  assumes "within_business sv b email tok w w1" and "within_business sv b email tok w1 w2"
  shows "within_business sv b email tok w w2"
  using assms grows_trans [of b email "as_audit (bk_admin w)" "as_audit (bk_admin w1)" "as_audit (bk_admin w2)"]
    tokens_kept_trans [of tok "bk_admin w" "bk_admin w1" "bk_admin w2"]
  unfolding within_business_def by (elim conjE) (intro conjI; simp)

interpretation within: frame "within_business sv b email tok" for sv b email tok
  by unfold_locales (rule within_refl, rule within_trans)

declare within.intros [within_intros]

lemma within_repo [within_intros]: "obeys (within_business sv b email tok) (on_repo b m)"
  unfolding obeys_def by (auto simp: on_repo_run within_business_def grows_def split: prod.splits)

lemma within_open [within_intros]: "obeys (within_business sv b email tok) (modify (\<lambda>w. w\<lparr>bk_repos := bk_repos w @ [x]\<rparr>))"
  by (simp add: obeys_def within_business_def grows_def)

lemma within_load [within_intros]: "obeys (within_business sv b email tok) (on_disk (load_business_config io path))"
  unfolding obeys_def by (auto simp: on_disk_run load_business_config_def)

lemma within_update [within_intros]:
  "obeys (within_business sv b email tok) (on_disk (update_business_config (sv_io sv) (business_yaml sv b) patch))"
  unfolding obeys_def
proof (intro allI impI)
  fix w r w' assume "on_disk (update_business_config (sv_io sv) (business_yaml sv b) patch) w = (r, w')"
  then obtain dk where run: "update_business_config (sv_io sv) (business_yaml sv b) patch (bk_disk w) = (r, dk)"
    and w': "w' = w\<lparr>bk_disk := dk\<rparr>" by (auto simp: on_disk_run split: prod.splits)
  from update_config_run [OF run] have "dk = bk_disk w
      \<or> (\<exists>raw. write_business_config_atomically (sv_io sv) (business_yaml sv b) raw (bk_disk w) = (Inr (), dk))"
    by blast
  then show "within_business sv b email tok w w'"
    unfolding w' within_business_def grows_def using write_atomically_files by auto
qed

lemma within_audit [within_intros]:
  "au_email user = email \<Longrightarrow> obeys (within_business sv b email tok) (audit_route user b action before after)"
  by (auto simp: obeys_def audit_route_def on_admin_run record_audit_def bindC_def admin_now_def
      append_audit_log_def within_business_def grows_def)

lemma tokens_kept_issue: "request_confirmation d a = (r, a') \<Longrightarrow> tokens_kept tok a a'"
  by (auto simp: request_confirmation_def fresh_token_def bindC_def admin_now_def tokens_kept_def)

lemma tokens_kept_resolve: "resolve_confirm_token t a = (r, a') \<Longrightarrow> tokens_kept (Some t) a a'"
  by (auto simp: resolve_confirm_token_def bindC_def admin_now_def tokens_kept_def
      split: option.splits prod.splits if_splits)

lemma within_request [within_intros]: "obeys (within_business sv b email tok) (confirmation_request_for d)"
proof -
  have "obeys (within_business sv b email tok) (on_admin (request_confirmation d))"
  proof (rule obeysI)
    fix w r w' assume "on_admin (request_confirmation d) w = (r, w')"
    then obtain a where run: "request_confirmation d (bk_admin w) = (r, a)" and w': "w' = w\<lparr>bk_admin := a\<rparr>"
      by (auto simp: on_admin_run split: prod.splits)
    have "as_users a = as_users (bk_admin w) \<and> as_audit a = as_audit (bk_admin w)"
      using run by (auto simp: request_confirmation_def fresh_token_def bindC_def admin_now_def)
    with tokens_kept_issue [OF run] show "within_business sv b email tok w w'"
      by (simp add: w' within_business_def grows_def)
  qed
  then show ?thesis unfolding confirmation_request_for_def by (intro within.intros)
qed

lemma within_confirm [within_intros]: "obeys (within_business sv b email (Some t)) (confirm_or_400 t)"
proof -
  have "obeys (within_business sv b email (Some t)) (on_admin (resolve_confirm_token t))"
  proof (rule obeysI)
    fix w r w' assume "on_admin (resolve_confirm_token t) w = (r, w')"
    then obtain a where run: "resolve_confirm_token t (bk_admin w) = (r, a)" and w': "w' = w\<lparr>bk_admin := a\<rparr>"
      by (auto simp: on_admin_run split: prod.splits)
    have "as_users a = as_users (bk_admin w) \<and> as_audit a = as_audit (bk_admin w)"
      using run by (auto simp: resolve_confirm_token_def bindC_def admin_now_def
          split: option.splits prod.splits if_splits)
    with tokens_kept_resolve [OF run] show "within_business sv b email (Some t) w w'"
      by (simp add: w' within_business_def grows_def)
  qed
  then show ?thesis unfolding confirm_or_400_def by (intro within.intros)
qed

lemma within_helpers [within_intros]:
  "obeys (within_business sv b email tok) (config_path sv b)" "obeys (within_business sv b email tok) (entity_repo sv b)"
  "obeys (within_business sv b email tok) (require_listed_table b name)"
  unfolding config_path_def entity_repo_def require_listed_table_def Let_def by (intro within_intros)+

subsection \<open>What a request may see\<close>

text \<open>
  The part of the backend that belongs to one Business: its configuration file, its database, whether
  that is open, and of the admin state its audit entries, the expiry of the token at hand, and the
  counters that all Businesses share (clock, token source, audit numbering). No user, no other
  Business's audit entry or token, and no description of a pending token is in it.
\<close>

definition admin_view :: "string \<Rightarrow> string option \<Rightarrow> admin_state \<Rightarrow>
  (nat \<Rightarrow> time) \<times> nat \<times> (nat \<Rightarrow> string) \<times> nat \<times> int \<times> audit_entry list \<times> time option" where
  "admin_view b tok a =
     (as_clock a, as_clock_count a, as_tokens a, as_token_count a, as_audit_seq a,
      filter (\<lambda>e. al_business_id e = Some b) (as_audit a),
      case tok of None \<Rightarrow> None | Some t \<Rightarrow> map_option snd (dget (as_pending a) t))"

definition business_view :: "server_env \<Rightarrow> string \<Rightarrow> string option \<Rightarrow> backend \<Rightarrow> string option \<times> entity_db \<times> bool \<times>
  ((nat \<Rightarrow> time) \<times> nat \<times> (nat \<Rightarrow> string) \<times> nat \<times> int \<times> audit_entry list \<times> time option)" where
  "business_view sv b tok w =
     (dget (dk_files (bk_disk w)) (business_yaml sv b), bk_dbs w b, b \<in> set (bk_repos w),
      admin_view b tok (bk_admin w))"

lemma view_admin_steps [blind_intros]:
  "blind (admin_view b tok) admin_now" "blind (admin_view b tok) (append_audit_log entry)"
  "blind (admin_view b tok) fresh_token" "blind (admin_view b tok) (list_audit_log (Some b))"
  by (cases tok; auto simp: blind_def admin_view_def admin_now_def append_audit_log_def fresh_token_def list_audit_log_def)+

lemma view_request [blind_intros]: "blind (admin_view b tok) (request_confirmation d)"
proof -
  have "blind (admin_view b tok) (modify (\<lambda>s. s\<lparr>as_pending := AList.update t (d, x) (as_pending s)\<rparr>))" for t x
    by (auto simp: blind_def admin_view_def split: option.splits)
  then show ?thesis unfolding request_confirmation_def by (intro blind_intros)
qed

lemma view_resolve [blind_intros]: "blind (admin_view b (Some t)) (resolve_confirm_token t)"
  unfolding blind_def
proof (intro allI impI)
  fix s1 s2 assume "admin_view b (Some t) s1 = admin_view b (Some t) s2"
  then show "fst (resolve_confirm_token t s1) = fst (resolve_confirm_token t s2)
      \<and> admin_view b (Some t) (snd (resolve_confirm_token t s1)) = admin_view b (Some t) (snd (resolve_confirm_token t s2))"
    by (cases "dget (as_pending s1) t"; cases "dget (as_pending s2) t")
      (auto simp: admin_view_def resolve_confirm_token_def bindC_def admin_now_def)
qed

lemma view_audit [blind_intros]: "blind (admin_view b tok) (record_audit user business action before after)"
  unfolding record_audit_def by (intro blind_intros)

lemma view_admin [blind_intros]:
  assumes "blind (admin_view b tok) m"
  shows "blind (business_view sv b tok) (on_admin m)"
  unfolding blind_def
proof (intro allI impI)
  fix w1 w2 assume eq: "business_view sv b tok w1 = business_view sv b tok w2"
  then have "admin_view b tok (bk_admin w1) = admin_view b tok (bk_admin w2)" by (simp add: business_view_def)
  from blind_runs [OF assms this] obtain r a1 a2 where "m (bk_admin w1) = (r, a1)" "m (bk_admin w2) = (r, a2)"
    "admin_view b tok a1 = admin_view b tok a2" .
  with eq show "fst (on_admin m w1) = fst (on_admin m w2)
      \<and> business_view sv b tok (snd (on_admin m w1)) = business_view sv b tok (snd (on_admin m w2))"
    by (simp add: on_admin_run business_view_def)
qed

lemma view_repo [blind_intros]: "blind (business_view sv b tok) (on_repo b m)"
  by (auto simp: blind_def on_repo_run business_view_def split: prod.splits)

lemma view_open [blind_intros]:
  "blind (business_view sv b tok) (gets (\<lambda>w. b \<in> set (bk_repos w)))"
  "blind (business_view sv b tok) (modify (\<lambda>w. w\<lparr>bk_repos := bk_repos w @ [b]\<rparr>))"
  by (auto simp: blind_def business_view_def)

lemma view_file [blind_intros]:
  "blind (business_view sv b tok) (gets (\<lambda>w. is_file (business_yaml sv b) (bk_disk w)))"
  "blind (business_view sv b tok) (on_disk (load_business_config (sv_io sv) (business_yaml sv b)))"
  by (auto simp: blind_def business_view_def is_file_def on_disk_run load_business_config_def)

lemma view_update [blind_intros]:
  "blind (business_view sv b tok) (on_disk (update_business_config (sv_io sv) (business_yaml sv b) patch))"
proof -
  let ?v = "\<lambda>dk. dget (dk_files dk) (business_yaml sv b)"
    and ?m = "update_business_config (sv_io sv) (business_yaml sv b) patch"
  have m: "blind ?v ?m"
  proof -
    have "blind ?v (load_business_config (sv_io sv) (business_yaml sv b))"
      by (simp add: blind_def load_business_config_def)
    moreover have "blind ?v (write_business_config_atomically (sv_io sv) (business_yaml sv b) raw)" for raw
      using write_atomically_files [OF prod.collapse [symmetric], of "sv_io sv" "business_yaml sv b" raw]
      by (simp add: blind_def)
    ultimately show ?thesis
      unfolding update_business_config_def Let_def by (intro blind_intros)
  qed
  show ?thesis
    unfolding blind_def
  proof (intro allI impI)
    fix w1 w2 assume eq: "business_view sv b tok w1 = business_view sv b tok w2"
    then have "?v (bk_disk w1) = ?v (bk_disk w2)" by (simp add: business_view_def)
    from blind_runs [OF m this] obtain r d1 d2 where "?m (bk_disk w1) = (r, d1)" "?m (bk_disk w2) = (r, d2)"
      "?v d1 = ?v d2" .
    with eq show "fst (on_disk ?m w1) = fst (on_disk ?m w2)
        \<and> business_view sv b tok (snd (on_disk ?m w1)) = business_view sv b tok (snd (on_disk ?m w2))"
      by (simp add: on_disk_run business_view_def)
  qed
qed

lemma blind_path:
  assumes "\<And>path. path = business_yaml sv b \<Longrightarrow> blind (business_view sv b tok) (f path)"
  shows "blind (business_view sv b tok) (bindC (config_path sv b) f)"
proof -
  have "bindC (config_path sv b) f = bindC (gets (\<lambda>w. is_file (business_yaml sv b) (bk_disk w)))
      (\<lambda>found. if \<not> found then raise (HTTPException 404) else f (business_yaml sv b))"
    by (auto simp: config_path_def Let_def bindC_def fun_eq_iff)
  then show ?thesis by (simp only:) (intro blind_intros assms refl)
qed

lemma view_helpers [blind_intros]:
  "blind (business_view sv b tok) (config_path sv b)" "blind (business_view sv b tok) (entity_repo sv b)"
  "blind (business_view sv b tok) (require_listed_table b name)"
  "blind (business_view sv b tok) (audit_route user b action before after)"
  "blind (business_view sv b tok) (confirmation_request_for d)"
  "blind (business_view sv b (Some t)) (confirm_or_400 t)"
  unfolding config_path_def entity_repo_def require_listed_table_def audit_route_def
    confirmation_request_for_def confirm_or_400_def Let_def
  by (intro blind_intros)+

subsection \<open>Every request is guarded\<close>

definition only_clock :: "backend \<Rightarrow> backend \<Rightarrow> bool" where
  "only_clock w w' \<longleftrightarrow> (\<exists>n. w' = w\<lparr>bk_admin := (bk_admin w)\<lparr>as_clock_count := n\<rparr>\<rparr>)"

text \<open>The user a request is admitted as.\<close>

definition admitted :: "server_env \<Rightarrow> string \<Rightarrow> string option \<Rightarrow> admin_role list \<Rightarrow> backend \<Rightarrow> admin_user \<Rightarrow> bool" where
  "admitted sv b auth roles w user \<longleftrightarrow> fst (admin_authorize sv auth (Some b) roles w) = Inr user"

definition guarded ::
  "server_env \<Rightarrow> string \<Rightarrow> string option \<Rightarrow> admin_role list \<Rightarrow> string option \<Rightarrow> (backend, 'a) cmd \<Rightarrow> bool" where
  "guarded sv b auth roles tok m \<longleftrightarrow>
     (\<exists>f. m = bindC (admin_authorize sv auth (Some b) roles) f
        \<and> (\<forall>user. obeys (within_business sv b (au_email user) tok) (f user) \<and> blind (business_view sv b tok) (f user)))"

lemma guardedI:
  "(\<And>user. obeys (within_business sv b (au_email user) tok) (f user)) \<Longrightarrow>
   (\<And>user. blind (business_view sv b tok) (f user)) \<Longrightarrow>
    guarded sv b auth roles tok (bindC (admin_authorize sv auth (Some b) roles) f)"
  unfolding guarded_def by blast

lemma guarded_reply: "guarded sv b auth roles tok m \<Longrightarrow> guarded sv b auth roles tok (replyC f m)"
  unfolding guarded_def replyC_def
  by (elim exE conjE, intro exI conjI, simp add: bindC_assoc) (auto intro: within_intros blind_intros)

lemmas config_routes = get_config_def patch_config_def get_audit_log_def
lemmas table_routes = list_tables_route_def create_table_route_def delete_table_route_def
lemmas column_routes = add_column_route_def rename_column_route_def delete_column_route_def
lemmas row_routes = list_rows_route_def create_row_route_def update_row_route_def delete_row_route_def

lemma within_path: "(\<And>path. path = business_yaml sv b \<Longrightarrow> obeys (within_business sv b email tok) (f path)) \<Longrightarrow>
    obeys (within_business sv b email tok) (bindC (config_path sv b) f)"
  unfolding config_path_def Let_def bindC_assoc
  by (rule within.bind, rule within_intros) (simp add: bindC_def ret_def raise_def obeys_def)

lemma within_audit_log [within_intros]: "obeys (within_business sv b email tok) (on_admin (list_audit_log x))"
  by (simp add: obeys_def on_admin_run list_audit_log_def)

lemma config_routes_guarded:
  "guarded sv b auth owner_only tok (get_config sv b auth)"
  "guarded sv b auth owner_only tok (patch_config sv b patch auth)"
  "guarded sv b auth owner_and_platform_operator tok (get_audit_log sv b auth)"
  unfolding config_routes Let_def audit_route_def [symmetric]
  by (rule guardedI;
      ((rule within_path blind_path, hypsubst)?, intro within_intros blind_intros refl))+

lemma table_routes_guarded:
  "guarded sv b auth owner_only tok (list_tables_route sv b auth)"
  "guarded sv b auth owner_only tok (create_table_route sv b td auth)"
  unfolding table_routes Let_def
  by (rule guardedI;
      ((rule within_path blind_path, hypsubst)?, intro within_intros blind_intros refl))+

lemma delete_table_guarded: "guarded sv b auth owner_only tok (delete_table_route sv b t tok auth)"
  unfolding table_routes Let_def
  by (cases tok; simp only: option.case; rule guardedI;
      (intro within_intros blind_intros refl within_path blind_path | hypsubst)+)

lemma column_routes_guarded:
  "guarded sv b auth owner_only tok (add_column_route sv b t c auth)"
  "guarded sv b auth owner_only tok (rename_column_route sv b t n n' auth)"
  "guarded sv b auth owner_only tok (delete_column_route sv b t n tok auth)"
  unfolding column_routes
  by (cases tok; simp only: option.case; rule guardedI; intro within_intros blind_intros refl)+

lemma row_routes_guarded:
  "guarded sv b auth owner_only tok (list_rows_route sv b t auth)"
  "guarded sv b auth owner_only tok (create_row_route sv b t row auth)"
  "guarded sv b auth owner_only tok (update_row_route sv b t i row auth)"
  "guarded sv b auth owner_only tok (delete_row_route sv b t i tok auth)"
  unfolding row_routes
  by (cases tok; simp only: option.case; rule guardedI; intro within_intros blind_intros refl)+

lemma admin_call_guarded: "guarded sv b auth (roles_for req) (request_token req) (admin_call sv b auth req)"
  by (cases req)
    (simp_all add: guarded_reply config_routes_guarded table_routes_guarded delete_table_guarded
       column_routes_guarded row_routes_guarded)

text \<open>Authorising reads the clock once, if there is a token and a secret to decode it with.\<close>

lemma authorize_clock:
  "snd (authorize env token business roles s) = (if ev_secret env = None then s else ticked s)"
proof -
  have rest: "snd (bindC (get_user_by_email e) (\<lambda>found. case found of None \<Rightarrow> raise AdminAuthError
     | Some u \<Rightarrow> if au_role u \<notin> set roles then raise AdminForbiddenError
         else if au_role u \<noteq> PlatformOperator \<and> au_business_id u \<noteq> business then raise AdminForbiddenError
         else ret u) (ticked s)) = ticked s" for e
    by (cases "fst (get_user_by_email e s)") (auto simp: bindC_def get_user_ticked split: option.splits)
  show ?thesis
  proof (cases "fst (decode_access_token env token s)")
    case (Inl e)
    then show ?thesis
      by (auto simp: authorize_def bindC_apply rethrow_apply decode_run split: option.splits sum.splits)
  next
    case (Inr claims)
    then have decoded: "decode_access_token env token s = (Inr claims, ticked s)" and "ev_secret env \<noteq> None"
      by (auto simp: decode_run split: option.splits)
    from decoded have "authorize env token business roles s =
        bindC (get_user_by_email (tk_email claims)) (\<lambda>found. case found of None \<Rightarrow> raise AdminAuthError
         | Some u \<Rightarrow> if au_role u \<notin> set roles then raise AdminForbiddenError
             else if au_role u \<noteq> PlatformOperator \<and> au_business_id u \<noteq> business then raise AdminForbiddenError
             else ret u) (ticked s)"
      unfolding authorize_def by (subst bindC_def) (simp add: rethrow_apply)
    with rest \<open>ev_secret env \<noteq> None\<close> show ?thesis by auto
  qed
qed

lemma admin_authorize_after:
  "snd (admin_authorize sv auth business roles w) =
    (if isl (bearer_token auth) \<or> ev_secret (env_auth sv) = None then w else w\<lparr>bk_admin := ticked (bk_admin w)\<rparr>)"
proof (cases "bearer_token auth")
  case (Inl e)
  then show ?thesis by (simp add: admin_authorize_def bindC_def)
next
  case (Inr token)
  have "snd (admin_authorize sv auth business roles w) =
      w\<lparr>bk_admin := snd (authorize (env_auth sv) token business roles (bk_admin w))\<rparr>"
    using Inr by (simp add: admin_authorize_def bindC_def rethrow_apply on_admin_run split: sum.splits prod.splits)
  with Inr show ?thesis by (simp add: authorize_clock)
qed

lemma admin_authorize_clock:
  assumes "admin_authorize sv auth business roles w = (r, w')"
  shows "only_clock w w'"
proof -
  have "w' = w \<or> w' = w\<lparr>bk_admin := ticked (bk_admin w)\<rparr>"
    using admin_authorize_after [of sv auth business roles w] assms by (simp split: if_splits)
  moreover have "w = w\<lparr>bk_admin := (bk_admin w)\<lparr>as_clock_count := as_clock_count (bk_admin w)\<rparr>\<rparr>" by simp
  ultimately show ?thesis unfolding only_clock_def ticked_def by blast
qed

text \<open>Whoever is admitted, from two states with the same view it leaves two with the same view.\<close>

lemma admitted_view:
  assumes "business_view sv b tok w2 = business_view sv b tok w"
  shows "business_view sv b tok (snd (admin_authorize sv auth business roles w2))
       = business_view sv b tok (snd (admin_authorize sv auth business roles w))"
  using assms by (cases tok) (simp_all add: admin_authorize_after business_view_def admin_view_def ticked_def)

lemma admitted_user:
  assumes "admitted sv b auth roles w user"
  shows "fst (get_user_by_email (au_email user) (bk_admin w)) = Inr (Some user)" and "au_role user \<in> set roles"
    and "au_role user = PlatformOperator \<or> au_business_id user = Some b"
proof -
  from assms obtain token s' where "bearer_token auth = Inr token"
    and "authorize (env_auth sv) token (Some b) roles (bk_admin w) = (Inr user, s')"
    by (cases "bearer_token auth")
      (auto simp: admitted_def admin_authorize_def bindC_def rethrow_apply on_admin_run split: prod.splits sum.splits)
  then obtain e where found: "fst (get_user_by_email e (bk_admin w)) = Inr (Some user)"
    and role: "au_role user \<in> set roles" and scope: "au_role user = PlatformOperator \<or> au_business_id user = Some b"
    unfolding authorize_iff by blast
  from found have "au_email user = e"
    by (auto simp: get_user_by_email_def mapR_Inr_iff find_Some_iff split: option.splits)
  with found role scope
  show "fst (get_user_by_email (au_email user) (bk_admin w)) = Inr (Some user)" and "au_role user \<in> set roles"
    and "au_role user = PlatformOperator \<or> au_business_id user = Some b" by simp_all
qed

text \<open>
  C31: tenant isolation, of effects and of answers. Take any request to any authenticated admin
  route, for any Business in its path. Either it is refused, having read the clock and done nothing
  else; or it runs as a user the admin store has right now, who is the owner of that very Business
  (a platform operator gets in only to read its audit log). Whatever it does then, errors included,
  it changes no other Business's database, no file but this Business's configuration (and its
  temporary copy) and no user; it appends to the audit log only entries for this Business in that
  user's name; and of the confirmation tokens it touches only the one it carries, which may have
  been issued for another Business (see theory Route_Tokens), and those it issues. And what it answers depends on
  nothing but whom it was admitted as and the view of this Business: with every other Business's
  data, every other user, audit entry and token changed, the answer and the view afterwards are the
  same.
\<close>

theorem requests_stay_in_their_business:
  assumes "admin_call sv b auth req w = (r, w')"
  shows "((isl r \<and> only_clock w w' \<and> (\<forall>user. \<not> admitted sv b auth (roles_for req) w user))
      \<or> (\<exists>user. admitted sv b auth (roles_for req) w user
          \<and> fst (get_user_by_email (au_email user) (bk_admin w)) = Inr (Some user)
          \<and> (au_role user = Owner \<and> au_business_id user = Some b \<or> au_role user = PlatformOperator \<and> req = GetAuditLog)
          \<and> within_business sv b (au_email user) (request_token req) w w'))
    \<and> (\<forall>w2. fst (admin_authorize sv auth (Some b) (roles_for req) w2) = fst (admin_authorize sv auth (Some b) (roles_for req) w)
          \<and> business_view sv b (request_token req) w2 = business_view sv b (request_token req) w \<longrightarrow>
          fst (admin_call sv b auth req w2) = r
          \<and> business_view sv b (request_token req) (snd (admin_call sv b auth req w2))
              = business_view sv b (request_token req) w')"
proof -
  let ?adm = "admin_authorize sv auth (Some b) (roles_for req)" and ?view = "business_view sv b (request_token req)"
  obtain f where call: "admin_call sv b auth req = bindC ?adm f"
    and f: "\<And>user. obeys (within_business sv b (au_email user) (request_token req)) (f user)"
    and sees: "\<And>user. blind ?view (f user)"
    using admin_call_guarded unfolding guarded_def by blast
  obtain q w1 where q: "?adm w = (q, w1)" by fastforce
  note clock = admin_authorize_clock [OF q]
  have "fst (admin_call sv b auth req w2) = r \<and> ?view (snd (admin_call sv b auth req w2)) = ?view w'"
    if same: "fst (?adm w2) = fst (?adm w)" "?view w2 = ?view w" for w2
  proof -
    have eq: "?view (snd (?adm w2)) = ?view w1" using admitted_view [OF same(2)] q by simp
    have a2: "?adm w2 = (q, snd (?adm w2))" using same(1) q by (simp add: prod_eq_iff)
    show ?thesis
    proof (cases q)
      case (Inl e)
      with a2 have "bindC ?adm f w2 = (Inl e, snd (?adm w2))" by (intro bindC_Inl) simp
      moreover have "r = Inl e" "w1 = w'" using Inl q assms unfolding call by (simp_all add: bindC_def)
      ultimately show ?thesis using eq unfolding call by simp
    next
      case (Inr user)
      with a2 have "bindC ?adm f w2 = f user (snd (?adm w2))" by (intro bindC_Inr) simp
      moreover have "f user w1 = (r, w')" using Inr q assms unfolding call by (simp add: bindC_def)
      ultimately have "f user w1 = (r, w')" "bindC ?adm f w2 = f user (snd (?adm w2))" by simp_all
      with blindD [OF sees eq] show ?thesis unfolding call by simp
    qed
  qed
  moreover have "(isl r \<and> only_clock w w' \<and> (\<forall>user. \<not> admitted sv b auth (roles_for req) w user))
      \<or> (\<exists>user. admitted sv b auth (roles_for req) w user
          \<and> fst (get_user_by_email (au_email user) (bk_admin w)) = Inr (Some user)
          \<and> (au_role user = Owner \<and> au_business_id user = Some b \<or> au_role user = PlatformOperator \<and> req = GetAuditLog)
          \<and> within_business sv b (au_email user) (request_token req) w w')"
  proof (cases q)
    case (Inl e)
    with q assms call have "r = Inl e" "w1 = w'" by (simp_all add: bindC_def)
    with Inl q clock show ?thesis by (simp add: admitted_def)
  next
    case (Inr user)
    with q have adm: "admitted sv b auth (roles_for req) w user" by (simp add: admitted_def)
    from q Inr assms call have "f user w1 = (r, w')" by (simp add: bindC_def)
    moreover have "within_business sv b (au_email user) (request_token req) w w1"
      using clock by (auto simp: only_clock_def within_business_def grows_def)
    ultimately have "within_business sv b (au_email user) (request_token req) w w'"
      using within_trans obeysD [OF f] by blast
    moreover have "au_role user = Owner \<and> au_business_id user = Some b \<or> au_role user = PlatformOperator \<and> req = GetAuditLog"
      using admitted_user(2,3) [OF adm] by (cases req) (auto simp: owner_only_def owner_and_platform_operator_def)
    ultimately show ?thesis using adm admitted_user(1) [OF adm] by blast
  qed
  ultimately show ?thesis by blast
qed

subsection \<open>Tables and their Tools\<close>

text \<open>A step that leaves the databases and the files alone.\<close>

definition same_data :: "backend \<Rightarrow> backend \<Rightarrow> bool" where
  "same_data w w' \<longleftrightarrow> bk_dbs w' = bk_dbs w \<and> bk_disk w' = bk_disk w"

lemma same_data_trans: "same_data w w1 \<Longrightarrow> same_data w1 w2 \<Longrightarrow> same_data w w2"
  by (simp add: same_data_def)

interpretation same_data: frame same_data
  by unfold_locales (simp add: same_data_def, rule same_data_trans)

lemma quiet_admin: "obeys same_data (on_admin m)"
  by (auto simp: obeys_def on_admin_run same_data_def split: prod.splits)

lemma quiet_authorize: "obeys same_data (admin_authorize sv auth business roles)"
  by (auto simp: obeys_def same_data_def only_clock_def dest!: admin_authorize_clock)

lemma quiet_path: "obeys same_data (config_path sv b)"
  by (auto simp: obeys_def same_data_def config_path_def bindC_def Let_def)

lemma quiet_entity_repo: "obeys same_data (entity_repo sv b)"
  by (auto simp: obeys_def same_data_def entity_repo_def config_path_def bindC_def Let_def split: if_splits)

lemma quiet_confirm: "obeys same_data (confirm_or_400 t)"
  using quiet_admin [of "resolve_confirm_token t"]
  unfolding confirm_or_400_def obeys_def by (auto simp: rethrow_apply split: prod.splits sum.splits)

lemma quiet_request: "obeys same_data (confirmation_request_for d)"
  by (auto simp: obeys_def same_data_def confirmation_request_for_def bindC_def on_admin_run split: prod.splits sum.splits)

lemma quiet_load: "obeys same_data (on_disk (load_business_config io path))"
  by (auto simp: obeys_def same_data_def on_disk_run load_business_config_def)

lemmas quiet_steps = quiet_admin quiet_authorize quiet_path quiet_entity_repo quiet_confirm quiet_request quiet_load

lemma require_listed_run:
  assumes "repo_inv eng tds (bk_dbs w b)"
  shows "require_listed_table b name w =
    (case find_def name tds of None \<Rightarrow> Inl (HTTPException 404) | Some td \<Rightarrow> Inr td, w)"
proof -
  have "find_listed_table name (bk_dbs w b) = (Inr (find_def name tds), bk_dbs w b)"
    by (rule find_listed_table_run [OF assms])
  then have "list_tables (bk_dbs w b) = (Inr (sort_key td_table_name tds), bk_dbs w b)
      \<and> List.find (\<lambda>t. td_table_name t = name) (sort_key td_table_name tds) = find_def name tds"
    using list_tables_run [of "bk_dbs w b" tds] assms
    by (simp add: find_listed_table_def bindC_def repo_inv_def)
  then show ?thesis
    by (auto simp: require_listed_table_def bindC_def on_repo_run split: option.splits)
qed

lemma audit_route_run: "\<exists>w'. audit_route user b action before after w = (Inr (), w') \<and> same_data w w'"
  by (simp add: audit_route_def on_admin_run record_audit_def bindC_def admin_now_def append_audit_log_def same_data_def)

lemma merge_tools: "deep_merge (dump_config c) (tools_patch ts) = dump_config (c\<lparr>bc_tools := ts\<rparr>)"
  by (simp add: tools_patch_def dump_config_def)

definition accepts_tools :: "config_io \<Rightarrow> business_config \<Rightarrow> tool_config list \<Rightarrow> bool" where
  "accepts_tools io config tools \<longleftrightarrow>
     io_validate io (dump_config (config\<lparr>bc_tools := tools\<rparr>)) = Some (config\<lparr>bc_tools := tools\<rparr>)"

lemma update_tools_run:
  assumes "load_business_config io path dk = (Inr current, dk)" and "accepts_tools io current tools"
    and "yaml_round_trip io"
  obtains dk' where "update_business_config io path (tools_patch tools) dk = (Inr (current\<lparr>bc_tools := tools\<rparr>), dk')"
    and "load_business_config io path dk' = (Inr (current\<lparr>bc_tools := tools\<rparr>), dk')"
proof -
  let ?raw = "dump_config (current\<lparr>bc_tools := tools\<rparr>)"
  obtain dk' where wr: "write_business_config_atomically io path ?raw dk = (Inr (), dk')"
    by (simp add: write_atomically_run)
  have keys: "patch_keys [] (tools_patch tools) = [''tools'']" by (simp add: tools_patch_def)
  have "update_business_config io path (tools_patch tools) dk = (Inr (current\<lparr>bc_tools := tools\<rparr>), dk')"
    using assms(1,2) wr
    by (simp add: update_business_config_def keys editable_fields_def bindC_def merge_tools accepts_tools_def Let_def)
  moreover have "load_business_config io path dk' = (Inr (current\<lparr>bc_tools := tools\<rparr>), dk')"
    using assms(2,3) write_atomically_files(3) [OF wr, of path]
    by (simp add: load_business_config_def accepts_tools_def yaml_round_trip_def)
  ultimately show thesis by (rule that)
qed

text \<open>Every table without a linked Tool has its four generated Tools configured.\<close>

definition tools_in_sync :: "table_def list \<Rightarrow> business_config \<Rightarrow> bool" where
  "tools_in_sync tds config \<longleftrightarrow>
     (\<forall>td \<in> set tds. td_tool_linked td = None \<longrightarrow>
        set (crud_tool_names (td_table_name td)) \<subseteq> set (map tl_name (bc_tools config)))"

lemma derived_names: "map tl_name (derive_crud_tool_configs td) = crud_tool_names (td_table_name td)"
proof -
  have "tl_name (crud_tool n d schema c) = n" for n d schema c
    by (simp add: crud_tool_def default_tool_config_def)
  then show ?thesis
    by (simp only: derive_crud_tool_configs_def crud_tool_names_def crud_verbs_def Let_def list.map)
qed

lemma crud_tool_name_inject:
  assumes "verb \<in> set crud_verbs" and "verb' \<in> set crud_verbs" and "crud_tool_name verb t = crud_tool_name verb' t'"
  shows "verb = verb' \<and> t = t'"
proof -
  have cut: "split_once CHR ''_'' (crud_tool_name v n) = Some (v, n)" if "v \<in> set crud_verbs" for v n
    using verbs_no_underscore [OF that] by (simp add: crud_tool_name_def)
  have "Some (verb, t) = Some (verb', t')"
    unfolding cut [OF assms(1), symmetric] cut [OF assms(2), symmetric] by (rule arg_cong [OF assms(3)])
  then show ?thesis by blast
qed

lemma distinct_crud_tool_names: "distinct (crud_tool_names t)"
  unfolding crud_tool_names_def distinct_map
  by (auto simp: crud_verbs_def inj_on_def crud_tool_name_def)

lemma crud_tool_names_disjoint: "t \<noteq> t' \<Longrightarrow> set (crud_tool_names t) \<inter> set (crud_tool_names t') = {}"
  unfolding crud_tool_names_def using crud_tool_name_inject by auto

text \<open>The end of both routes: the configuration is rewritten when its Tools change, the audit written.\<close>

lemma rewrite_tools_run:
  assumes "load_business_config (sv_io sv) path (bk_disk w) = (Inr current, bk_disk w)"
    and "accepts_tools (sv_io sv) current tools" and "yaml_round_trip (sv_io sv)"
    and "\<not> change \<Longrightarrow> tools = bc_tools current"
  obtains w' where "bindC (if change
         then bindC (on_disk (update_business_config (sv_io sv) path (tools_patch tools))) (\<lambda>_. ret ())
         else ret ()) (\<lambda>_. bindC (audit_route user b action before after) (\<lambda>_. ret x)) w = (Inr x, w')"
    and "bk_dbs w' = bk_dbs w"
    and "fst (load_business_config (sv_io sv) path (bk_disk w')) = Inr (current\<lparr>bc_tools := tools\<rparr>)"
proof -
  obtain dk where upd: "update_business_config (sv_io sv) path (tools_patch tools) (bk_disk w)
        = (Inr (current\<lparr>bc_tools := tools\<rparr>), dk)"
    and loaded: "load_business_config (sv_io sv) path dk = (Inr (current\<lparr>bc_tools := tools\<rparr>), dk)"
    using update_tools_run [OF assms(1,2,3)] by blast
  define w1 where "w1 = (if change then w\<lparr>bk_disk := dk\<rparr> else w)"
  have "(if change then bindC (on_disk (update_business_config (sv_io sv) path (tools_patch tools))) (\<lambda>_. ret ())
       else ret ()) w = (Inr (), w1)"
    by (simp add: w1_def bindC_def on_disk_run upd [simplified])
  moreover obtain w' where "audit_route user b action before after w1 = (Inr (), w')" and same: "same_data w1 w'"
    using audit_route_run by blast
  moreover have "fst (load_business_config (sv_io sv) path (bk_disk w1)) = Inr (current\<lparr>bc_tools := tools\<rparr>)"
    using loaded assms(1,4) by (auto simp: w1_def)
  moreover have "bk_dbs w1 = bk_dbs w" by (simp add: w1_def)
  ultimately show thesis by (intro that [of w']) (simp_all add: bindC_def same_data_def)
qed

definition create_table_step :: "server_env \<Rightarrow> string \<Rightarrow> table_def \<Rightarrow> (backend, unit) cmd" where
  "create_table_step sv b td = rethrow create_table_error
     (bindC (entity_repo sv b) (\<lambda>_. on_repo b (create_table (sv_eng sv) td)))"

lemma create_table_step_run:
  assumes "create_table_step sv b td w = (q, w')"
  shows "(\<exists>e. q = Inl e) \<and> same_data w w'
    \<or> q = Inr () \<and> creatable td (bk_dbs w b) \<and> bk_disk w' = bk_disk w \<and> bk_dbs w' b = created td (bk_dbs w b)"
proof -
  obtain p w1 where repo: "entity_repo sv b w = (p, w1)" by fastforce
  note same = obeysD [OF quiet_entity_repo repo]
  obtain c db where made: "create_table (sv_eng sv) td (bk_dbs w1 b) = (c, db)" by fastforce
  show ?thesis
  proof (cases p)
    case (Inl e)
    with assms repo same show ?thesis by (auto simp: create_table_step_def bindC_def rethrow_apply)
  next
    case (Inr u)
    with assms repo same made create_table_cases [OF made] show ?thesis
      by (cases c) (auto simp: create_table_step_def bindC_def rethrow_apply on_repo_run same_data_def)
  qed
qed

definition create_with_tools ::
  "server_env \<Rightarrow> string \<Rightarrow> table_def \<Rightarrow> string \<Rightarrow> business_config \<Rightarrow> admin_user \<Rightarrow> (backend, table_def) cmd" where
  "create_with_tools sv b td path current user =
     (if set (map tl_name (bc_tools current)) \<inter> set (map tl_name (new_tool_configs td)) \<noteq> {} then raise (HTTPException 409)
      else bindC (create_table_step sv b td) (\<lambda>_.
        bindC (if new_tool_configs td \<noteq> []
            then bindC (on_disk (update_business_config (sv_io sv) path
                   (tools_patch (bc_tools current @ new_tool_configs td)))) (\<lambda>_. ret ())
            else ret ()) (\<lambda>_. bindC (audit_route user b ''table.create'' None (Some (table_json sv td))) (\<lambda>_. ret td))))"

text \<open>What creating a table comes to, with \<open>config\<close> the configuration file at \<open>path\<close> before.\<close>

definition created_together ::
  "server_env \<Rightarrow> string \<Rightarrow> table_def \<Rightarrow> string \<Rightarrow> business_config \<Rightarrow> table_def result \<Rightarrow> backend \<Rightarrow> backend \<Rightarrow> bool" where
  "created_together sv b td path current r w w' \<longleftrightarrow>
     r = Inr td \<and> creatable td (bk_dbs w b) \<and> bk_dbs w' b = created td (bk_dbs w b)
     \<and> set (map tl_name (bc_tools current)) \<inter> set (map tl_name (new_tool_configs td)) = {}
     \<and> fst (load_business_config (sv_io sv) path (bk_disk w'))
         = Inr (current\<lparr>bc_tools := bc_tools current @ new_tool_configs td\<rparr>)"

lemma create_with_tools_run:
  assumes run: "create_with_tools sv b td path current user w = (r, w')" and rt: "yaml_round_trip (sv_io sv)"
    and load: "load_business_config (sv_io sv) path (bk_disk w) = (Inr current, bk_disk w)"
    and accepted: "accepts_tools (sv_io sv) current (bc_tools current @ new_tool_configs td)"
  shows "(\<exists>e. r = Inl e) \<and> same_data w w' \<or> created_together sv b td path current r w w'"
proof (cases "set (map tl_name (bc_tools current)) \<inter> set (map tl_name (new_tool_configs td)) = {}")
  case False
  with run show ?thesis by (auto simp: create_with_tools_def same_data_def)
next
  case apart: True
  obtain q w1 where step: "create_table_step sv b td w = (q, w1)" by fastforce
  from create_table_step_run [OF step] show ?thesis
  proof (elim disjE conjE exE)
    fix e assume "q = Inl e" "same_data w w1"
    with run step apart show ?thesis by (auto simp: create_with_tools_def bindC_def)
  next
    assume q: "q = Inr ()" and new: "creatable td (bk_dbs w b)"
      "bk_disk w1 = bk_disk w" "bk_dbs w1 b = created td (bk_dbs w b)"
    let ?tools = "bc_tools current @ new_tool_configs td"
    from load have load1: "load_business_config (sv_io sv) path (bk_disk w1) = (Inr current, bk_disk w1)"
      unfolding new(2) .
    have none: "?tools = bc_tools current" if "\<not> new_tool_configs td \<noteq> []" using that by simp
    obtain w2 where "bindC (if new_tool_configs td \<noteq> []
          then bindC (on_disk (update_business_config (sv_io sv) path (tools_patch ?tools))) (\<lambda>_. ret ())
          else ret ()) (\<lambda>_. bindC (audit_route user b ''table.create'' None (Some (table_json sv td))) (\<lambda>_. ret td)) w1
        = (Inr td, w2)"
      and "bk_dbs w2 = bk_dbs w1"
      and "fst (load_business_config (sv_io sv) path (bk_disk w2)) = Inr (current\<lparr>bc_tools := ?tools\<rparr>)"
      by (rule rewrite_tools_run [OF load1 accepted rt, where change = "new_tool_configs td \<noteq> []"])
        (erule none, rule that)
    with run step q apart new show ?thesis
      unfolding create_with_tools_def created_together_def
      by (subst (asm) if_not_P) (simp, subst (asm) bindC_def, simp)
  qed
qed

lemma create_route_run:
  assumes "create_table_route sv b td auth w = (r, w')"
    and "yaml_round_trip (sv_io sv)"
    and "load_business_config (sv_io sv) (business_yaml sv b) (bk_disk w) = (Inr current, bk_disk w)"
    and "accepts_tools (sv_io sv) current (bc_tools current @ new_tool_configs td)"
  shows "(\<exists>e. r = Inl e) \<and> same_data w w' \<or> created_together sv b td (business_yaml sv b) current r w w'"
  using assms(1) unfolding create_table_route_def create_table_step_def [symmetric]
proof (cases rule: same_data.step [OF _ quiet_authorize, consumes 1, case_names refused admitted])
  case (admitted user w1)
  from admitted(3) show ?thesis
  proof (cases rule: same_data.step [OF _ quiet_path, consumes 1, case_names no_file found])
    case (found path w2)
    have path: "path = business_yaml sv b" and w2: "w2 = w1"
      using found(1) by (auto simp: config_path_def Let_def bindC_def split: if_splits)
    have load: "load_business_config (sv_io sv) path (bk_disk w1) = (Inr current, bk_disk w1)"
      using assms(3) admitted(2) unfolding path same_data_def by simp
    from found(3) have "create_with_tools sv b td path current user w1 = (r, w')"
      unfolding w2 create_with_tools_def by (subst (asm) bindC_def) (simp add: on_disk_run load Let_def)
    from create_with_tools_run [OF this assms(2) load assms(4)] admitted(2) show ?thesis
      unfolding path created_together_def same_data_def by auto
  qed (auto intro: same_data_trans admitted)
qed auto

text \<open>
  C32: a table and its Tools appear together. Let the Business's configuration file load and the
  validator accept it with the new Tools. A create-table request that raises leaves every database
  and every file as it was. One that succeeds has added exactly that table to the catalogue and, for
  a table not linked to a Tool, exactly its four generated Tools, after those already there, to the
  configuration the next reader loads; the new names clash with none, and if every table had its
  Tools before, every table has them now.
\<close>

theorem create_table_adds_its_tools:
  assumes "create_table_route sv b td auth w = (r, w')" and "repo_inv (sv_eng sv) tds (bk_dbs w b)"
    and "yaml_round_trip (sv_io sv)"
    and "load_business_config (sv_io sv) (business_yaml sv b) (bk_disk w) = (Inr current, bk_disk w)"
    and "accepts_tools (sv_io sv) current (bc_tools current @ new_tool_configs td)"
  shows "case r of
      Inl e \<Rightarrow> bk_dbs w' = bk_dbs w \<and> bk_disk w' = bk_disk w
    | Inr td' \<Rightarrow> td' = td \<and> repo_inv (sv_eng sv) (tds @ [td]) (bk_dbs w' b)
        \<and> (\<exists>config. fst (load_business_config (sv_io sv) (business_yaml sv b) (bk_disk w')) = Inr config
             \<and> config = current\<lparr>bc_tools := bc_tools current
                 @ (if td_tool_linked td = None then derive_crud_tool_configs td else [])\<rparr>
             \<and> (distinct (map tl_name (bc_tools current)) \<longrightarrow> distinct (map tl_name (bc_tools config)))
             \<and> (tools_in_sync tds current \<longrightarrow> tools_in_sync (tds @ [td]) config))"
proof (cases r)
  case (Inl e)
  with create_route_run [OF assms(1,3,4,5)] show ?thesis by (auto simp: same_data_def created_together_def)
next
  case (Inr td')
  let ?config = "current\<lparr>bc_tools := bc_tools current @ new_tool_configs td\<rparr>"
  from create_route_run [OF assms(1,3,4,5)] Inr have td': "td' = td" and ok: "creatable td (bk_dbs w b)"
    and db: "bk_dbs w' b = created td (bk_dbs w b)"
    and apart: "set (map tl_name (bc_tools current)) \<inter> set (map tl_name (new_tool_configs td)) = {}"
    and loads: "fst (load_business_config (sv_io sv) (business_yaml sv b) (bk_disk w')) = Inr ?config"
    by (auto simp: created_together_def)
  have names: "map tl_name (new_tool_configs td) =
      (if td_tool_linked td = None then crud_tool_names (td_table_name td) else [])"
    by (simp add: new_tool_configs_def derived_names)
  have "distinct (map tl_name (new_tool_configs td))"
    unfolding names by (simp add: distinct_crud_tool_names)
  with apart have "distinct (map tl_name (bc_tools current)) \<longrightarrow> distinct (map tl_name (bc_tools ?config))" by simp
  moreover have "tools_in_sync tds current \<longrightarrow> tools_in_sync (tds @ [td]) ?config"
    using names by (auto simp: tools_in_sync_def simp flip: set_map)
  moreover have "repo_inv (sv_eng sv) (tds @ [td]) (bk_dbs w' b)"
    unfolding db by (rule repo_inv_created [OF assms(2) ok])
  ultimately show ?thesis using loads unfolding Inr td' by (simp add: new_tool_configs_def)
qed

lemma loaded_path:
  assumes "load_business_config io (business_yaml sv b) (bk_disk w) = (Inr c, dk)"
  shows "config_path sv b w = (Inr (business_yaml sv b), w)"
  using assms by (auto simp: load_business_config_def config_path_def is_file_def bindC_def Let_def split: option.splits)

definition without_tools_of :: "string \<Rightarrow> business_config \<Rightarrow> business_config" where
  "without_tools_of name c = c\<lparr>bc_tools := filter (\<lambda>t. tl_name t \<notin> set (crud_tool_names name)) (bc_tools c)\<rparr>"

text \<open>The confirmed part of the route, from the drop on.\<close>

definition drop_with_tools :: "server_env \<Rightarrow> string \<Rightarrow> string \<Rightarrow> (backend, unit) cmd \<Rightarrow> (backend, deletion) cmd" where
  "drop_with_tools sv b name audited =
     bindC (on_repo b (drop_table name)) (\<lambda>_.
     bindC (config_path sv b) (\<lambda>path.
     bindC (on_disk (load_business_config (sv_io sv) path)) (\<lambda>current.
     let removed_names = crud_tool_names name;
         remaining = filter (\<lambda>t. tl_name t \<notin> set removed_names) (bc_tools current)
     in
     bindC (if length remaining \<noteq> length (bc_tools current)
            then bindC (on_disk (update_business_config (sv_io sv) path (tools_patch remaining))) (\<lambda>_. ret ())
            else ret ()) (\<lambda>_.
     bindC audited (\<lambda>_.
     ret Deleted)))))"

lemma drop_with_tools_run:
  assumes inv: "repo_inv (sv_eng sv) tds (bk_dbs w b)" and td: "find_def name tds = Some td"
    and "yaml_round_trip (sv_io sv)"
    and load: "load_business_config (sv_io sv) (business_yaml sv b) (bk_disk w) = (Inr current, bk_disk w)"
    and "accepts_tools (sv_io sv) current (filter (\<lambda>t. tl_name t \<notin> set (crud_tool_names name)) (bc_tools current))"
  obtains w' where "drop_with_tools sv b name (audit_route user b action before after) w = (Inr Deleted, w')"
    and "bk_dbs w' b = dropped name td (bk_dbs w b)"
    and "fst (load_business_config (sv_io sv) (business_yaml sv b) (bk_disk w')) = Inr (without_tools_of name current)"
proof -
  let ?tools = "filter (\<lambda>t. tl_name t \<notin> set (crud_tool_names name)) (bc_tools current)"
  let ?w1 = "w\<lparr>bk_dbs := (bk_dbs w)(b := dropped name td (bk_dbs w b))\<rparr>"
  have drop: "on_repo b (drop_table name) w = (Inr (), ?w1)"
    using drop_table_run [OF inv] td by (simp add: on_repo_run)
  have load1: "load_business_config (sv_io sv) (business_yaml sv b) (bk_disk ?w1) = (Inr current, bk_disk ?w1)"
    using load by simp
  have same: "?tools = bc_tools current" if "\<not> length ?tools \<noteq> length (bc_tools current)"
    using that length_filter_less [of _ "bc_tools current" "\<lambda>t. tl_name t \<notin> set (crud_tool_names name)"]
    by (intro filter_True) (auto simp: less_le)
  obtain w' where run: "bindC (if length ?tools \<noteq> length (bc_tools current)
         then bindC (on_disk (update_business_config (sv_io sv) (business_yaml sv b) (tools_patch ?tools))) (\<lambda>_. ret ())
         else ret ()) (\<lambda>_. bindC (audit_route user b action before after) (\<lambda>_. ret Deleted)) ?w1 = (Inr Deleted, w')"
    and dbs: "bk_dbs w' = bk_dbs ?w1"
    and loads: "fst (load_business_config (sv_io sv) (business_yaml sv b) (bk_disk w')) = Inr (current\<lparr>bc_tools := ?tools\<rparr>)"
    by (rule rewrite_tools_run [OF load1 assms(5,3), where change = "length ?tools \<noteq> length (bc_tools current)"])
      (erule same, rule that)
  have disk: "on_disk (load_business_config (sv_io sv) (business_yaml sv b)) ?w1 = (Inr current, ?w1)"
    using load1 by (simp add: on_disk_run)
  note steps = bindC_Inr [where m = "on_repo b (drop_table name)", OF drop]
    bindC_Inr [where m = "config_path sv b", OF loaded_path [OF load1]]
    bindC_Inr [where m = "on_disk (load_business_config (sv_io sv) (business_yaml sv b))", OF disk]
  have "drop_with_tools sv b name (audit_route user b action before after) w = (Inr Deleted, w')"
    unfolding drop_with_tools_def steps Let_def by (rule run)
  then show thesis
    by (rule that) (simp_all add: dbs loads without_tools_of_def)
qed

text \<open>The route drops the table before it reads the configuration: when that fails, the table is gone.\<close>

definition unread_error :: "server_env \<Rightarrow> string \<Rightarrow> disk \<Rightarrow> exn" where
  "unread_error sv b dk = (if is_file (business_yaml sv b) dk then BusinessConfigError else HTTPException 404)"

lemma drop_unread_run:
  assumes inv: "repo_inv (sv_eng sv) tds (bk_dbs w b)" and td: "find_def name tds = Some td"
    and load: "fst (load_business_config (sv_io sv) (business_yaml sv b) (bk_disk w)) = Inl e"
  shows "drop_with_tools sv b name audited w =
    (Inl (unread_error sv b (bk_disk w)), w\<lparr>bk_dbs := (bk_dbs w)(b := dropped name td (bk_dbs w b))\<rparr>)"
proof -
  let ?w1 = "w\<lparr>bk_dbs := (bk_dbs w)(b := dropped name td (bk_dbs w b))\<rparr>"
  have drop: "on_repo b (drop_table name) w = (Inr (), ?w1)"
    using drop_table_run [OF inv] td by (simp add: on_repo_run)
  note drop = bindC_Inr [where m = "on_repo b (drop_table name)", OF drop]
  show ?thesis
  proof (cases "is_file (business_yaml sv b) (bk_disk w)")
    case False
    then have "config_path sv b ?w1 = (Inl (HTTPException 404), ?w1)"
      by (simp add: config_path_def bindC_def Let_def)
    from bindC_Inl [where m = "config_path sv b", OF this] False show ?thesis
      unfolding drop_with_tools_def drop by (simp add: unread_error_def)
  next
    case True
    then have path: "config_path sv b ?w1 = (Inr (business_yaml sv b), ?w1)"
      by (simp add: config_path_def bindC_def Let_def)
    have loaded: "on_disk (load_business_config (sv_io sv) (business_yaml sv b)) ?w1 = (Inl BusinessConfigError, ?w1)"
      using load by (auto simp: on_disk_run load_business_config_def split: option.splits json.splits)
    note steps = bindC_Inr [where m = "config_path sv b", OF path]
      bindC_Inl [where m = "on_disk (load_business_config (sv_io sv) (business_yaml sv b))", OF loaded]
    show ?thesis unfolding drop_with_tools_def drop steps using True by (simp add: unread_error_def)
  qed
qed

text \<open>What deleting a table comes to, with what the configuration file loaded as before.\<close>

definition deleted_together ::
  "server_env \<Rightarrow> string \<Rightarrow> string \<Rightarrow> string option \<Rightarrow> table_def list
     \<Rightarrow> deletion result \<Rightarrow> backend \<Rightarrow> backend \<Rightarrow> bool" where
  "deleted_together sv b name tok tds r w w' \<longleftrightarrow>
     (\<exists>t td. tok = Some t \<and> find_def name tds = Some td \<and> bk_dbs w' b = dropped name td (bk_dbs w b)
        \<and> (case fst (load_business_config (sv_io sv) (business_yaml sv b) (bk_disk w)) of
             Inr current \<Rightarrow> r = Inr Deleted
               \<and> fst (load_business_config (sv_io sv) (business_yaml sv b) (bk_disk w')) = Inr (without_tools_of name current)
           | Inl e \<Rightarrow> r = Inl (unread_error sv b (bk_disk w)) \<and> bk_disk w' = bk_disk w))"

lemma deleted_after_same:
  "same_data w w1 \<Longrightarrow> deleted_together sv b name tok tds r w1 w' \<Longrightarrow> deleted_together sv b name tok tds r w w'"
  unfolding deleted_together_def same_data_def by (elim conjE) (simp split: sum.splits)

text \<open>What the validator is relied on for: a configuration that loads is still valid without the Tools.\<close>

definition drops_tools :: "server_env \<Rightarrow> string \<Rightarrow> string \<Rightarrow> disk \<Rightarrow> bool" where
  "drops_tools sv b name dk \<longleftrightarrow>
     (case fst (load_business_config (sv_io sv) (business_yaml sv b) dk) of
        Inl e \<Rightarrow> True
      | Inr current \<Rightarrow> accepts_tools (sv_io sv) current
          (filter (\<lambda>t. tl_name t \<notin> set (crud_tool_names name)) (bc_tools current)))"

lemma confirmed_drop_run:
  assumes run: "drop_with_tools sv b name (audit_route user b action before after) w = (r, w')"
    and inv: "repo_inv (sv_eng sv) tds (bk_dbs w b)" and td: "find_def name tds = Some td"
    and rt: "yaml_round_trip (sv_io sv)" and accepted: "drops_tools sv b name (bk_disk w)"
  shows "deleted_together sv b name (Some t) tds r w w'"
proof (cases "fst (load_business_config (sv_io sv) (business_yaml sv b) (bk_disk w))")
  case (Inl e)
  from drop_unread_run [OF inv td Inl] run td Inl show ?thesis by (auto simp: deleted_together_def)
next
  case (Inr current)
  then have load: "load_business_config (sv_io sv) (business_yaml sv b) (bk_disk w) = (Inr current, bk_disk w)"
    using load_keeps_disk by (metis prod.collapse)
  have accepted': "accepts_tools (sv_io sv) current (filter (\<lambda>t. tl_name t \<notin> set (crud_tool_names name)) (bc_tools current))"
    using accepted Inr by (simp add: drops_tools_def)
  obtain w2 where "drop_with_tools sv b name (audit_route user b action before after) w = (Inr Deleted, w2)"
    and "bk_dbs w2 b = dropped name td (bk_dbs w b)"
    and "fst (load_business_config (sv_io sv) (business_yaml sv b) (bk_disk w2)) = Inr (without_tools_of name current)"
    by (rule drop_with_tools_run [OF inv td rt load accepted']) (rule that)
  with run td Inr show ?thesis by (auto simp: deleted_together_def)
qed

lemma delete_listed_run:
  assumes run: "(case tok of
        None \<Rightarrow> confirmation_request_for description
      | Some t \<Rightarrow> bindC (confirm_or_400 t) (\<lambda>_. drop_with_tools sv b name
            (audit_route user b ''table.delete'' (Some (table_json sv td)) None))) w = (r, w')"
    and inv: "repo_inv (sv_eng sv) tds (bk_dbs w b)" and td: "find_def name tds = Some td"
    and rt: "yaml_round_trip (sv_io sv)" and accepted: "drops_tools sv b name (bk_disk w)"
  shows "r \<noteq> Inr Deleted \<and> same_data w w' \<or> deleted_together sv b name tok tds r w w'"
proof (cases tok)
  case None
  with run have "confirmation_request_for description w = (r, w')" by simp
  with obeysD [OF quiet_request this] show ?thesis
    by (auto simp: confirmation_request_for_def bindC_def split: prod.splits sum.splits)
next
  case tok: (Some t)
  from run [unfolded tok option.case] show ?thesis
  proof (cases rule: same_data.step [OF _ quiet_confirm, consumes 1, case_names denied confirmed])
    case (denied e)
    then show ?thesis by blast
  next
    case (confirmed u w1)
    have inv1: "repo_inv (sv_eng sv) tds (bk_dbs w1 b)" and acc1: "drops_tools sv b name (bk_disk w1)"
      using inv accepted confirmed(2) by (simp_all add: same_data_def)
    from deleted_after_same [OF confirmed(2) confirmed_drop_run [OF confirmed(3) inv1 td rt acc1]] tok
    show ?thesis by simp
  qed
qed

lemma delete_route_run:
  assumes "delete_table_route sv b name tok auth w = (r, w')" and inv: "repo_inv (sv_eng sv) tds (bk_dbs w b)"
    and "yaml_round_trip (sv_io sv)" and acc: "drops_tools sv b name (bk_disk w)"
  shows "r \<noteq> Inr Deleted \<and> same_data w w' \<or> deleted_together sv b name tok tds r w w'"
  using assms(1) unfolding delete_table_route_def drop_with_tools_def [symmetric]
proof (cases rule: same_data.step [OF _ quiet_authorize, consumes 1, case_names refused admitted])
  case (admitted user w1)
  from admitted(3) show ?thesis
  proof (cases rule: same_data.step [OF _ quiet_entity_repo, consumes 1, case_names no_file opened])
    case (opened u w2)
    note same = same_data_trans [OF admitted(2) opened(2)]
    have inv2: "repo_inv (sv_eng sv) tds (bk_dbs w2 b)" and acc2: "drops_tools sv b name (bk_disk w2)"
      using inv acc same by (simp_all add: same_data_def)
    note listed = require_listed_run [OF inv2, of name]
    show ?thesis
    proof (cases "find_def name tds")
      case None
      with listed have "require_listed_table b name w2 = (Inl (HTTPException 404), w2)" by simp
      from opened(3) [unfolded bindC_Inl [where m = "require_listed_table b name", OF this]] same show ?thesis by auto
    next
      case (Some td)
      with listed have "require_listed_table b name w2 = (Inr td, w2)" by simp
      from delete_listed_run [OF opened(3) [unfolded bindC_Inr [where m = "require_listed_table b name", OF this]]
          inv2 Some assms(3) acc2] same
      show ?thesis using same_data_trans deleted_after_same by blast
    qed
  qed (auto intro: same_data_trans admitted)
qed auto

lemma remaining_in_sync:
  assumes "tools_in_sync tds current"
  shows "tools_in_sync (without_table name tds) (without_tools_of name current)"
  unfolding tools_in_sync_def
proof (intro ballI impI subsetI)
  fix d tool
  assume d: "d \<in> set (without_table name tds)" "td_tool_linked d = None"
    and tool: "tool \<in> set (crud_tool_names (td_table_name d))"
  from d assms tool have "tool \<in> tl_name ` set (bc_tools current)"
    by (auto simp: tools_in_sync_def without_table_def)
  moreover have "tool \<notin> set (crud_tool_names name)"
    using crud_tool_names_disjoint [of "td_table_name d" name] d tool by (auto simp: without_table_def)
  ultimately show "tool \<in> set (map tl_name (bc_tools (without_tools_of name current)))"
    by (auto simp: without_tools_of_def)
qed


subsection \<open>Witnesses\<close>

text \<open>The owner of \<open>acme\<close>, with its configuration and two tables, and a token for a row of one of them.\<close>

definition demo_office :: backend where
  "demo_office =
     \<lparr>bk_admin = demo_admin\<lparr>as_pending := [(''tok0'', ''Delete row '7' from acme/notes'', 300)]\<rparr>,
      bk_disk = \<lparr>dk_files = [(''businesses/acme/business.yaml'', ''K'')], dk_dirs = [''businesses'', ''businesses/acme'']\<rparr>,
      bk_dbs = (\<lambda>_. demo_repo), bk_repos = []\<rparr>"

text \<open>The same office with another Business beside it: a user, an audit entry, a token, a database, a file.\<close>

definition demo_neighbours :: backend where
  "demo_neighbours = demo_office
     \<lparr>bk_admin := (bk_admin demo_office)
        \<lparr>as_users := as_users (bk_admin demo_office) @
           [\<lparr>ur_email = ''x@other'', ur_password_hash = ''h'', ur_role = ''owner'', ur_business_id = Some ''other''\<rparr>],
         as_audit := as_audit (bk_admin demo_office) @
           [\<lparr>al_id = Some 9, al_actor_email = ''x@other'', al_business_id = Some ''other'', al_action = ''table.create'',
             al_before = None, al_after = None, al_timestamp = 0\<rparr>],
         as_pending := as_pending (bk_admin demo_office) @ [(''tok9'', ''Delete table 'x' from other'', 300)]\<rparr>,
      bk_disk := (bk_disk demo_office)\<lparr>dk_files := dk_files (bk_disk demo_office) @ [(''businesses/other/business.yaml'', ''T'')]\<rparr>,
      bk_dbs := (bk_dbs demo_office)(''other'' := demo_file)\<rparr>"

lemma requests_stay_in_their_business_witness:
  "(\<exists>user. admitted demo_server ''acme'' (Some ''Bearer jwt'') owner_only demo_office user
      \<and> within_business demo_server ''acme'' (au_email user) None demo_office
          (snd (admin_call demo_server ''acme'' (Some ''Bearer jwt'') ListTables demo_office)))
   \<and> only_clock demo_office (snd (admin_call demo_server ''other'' (Some ''Bearer jwt'') ListTables demo_office))
   \<and> fst (admin_call demo_server ''acme'' (Some ''Bearer jwt'') GetAuditLog demo_neighbours)
       = fst (admin_call demo_server ''acme'' (Some ''Bearer jwt'') GetAuditLog demo_office)"
proof -
  have ok: "\<not> isl (fst (admin_call demo_server ''acme'' (Some ''Bearer jwt'') ListTables demo_office))"
    and refused: "isl (fst (admin_authorize demo_server (Some ''Bearer jwt'') (Some ''other'') owner_only demo_office))"
    and adm: "fst (admin_authorize demo_server (Some ''Bearer jwt'') (Some ''acme'') (roles_for GetAuditLog) demo_neighbours)
      = fst (admin_authorize demo_server (Some ''Bearer jwt'') (Some ''acme'') (roles_for GetAuditLog) demo_office)"
    by code_simp+
  have view: "business_view demo_server ''acme'' None demo_neighbours = business_view demo_server ''acme'' None demo_office"
    by (simp add: business_view_def admin_view_def demo_neighbours_def demo_office_def business_yaml_def business_dir_def
        demo_server_def auth_env.extend_def)
  from refused have none: "\<not> admitted demo_server ''other'' (Some ''Bearer jwt'') owner_only demo_office user" for user
    by (auto simp: admitted_def)
  note stays = requests_stay_in_their_business [OF prod.collapse [symmetric]]
  have "\<exists>user. admitted demo_server ''acme'' (Some ''Bearer jwt'') owner_only demo_office user
      \<and> within_business demo_server ''acme'' (au_email user) None demo_office
          (snd (admin_call demo_server ''acme'' (Some ''Bearer jwt'') ListTables demo_office))"
    using stays [where sv = demo_server and b = "''acme''" and auth = "Some ''Bearer jwt''" and req = ListTables and w = demo_office,
      THEN conjunct1] ok
    unfolding roles_for.simps request_token.simps by blast
  moreover have "only_clock demo_office (snd (admin_call demo_server ''other'' (Some ''Bearer jwt'') ListTables demo_office))"
    using stays [where sv = demo_server and b = "''other''" and auth = "Some ''Bearer jwt''" and req = ListTables and w = demo_office,
      THEN conjunct1] none
    unfolding roles_for.simps by blast
  moreover have "fst (admin_call demo_server ''acme'' (Some ''Bearer jwt'') GetAuditLog demo_neighbours)
       = fst (admin_call demo_server ''acme'' (Some ''Bearer jwt'') GetAuditLog demo_office)"
    using stays [where sv = demo_server and b = "''acme''" and auth = "Some ''Bearer jwt''" and req = GetAuditLog and w = demo_office,
      THEN conjunct2] adm view
    unfolding request_token.simps by blast
  ultimately show ?thesis by blast
qed

text \<open>An instance of the libraries that also knows the configuration with the Tools of one table.\<close>

definition demo_tools_config :: business_config where
  "demo_tools_config = demo_signup_config\<lparr>bc_tools := derive_crud_tool_configs demo_table\<rparr>"

definition demo_tools_io :: config_io where
  "demo_tools_io =
     \<lparr>io_load = (\<lambda>t. if t = ''K'' then Some (JObj (dump_config demo_signup_config))
                     else if t = ''T'' then Some (JObj (dump_config demo_tools_config)) else None),
      io_dump = (\<lambda>raw. if raw = dump_config demo_tools_config then ''T'' else ''K''),
      io_validate = (\<lambda>raw. if raw = dump_config demo_signup_config then Some demo_signup_config
                     else if raw = dump_config demo_tools_config then Some demo_tools_config else None)\<rparr>"

definition demo_tools_server :: server_env where
  "demo_tools_server = demo_server\<lparr>sv_io := demo_tools_io\<rparr>"

definition demo_new_office :: backend where
  "demo_new_office = demo_office\<lparr>bk_dbs := (\<lambda>_. demo_file)\<rparr>"

definition demo_full_office :: backend where
  "demo_full_office = demo_office\<lparr>bk_disk := \<lparr>dk_files = [(''businesses/acme/business.yaml'', ''T'')], dk_dirs = []\<rparr>\<rparr>"

lemma demo_tools_no_base: "bc_tools demo_signup_config = []"
  by (simp add: demo_signup_config_def create_business_config_def business_id_match_def matches_at_dollar_def
      slug_char_def is_lower_def is_digit_def demo_business_def)

lemma demo_tools_differ: "demo_tools_config \<noteq> demo_signup_config"
proof
  assume "demo_tools_config = demo_signup_config"
  then have "bc_tools demo_tools_config = bc_tools demo_signup_config" by simp
  then show False by (simp add: demo_tools_config_def demo_tools_no_base derive_crud_tool_configs_def Let_def)
qed

lemma demo_tools_round_trip: "yaml_round_trip (sv_io demo_tools_server)"
  using demo_tools_differ
  by (simp add: demo_tools_server_def yaml_round_trip_def demo_tools_io_def dump_config_inject)

lemma demo_accepts:
  "accepts_tools (sv_io demo_tools_server) demo_signup_config (bc_tools demo_signup_config @ new_tool_configs demo_table)"
  "accepts_tools (sv_io demo_tools_server) demo_tools_config
     (filter (\<lambda>t. tl_name t \<notin> set (crud_tool_names ''rooms'')) (bc_tools demo_tools_config))"
proof -
  have new: "new_tool_configs demo_table = derive_crud_tool_configs demo_table"
    by (simp add: new_tool_configs_def demo_table_def)
  have none: "filter (\<lambda>t. tl_name t \<notin> set (crud_tool_names ''rooms'')) (derive_crud_tool_configs demo_table) = []"
  proof -
    have "td_table_name demo_table = ''rooms''" by (simp add: demo_table_def)
    then have "tl_name ` set (derive_crud_tool_configs demo_table) = set (crud_tool_names ''rooms'')"
      using derived_names [of demo_table] by (metis set_map)
    then show ?thesis unfolding filter_empty_conv by blast
  qed
  have emptied: "demo_tools_config\<lparr>bc_tools := []\<rparr> = demo_signup_config"
    by (simp add: demo_tools_config_def flip: demo_tools_no_base)
  show "accepts_tools (sv_io demo_tools_server) demo_signup_config (bc_tools demo_signup_config @ new_tool_configs demo_table)"
    unfolding new demo_tools_no_base append_Nil accepts_tools_def demo_tools_config_def [symmetric]
    using demo_tools_differ by (simp add: demo_tools_server_def demo_tools_io_def dump_config_inject)
  have tools: "bc_tools demo_tools_config = derive_crud_tool_configs demo_table"
    by (simp add: demo_tools_config_def)
  show "accepts_tools (sv_io demo_tools_server) demo_tools_config
     (filter (\<lambda>t. tl_name t \<notin> set (crud_tool_names ''rooms'')) (bc_tools demo_tools_config))"
    unfolding tools none accepts_tools_def emptied
    by (simp add: demo_tools_server_def demo_tools_io_def)
qed

lemma demo_loads:
  "fst (load_business_config (sv_io demo_tools_server) (business_yaml demo_tools_server ''acme'') (bk_disk demo_new_office))
     = Inr demo_signup_config"
  "fst (load_business_config (sv_io demo_tools_server) (business_yaml demo_tools_server ''acme'') (bk_disk demo_full_office))
     = Inr demo_tools_config"
  using demo_tools_differ
  by (simp_all add: load_business_config_def demo_tools_server_def demo_tools_io_def dump_config_inject business_yaml_def
      business_dir_def demo_server_def auth_env.extend_def demo_new_office_def demo_full_office_def demo_office_def)

lemma demo_table_runs:
  "\<not> isl (fst (create_table_route demo_tools_server ''acme'' demo_table (Some ''Bearer jwt'') demo_new_office))"
  "fst (delete_table_route demo_tools_server ''acme'' ''rooms'' (Some ''tok0'') (Some ''Bearer jwt'') demo_full_office)
     = Inr Deleted"
  by code_simp+

lemma create_table_adds_its_tools_witness:
  "\<exists>config. fst (load_business_config (sv_io demo_tools_server) (business_yaml demo_tools_server ''acme'')
      (bk_disk (snd (create_table_route demo_tools_server ''acme'' demo_table (Some ''Bearer jwt'') demo_new_office)))) = Inr config
    \<and> tools_in_sync [demo_table] config"
proof -
  let ?run = "create_table_route demo_tools_server ''acme'' demo_table (Some ''Bearer jwt'') demo_new_office"
  obtain td where ok: "fst ?run = Inr td" using demo_table_runs(1) by (metis sum.collapse(2))
  have inv: "repo_inv (sv_eng demo_tools_server) [] (bk_dbs demo_new_office ''acme'')"
    by (simp add: demo_new_office_def demo_file_def repo_inv_open)
  have load: "load_business_config (sv_io demo_tools_server) (business_yaml demo_tools_server ''acme'') (bk_disk demo_new_office)
      = (Inr demo_signup_config, bk_disk demo_new_office)"
    using demo_loads(1) load_keeps_disk by (metis prod.collapse)
  have "tools_in_sync [] demo_signup_config" by (simp add: tools_in_sync_def)
  with create_table_adds_its_tools [OF prod.collapse [symmetric] inv demo_tools_round_trip load demo_accepts(1), of "Some ''Bearer jwt''"]
  show ?thesis unfolding ok sum.case append_Nil by blast
qed


text \<open>The same deletion with an unreadable configuration file: an error, and the table is gone.\<close>

definition demo_torn_office :: backend where
  "demo_torn_office = demo_office\<lparr>bk_disk := \<lparr>dk_files = [(''businesses/acme/business.yaml'', '':'')], dk_dirs = []\<rparr>\<rparr>"

lemma unreadable_configuration_drops_the_table:
  "let (r, w) = delete_table_route demo_tools_server ''acme'' ''rooms'' (Some ''tok0'') (Some ''Bearer jwt'') demo_torn_office
   in r = Inl BusinessConfigError
      \<and> fst (list_tables (bk_dbs demo_torn_office ''acme'')) = Inr [bare_table, demo_table]
      \<and> fst (list_tables (bk_dbs w ''acme'')) = Inr [bare_table]"
  by code_simp

end
