(* ===== verification/Route_Tokens.thy ===== *)
theory Route_Tokens
  imports Route_Props
begin

text \<open>
  Confirmation tokens at the routes: a deletion is carried out only for a live token, and for any
  live token, whatever it was issued for.
\<close>

subsection \<open>A deletion consumes a live token\<close>

definition live_token :: "string \<Rightarrow> backend \<Rightarrow> bool" where
  "live_token tok w \<longleftrightarrow>
     (\<exists>d x. dget (as_pending (bk_admin w)) tok = Some (d, x) \<and> reading (bk_admin w) \<le> x)"

definition same_admin :: "backend \<Rightarrow> backend \<Rightarrow> bool" where
  "same_admin w w' \<longleftrightarrow> bk_admin w' = bk_admin w"

definition same_pending :: "backend \<Rightarrow> backend \<Rightarrow> bool" where
  "same_pending w w' \<longleftrightarrow> as_pending (bk_admin w') = as_pending (bk_admin w)"

interpretation same_admin: frame same_admin
  by unfold_locales (simp_all add: same_admin_def)

interpretation same_pending: frame same_pending
  by unfold_locales (simp_all add: same_pending_def)

definition consumes :: "string option \<Rightarrow> (backend, deletion) cmd \<Rightarrow> bool" where
  "consumes token m \<longleftrightarrow> (\<forall>w w'. m w = (Inr Deleted, w') \<longrightarrow>
     (\<exists>tok. token = Some tok \<and> live_token tok w \<and> dget (as_pending (bk_admin w')) tok = None))"

lemma same_admin_steps:
  "obeys same_admin (on_repo b m)" "obeys same_admin (config_path sv b)" "obeys same_admin (entity_repo sv b)"
  "obeys same_admin (require_listed_table b name)" "obeys same_admin (on_disk m')"
proof -
  show repo: "obeys same_admin (on_repo b m)" for m :: "(entity_db, 'x) cmd"
    by (auto simp: obeys_def on_repo_run same_admin_def split: prod.splits)
  show path: "obeys same_admin (config_path sv b)"
    unfolding config_path_def Let_def by (intro same_admin.intros)
  have "obeys same_admin (modify (\<lambda>w. w\<lparr>bk_repos := bk_repos w @ [b]\<rparr>))"
    by (simp add: obeys_def same_admin_def)
  then show "obeys same_admin (entity_repo sv b)"
    unfolding entity_repo_def by (intro same_admin.intros path)
  show "obeys same_admin (require_listed_table b name)"
    unfolding require_listed_table_def by (intro same_admin.intros repo)
  show "obeys same_admin (on_disk m')"
    by (auto simp: obeys_def on_disk_run same_admin_def split: prod.splits)
qed

lemma same_pending_steps:
  "obeys same_pending (on_repo b m)" "obeys same_pending (config_path sv b)" "obeys same_pending (on_disk m')"
  "obeys same_pending (audit_route user b action before after)"
proof -
  have weaken: "obeys same_admin m \<Longrightarrow> obeys same_pending m" for m :: "(backend, 'x) cmd"
    unfolding obeys_def same_admin_def same_pending_def by simp
  show "obeys same_pending (on_repo b m)" and "obeys same_pending (config_path sv b)" and "obeys same_pending (on_disk m')"
    by (rule weaken, rule same_admin_steps)+
  show "obeys same_pending (audit_route user b action before after)"
    by (auto simp: obeys_def same_pending_def audit_route_def on_admin_run record_audit_def bindC_def
        admin_now_def append_audit_log_def)
qed

named_theorems consumes_intros \<open>composition rules of consumes\<close>

lemma consumes_raise [consumes_intros]: "consumes token (raise e)"
  by (simp add: consumes_def)

lemma consumes_if [consumes_intros]: "consumes token m \<Longrightarrow> consumes token m' \<Longrightarrow> consumes token (if c then m else m')"
  by simp

lemma consumes_found [consumes_intros]:
  "consumes token m \<Longrightarrow> (\<And>x. consumes token (f x)) \<Longrightarrow> consumes token (case opt of None \<Rightarrow> m | Some x \<Rightarrow> f x)"
  by (cases opt) simp_all

lemma consumes_token:
  "consumes None m \<Longrightarrow> (\<And>t. consumes (Some t) (f t)) \<Longrightarrow> consumes token (case token of None \<Rightarrow> m | Some t \<Rightarrow> f t)"
  by (cases token) simp_all

lemma consumes_request [consumes_intros]: "consumes token (confirmation_request_for d)"
  by (auto simp: consumes_def confirmation_request_for_def bindC_def split: prod.splits sum.splits)

lemma consumes_after:
  assumes "obeys same_admin m" and "\<And>x. consumes token (f x)"
  shows "consumes token (bindC m f)"
  unfolding consumes_def
proof (intro allI impI)
  fix w w' assume "bindC m f w = (Inr Deleted, w')"
  then show "\<exists>tok. token = Some tok \<and> live_token tok w \<and> dget (as_pending (bk_admin w')) tok = None"
  proof (cases rule: same_admin.step [OF _ assms(1), consumes 1, case_names failed ok])
    case (ok x w1)
    from ok(3) assms(2) obtain tok where "token = Some tok" "live_token tok w1" "dget (as_pending (bk_admin w')) tok = None"
      unfolding consumes_def by blast
    with ok(2) show ?thesis by (simp add: live_token_def same_admin_def)
  qed simp
qed

lemma consumes_confirm:
  assumes "obeys same_pending (f ())"
  shows "consumes (Some tok) (bindC (confirm_or_400 tok) f)"
  unfolding consumes_def
proof (intro allI impI)
  fix w w' assume "bindC (confirm_or_400 tok) f w = (Inr Deleted, w')"
  then obtain w1 where c: "confirm_or_400 tok w = (Inr (), w1)" and rest: "f () w1 = (Inr Deleted, w')"
    by (auto elim: bindC_InrE)
  from c obtain a where r: "resolve_confirm_token tok (bk_admin w) = (Inr (), a)" and w1: "w1 = w\<lparr>bk_admin := a\<rparr>"
    by (auto simp: confirm_or_400_def rethrow_apply on_admin_run split: prod.splits sum.splits)
  have live: "live_token tok w" and gone: "dget (as_pending a) tok = None"
    using r by (auto simp: resolve_confirm_token_def bindC_def admin_now_def live_token_def reading_def
        split: option.splits prod.splits if_splits)
  have "as_pending (bk_admin w') = as_pending a"
    using obeysD [OF assms rest] by (simp add: same_pending_def w1)
  with live gone show "\<exists>t. Some tok = Some t \<and> live_token t w \<and> dget (as_pending (bk_admin w')) t = None"
    by simp
qed

lemma admin_authorize_ticks:
  assumes "admin_authorize sv auth business roles w = (Inr user, w')"
  shows "w' = w\<lparr>bk_admin := ticked (bk_admin w)\<rparr>"
  using assms
  by (cases "bearer_token auth")
    (auto simp: admin_authorize_def bindC_def rethrow_apply on_admin_run authorize_iff
       split: prod.splits sum.splits)

text \<open>What each deleting route does once the request is authorised.\<close>

lemma consumes_rest:
  assumes "\<And>user. consumes token (f user)"
    and "bindC (admin_authorize sv auth (Some b) roles) f w = (Inr Deleted, w')"
  obtains tok w1 where "token = Some tok" and "w1 = w\<lparr>bk_admin := ticked (bk_admin w)\<rparr>" and "live_token tok w1"
    and "dget (as_pending (bk_admin w')) tok = None"
proof -
  from assms(2) obtain user w1 where a: "admin_authorize sv auth (Some b) roles w = (Inr user, w1)"
    and "f user w1 = (Inr Deleted, w')" by (auto elim: bindC_InrE)
  with assms(1) obtain tok where "token = Some tok" "live_token tok w1" "dget (as_pending (bk_admin w')) tok = None"
    unfolding consumes_def by blast
  with admin_authorize_ticks [OF a] that show thesis by blast
qed

lemmas pending_rules = same_pending.intros same_pending_steps

lemma delete_table_consumes:
  "consumes tok (bindC (entity_repo sv b) (\<lambda>_. bindC (require_listed_table b name) (\<lambda>existing. case tok of
       None \<Rightarrow> confirmation_request_for d
     | Some t \<Rightarrow> bindC (confirm_or_400 t) (\<lambda>_. drop_with_tools sv b name (audit_route user b action (before existing) after)))))"
  unfolding drop_with_tools_def Let_def
  by (intro consumes_after same_admin_steps consumes_token consumes_request consumes_confirm pending_rules)

lemmas consume_rules = consumes_after same_admin_steps consumes_token consumes_request consumes_confirm pending_rules

lemma delete_table_route_consumes:
  assumes "delete_table_route sv b name token auth w = (Inr Deleted, w')"
  obtains tok w1 where "token = Some tok" and "w1 = w\<lparr>bk_admin := ticked (bk_admin w)\<rparr>" and "live_token tok w1"
    and "dget (as_pending (bk_admin w')) tok = None"
  using assms unfolding delete_table_route_def drop_with_tools_def [symmetric]
  by (rule consumes_rest [where token = token, rotated]) (rule that, assumption+, rule delete_table_consumes)

lemma delete_column_route_consumes:
  assumes "delete_column_route sv b name column token auth w = (Inr Deleted, w')"
  obtains tok w1 where "token = Some tok" and "w1 = w\<lparr>bk_admin := ticked (bk_admin w)\<rparr>" and "live_token tok w1"
    and "dget (as_pending (bk_admin w')) tok = None"
  using assms unfolding delete_column_route_def
  by (rule consumes_rest [where token = token, rotated])
    (rule that, assumption+, intro consume_rules consumes_if consumes_raise)

lemma delete_row_route_consumes:
  assumes "delete_row_route sv b name i token auth w = (Inr Deleted, w')"
  obtains tok w1 where "token = Some tok" and "w1 = w\<lparr>bk_admin := ticked (bk_admin w)\<rparr>" and "live_token tok w1"
    and "dget (as_pending (bk_admin w')) tok = None"
  using assms unfolding delete_row_route_def
  by (rule consumes_rest [where token = token, rotated])
    (rule that, assumption+, (rule consumes_after, rule same_admin_steps)+, rule consumes_found, rule consumes_raise,
      intro consume_rules)

subsection \<open>What a token was issued for is never looked at\<close>

text \<open>The admin state and the backend with every description blanked.\<close>

definition blanked :: "(string \<times> string \<times> time) list \<Rightarrow> (string \<times> string \<times> time) list" where
  "blanked p = map (\<lambda>(t, d, x). (t, [], x)) p"

definition forget_admin :: "admin_state \<Rightarrow> admin_state" where
  "forget_admin s = s\<lparr>as_pending := blanked (as_pending s)\<rparr>"

definition forget :: "backend \<Rightarrow> backend" where
  "forget w = w\<lparr>bk_admin := forget_admin (bk_admin w)\<rparr>"

lemma dget_blanked: "dget (blanked p) t = map_option (\<lambda>(d, x). ([], x)) (dget p t)"
  by (induction p) (auto simp: blanked_def)

lemma blanked_delete: "blanked (AList.delete t p) = AList.delete t (blanked p)"
  by (induction p) (auto simp: blanked_def)

lemma blanked_update: "blanked (AList.update t (d, x) p) = AList.update t ([], x) (blanked p)"
  by (induction p) (auto simp: blanked_def)

lemma forget_admin_iff:
  "forget_admin s1 = forget_admin s2 \<longleftrightarrow> as_users s1 = as_users s2 \<and> as_audit s1 = as_audit s2
    \<and> as_audit_seq s1 = as_audit_seq s2 \<and> blanked (as_pending s1) = blanked (as_pending s2) \<and> as_tokens s1 = as_tokens s2
    \<and> as_token_count s1 = as_token_count s2 \<and> as_clock s1 = as_clock s2 \<and> as_clock_count s1 = as_clock_count s2
    \<and> as_salt_count s1 = as_salt_count s2"
  by (cases s1; cases s2) (auto simp: forget_admin_def)

lemma forget_iff:
  "forget w1 = forget w2 \<longleftrightarrow> bk_disk w1 = bk_disk w2 \<and> bk_dbs w1 = bk_dbs w2 \<and> bk_repos w1 = bk_repos w2
    \<and> forget_admin (bk_admin w1) = forget_admin (bk_admin w2)"
  by (cases w1; cases w2) (auto simp: forget_def)

lemma blind_admin_steps [blind_intros]:
  "blind forget_admin admin_now" "blind forget_admin (get_user_by_email e)" "blind forget_admin (append_audit_log entry)"
  "blind forget_admin fresh_token" "blind forget_admin (list_audit_log x)"
  by (auto simp: blind_def forget_admin_iff admin_now_def get_user_by_email_def append_audit_log_def fresh_token_def
      list_audit_log_def split: option.splits)

lemma blind_resolve [blind_intros]: "blind forget_admin (resolve_confirm_token t)"
  unfolding blind_def
proof (intro allI impI)
  fix s1 s2 assume eq: "forget_admin s1 = forget_admin s2"
  then have "map_option snd (dget (as_pending s1) t) = map_option snd (dget (as_pending s2) t)"
    using dget_blanked [of "as_pending s1" t] dget_blanked [of "as_pending s2" t]
    by (cases "dget (as_pending s1) t"; cases "dget (as_pending s2) t") (auto simp: forget_admin_iff)
  with eq show "fst (resolve_confirm_token t s1) = fst (resolve_confirm_token t s2)
      \<and> forget_admin (snd (resolve_confirm_token t s1)) = forget_admin (snd (resolve_confirm_token t s2))"
    by (cases "dget (as_pending s1) t"; cases "dget (as_pending s2) t")
      (auto simp: resolve_confirm_token_def bindC_def admin_now_def forget_admin_iff blanked_delete)
qed

lemma blind_request [blind_intros]: "blind forget_admin (request_confirmation d)"
proof -
  have "blind forget_admin (modify (\<lambda>s. s\<lparr>as_pending := AList.update t (d, x) (as_pending s)\<rparr>))" for t x
    by (simp add: blind_def forget_admin_iff blanked_update)
  then show ?thesis unfolding request_confirmation_def by (intro blind_intros)
qed

lemma blind_authorize [blind_intros]: "blind forget_admin (authorize env token business roles)"
  unfolding authorize_def decode_access_token_def by (intro blind_intros)

lemma blind_audit [blind_intros]: "blind forget_admin (record_audit user business action before after)"
  unfolding record_audit_def by (intro blind_intros)

lemma blind_zooms [blind_intros]:
  "blind forget_admin m \<Longrightarrow> blind forget (on_admin m)" "blind forget (on_disk m')" "blind forget (on_repo b m'')"
proof -
  show "blind forget (on_admin m)" if "blind forget_admin m"
    unfolding blind_def
  proof (intro allI impI)
    fix w1 w2 assume eq: "forget w1 = forget w2"
    then have "forget_admin (bk_admin w1) = forget_admin (bk_admin w2)" by (simp add: forget_iff)
    from blind_runs [OF that this] obtain r a1 a2 where "m (bk_admin w1) = (r, a1)" "m (bk_admin w2) = (r, a2)"
      "forget_admin a1 = forget_admin a2" .
    with eq show "fst (on_admin m w1) = fst (on_admin m w2) \<and> forget (snd (on_admin m w1)) = forget (snd (on_admin m w2))"
      by (simp add: on_admin_run forget_iff)
  qed
qed (auto simp: blind_def forget_iff on_disk_run on_repo_run split: prod.splits)

lemma blind_gets [blind_intros]:
  "blind forget (gets (\<lambda>w. is_file path (bk_disk w)))" "blind forget (gets (\<lambda>w. b \<in> set (bk_repos w)))"
  "blind forget (modify (\<lambda>w. w\<lparr>bk_repos := bk_repos w @ [b]\<rparr>))"
  by (auto simp: blind_def forget_iff)

lemma blind_helpers [blind_intros]:
  "blind forget (config_path sv b)" "blind forget (entity_repo sv b)" "blind forget (require_listed_table b name)"
  "blind forget (admin_authorize sv auth business roles)" "blind forget (audit_route user b action before after)"
  "blind forget (confirmation_request_for d)" "blind forget (confirm_or_400 t)"
  unfolding config_path_def entity_repo_def require_listed_table_def admin_authorize_def audit_route_def
    confirmation_request_for_def confirm_or_400_def Let_def
  by (intro blind_intros)+

lemma blind_call: "blind forget (admin_call sv b auth req)"
  by (cases req; simp only: admin_call.simps replyC_def config_routes table_routes column_routes row_routes Let_def;
      intro blind_intros)

definition retitled :: "string \<Rightarrow> string \<Rightarrow> backend \<Rightarrow> backend" where
  "retitled tok d w = w\<lparr>bk_admin := (bk_admin w)\<lparr>as_pending :=
     map (\<lambda>(t, d0, x). (t, if t = tok then d else d0, x)) (as_pending (bk_admin w))\<rparr>\<rparr>"

lemma forget_retitled: "forget (retitled tok d w) = forget w"
proof -
  have "blanked (map (\<lambda>(t, d0, x). (t, if t = tok then d else d0, x)) p) = blanked p" for p
    by (induction p) (auto simp: blanked_def)
  then show ?thesis by (simp add: forget_iff forget_admin_iff retitled_def)
qed

lemma deleted_reply: "replyC f m w = (Inr (DeletionReply Deleted), w') \<Longrightarrow> \<exists>x. m w = (Inr x, w') \<and> f x = DeletionReply Deleted"
  unfolding replyC_def by (erule bindC_InrE) auto

text \<open>
  C34: a deletion spends a live token, and any live token will do. When a request answers "deleted", it
  carried a confirmation token that was pending and not yet expired at the time, and the token is
  spent. But what the token was issued for is never compared: with any other description stored
  under it, in particular that of another deletion, in another Business, by another user, the
  same request is answered "deleted" all the same.
\<close>

theorem deletion_spends_any_live_token:
  assumes "admin_call sv b auth req w = (Inr (DeletionReply Deleted), w')"
  shows "\<exists>tok d x. request_token req = Some tok
    \<and> dget (as_pending (bk_admin w)) tok = Some (d, x) \<and> reading (ticked (bk_admin w)) \<le> x
    \<and> dget (as_pending (bk_admin w')) tok = None
    \<and> (\<forall>d'. fst (admin_call sv b auth req (retitled tok d' w)) = Inr (DeletionReply Deleted))"
proof -
  obtain tok w1 where tok: "request_token req = Some tok" and w1: "w1 = w\<lparr>bk_admin := ticked (bk_admin w)\<rparr>"
    and live: "live_token tok w1" and gone: "dget (as_pending (bk_admin w')) tok = None"
  proof (cases req)
    case (DeleteTable t token)
    with assms deleted_reply have "delete_table_route sv b t token auth w = (Inr Deleted, w')" by fastforce
    then show thesis by (rule delete_table_route_consumes) (rule that, simp_all add: DeleteTable)
  next
    case (DeleteColumn t c token)
    with assms deleted_reply have "delete_column_route sv b t c token auth w = (Inr Deleted, w')" by fastforce
    then show thesis by (rule delete_column_route_consumes) (rule that, simp_all add: DeleteColumn)
  next
    case (DeleteRow t i token)
    with assms deleted_reply have "delete_row_route sv b t i token auth w = (Inr Deleted, w')" by fastforce
    then show thesis by (rule delete_row_route_consumes) (rule that, simp_all add: DeleteRow)
  qed (use assms deleted_reply in fastforce)+
  have "fst (admin_call sv b auth req (retitled tok d' w)) = Inr (DeletionReply Deleted)" for d'
    using blindD [OF blind_call forget_retitled [of tok d' w]] assms by (metis fst_conv)
  with tok live gone show ?thesis by (auto simp: w1 live_token_def ticked_def)
qed

subsection \<open>Witnesses\<close>

lemma demo_deletion:
  "fst (admin_call demo_server ''acme'' (Some ''Bearer jwt'') (DeleteTable ''rooms'' (Some ''tok0'')) demo_office)
     = Inr (DeletionReply Deleted)"
  by code_simp

lemma deletion_spends_any_live_token_witness:
  "\<exists>w'. admin_call demo_server ''acme'' (Some ''Bearer jwt'') (DeleteTable ''rooms'' (Some ''tok0'')) demo_office
      = (Inr (DeletionReply Deleted), w') \<and> dget (as_pending (bk_admin w')) ''tok0'' = None"
proof -
  let ?run = "admin_call demo_server ''acme'' (Some ''Bearer jwt'') (DeleteTable ''rooms'' (Some ''tok0'')) demo_office"
  have run: "?run = (Inr (DeletionReply Deleted), snd ?run)"
    using demo_deletion by (metis prod.collapse)
  from deletion_spends_any_live_token [OF run] obtain tok where
    "request_token (DeleteTable ''rooms'' (Some ''tok0'')) = Some tok" "dget (as_pending (bk_admin (snd ?run))) tok = None"
    by blast
  with run show ?thesis by auto
qed

end
