(* ===== verification/Row_Types.thy ===== *)
theory Row_Types
  imports Entities_Props
begin

text \<open>
  The types of the rows the entity repository hands out: what \<open>list_rows\<close> returns, against the
  declared columns.
\<close>

subsection \<open>Typed values\<close>

text \<open>What a value of a column type looks like when it is read: null, or of the type.\<close>

fun value_of_type :: "column_type \<Rightarrow> json \<Rightarrow> bool" where
  "value_of_type t JNull = True"
| "value_of_type ColText (JStr s) = True"
| "value_of_type ColNumber (JFloat r) = True"
| "value_of_type ColBoolean (JBool b) = True"
| "value_of_type t v = False"

fun id_of_type :: "id_type \<Rightarrow> json option \<Rightarrow> bool" where
  "id_of_type IdUuid (Some (JStr s)) = True"
| "id_of_type IdAutoIncrement (Some (JInt n)) = True"
| "id_of_type t v = False"

text \<open>A text in a NUMBER column that SQLite does not read as a number: nothing checks what is stored.\<close>

definition text_for_number :: "sql_engine \<Rightarrow> column_type \<Rightarrow> json \<Rightarrow> bool" where
  "text_for_number eng t v \<longleftrightarrow> t = ColNumber \<and> (\<exists>s. v = JStr s \<and> eng_text_number eng s = None)"

subsection \<open>What is stored reads back typed\<close>

lemma conforms_typed:
  "conforms eng (sql_type (cd_type c)) v \<Longrightarrow>
     value_of_type (cd_type c) (cell_of c v) \<or> text_for_number eng (cd_type c) (cell_of c v)"
  by (cases "cd_type c"; cases v) (auto simp: cell_of_def text_for_number_def)

lemma row_id_typed: "row_id_ok (t = IdAutoIncrement) m k \<Longrightarrow> id_of_type t (Some (fetch_value k))"
  by (cases t; cases k) auto

lemma stored_row_typed:
  assumes "describes eng td t" and "def_wf td" and "row \<in> set (tb_rows t)"
  shows "dkeys (stored_row td row) = row_columns td" and "id_of_type (td_id_type td) (dget (stored_row td row) ''id'')"
    and "c \<in> set (td_columns td) \<Longrightarrow> \<exists>v. dget (stored_row td row) (cd_name c) = Some v
           \<and> (value_of_type (cd_type c) v \<or> text_for_number eng (cd_type c) v)"
proof -
  obtain k vs where row: "row = (k, vs)" by (cases row)
  have len: "length vs = length (td_columns td)" using row_lengths [OF assms(1,3)] row by simp
  from assms(1,3) have ok: "row_id_ok (td_id_type td = IdAutoIncrement) (tb_sequence t) k"
    and all: "list_all2 (conforms eng) (map (\<lambda>c. sql_type (cd_type c)) (td_columns td)) vs"
    by (auto simp: describes_alt rows_ok_def list_all_iff row)
  show "dkeys (stored_row td row) = row_columns td"
    using len by (simp add: row stored_row_zip row_columns_def)
  show "id_of_type (td_id_type td) (dget (stored_row td row) ''id'')"
    using row_id_typed [OF ok] by (simp add: row stored_row_def)
  assume "c \<in> set (td_columns td)"
  then obtain i where i: "i < length (td_columns td)" "c = td_columns td ! i"
    by (auto simp: in_set_conv_nth)
  with list_all2_nthD [OF all, of i] conforms_typed [of eng c "vs ! i"]
  show "\<exists>v. dget (stored_row td row) (cd_name c) = Some v
      \<and> (value_of_type (cd_type c) v \<or> text_for_number eng (cd_type c) v)"
    by (simp add: row stored_row_column [OF assms(2) len i(1)])
qed

lemma list_rows_run:
  assumes inv: "repo_inv eng tds db" and td: "find_def name tds = Some td"
  obtains t where "find_table (td_table_name td) db = Some t" and "describes eng td t" and "def_wf td"
    and "list_rows name db = (Inr (map (stored_row td) (tb_rows t)), db)"
proof -
  obtain t where t: "find_table (td_table_name td) db = Some t" "describes eng td t" "def_wf td"
    and req: "require_table name db = (Inr td, db)"
    by (rule found_tableE [OF inv td])
  have "list_rows name db = (Inr (map (stored_row td) (tb_rows t)), db)"
    using selected_row [OF t(2,3)] by (simp add: list_rows_def bindC_def req sql_select_def the_table_run [OF t(1)] guard_sql_def
        known_row_columns [OF t(2)])
  with t show thesis by (rule that)
qed

text \<open>
  C23: rows come back typed, but for texts in NUMBER columns. In every repository reachable by any
  operations, whatever values they were given, every row that \<open>list_rows\<close> returns has the keys id and
  the declared columns, in that order, an id of the declared kind, different from the ids of the
  other rows, and in each column null or a value of the column's type; the one exception is a NUMBER
  column, which may hold a text that is no number, because no one checks the values of a row. The
  witness stores such a text as a price.
\<close>

theorem listed_rows_are_typed:
  assumes "numbers_only eng" and "db = fold (run_op eng) ops (repo_open others uuids clock)"
    and "list_rows name db = (Inr rows, db')"
  shows "\<exists>td. require_table name db = (Inr td, db) \<and> distinct (map (\<lambda>row. dget row ''id'') rows)
    \<and> (\<forall>row \<in> set rows. dkeys row = row_columns td \<and> id_of_type (td_id_type td) (dget row ''id'')
        \<and> (\<forall>c \<in> set (td_columns td). \<exists>v. dget row (cd_name c) = Some v
              \<and> (value_of_type (cd_type c) v \<or> text_for_number eng (cd_type c) v)))"
proof -
  obtain tds where inv: "repo_inv eng tds db"
    using run_ops_inv [OF repo_inv_open assms(1), of ops others uuids clock] assms(2) by auto
  note req = require_table_run [of db tds name]
  have cat: "catalogue db = Inr tds" using inv by (simp add: repo_inv_def)
  obtain td where td: "find_def name tds = Some td"
    using assms(3) req [OF cat] by (cases "find_def name tds") (simp_all add: list_rows_def bindC_def)
  obtain t where t: "describes eng td t" "def_wf td" "rows = map (stored_row td) (tb_rows t)"
    using list_rows_run [OF inv td] assms(3) by (metis Pair_inject sum.inject(2))
  have "\<forall>row \<in> set rows. dkeys row = row_columns td \<and> id_of_type (td_id_type td) (dget row ''id'')
        \<and> (\<forall>c \<in> set (td_columns td). \<exists>v. dget row (cd_name c) = Some v
              \<and> (value_of_type (cd_type c) v \<or> text_for_number eng (cd_type c) v))"
    using stored_row_typed [OF t(1,2)] by (simp add: t(3))
  moreover have "distinct (map (\<lambda>row. fetch_value (fst row)) (tb_rows t))"
  proof -
    have "inj fetch_value"
    proof (rule injI)
      fix x y assume "fetch_value x = fetch_value y"
      then show "x = y" by (cases x; cases y) simp_all
    qed
    moreover have "distinct (map fst (tb_rows t))" using t(1) by (simp add: describes_alt rows_ok_def)
    ultimately have "distinct (map fetch_value (map fst (tb_rows t)))"
      by (simp only: distinct_map) (metis inj_on_subset subset_UNIV)
    then show ?thesis by (simp add: comp_def)
  qed
  then have "distinct (map (\<lambda>row. dget row ''id'') rows)"
    by (simp add: t(3) stored_row_def distinct_map comp_def inj_on_def)
  ultimately show ?thesis using req [OF cat] td by simp
qed

text \<open>A text where a number belongs, a boolean given as a text, an id given as a text.\<close>

lemma listed_rows_are_typed_witness:
  "\<exists>row rows. fst (list_rows ''menu'' (fold (run_op demo_eng)
      [OpCreate demo_menu_table, OpUpsert ''menu''
         [(''id'', JStr ''a''), (''name'', JInt 3), (''category'', JStr ''sides''), (''price'', JStr ''free''),
          (''stock_quantity'', JBool True)]] demo_file)) = Inr (row # rows)
    \<and> dget row ''price'' = Some (JStr ''free'') \<and> text_for_number demo_eng ColNumber (JStr ''free'')
    \<and> id_of_type IdUuid (dget row ''id'')"
proof -
  let ?ops = "[OpCreate demo_menu_table, OpUpsert ''menu''
       [(''id'', JStr ''a''), (''name'', JInt 3), (''category'', JStr ''sides''), (''price'', JStr ''free''),
        (''stock_quantity'', JBool True)]]"
  let ?db = "fold (run_op demo_eng) ?ops demo_file"
    and ?row = "[(''id'', JStr ''a''), (''name'', JStr ''3''), (''category'', JStr ''sides''), (''price'', JStr ''free''),
        (''stock_quantity'', JFloat 1)]"
  have x: "fst (list_rows ''menu'' ?db) = Inr [?row]" and req: "fst (require_table ''menu'' ?db) = Inr demo_menu_table"
    by code_simp+
  from x have "list_rows ''menu'' ?db = (Inr [?row], snd (list_rows ''menu'' ?db))" by (metis prod.collapse)
  from listed_rows_are_typed [OF demo_numbers refl this [unfolded demo_file_def]]
  obtain td where td: "require_table ''menu'' ?db = (Inr td, ?db)" "id_of_type (td_id_type td) (dget ?row ''id'')"
    and cols: "\<forall>c \<in> set (td_columns td). \<exists>v. dget ?row (cd_name c) = Some v
       \<and> (value_of_type (cd_type c) v \<or> text_for_number demo_eng (cd_type c) v)"
    unfolding demo_file_def by auto
  have td_eq: "td = demo_menu_table" using td(1) req by simp
  have "\<lparr>cd_name = ''price'', cd_type = ColNumber, cd_required = True\<rparr> \<in> set (td_columns td)"
    by (simp add: td_eq demo_menu_table_def)
  with cols have "text_for_number demo_eng ColNumber (JStr ''free'')" by fastforce
  with x td(2) show ?thesis by (simp add: td_eq demo_menu_table_def)
qed

end
