(* ===== verification/Agent_Core.thy ===== *)
theory Agent_Core
  imports Tool_Rail
begin

text \<open>
  The Agent Core (\<open>agent_core.py\<close>) and its system prompt (\<open>prompt.py\<close>). The LLM provider
  and the context provider are Protocols in the code, so here they are fields of the record:
  commands on an external world \<open>'w\<close> that may raise. \<open>ac_float_repr\<close> is Python's
  rendering of floats, which \<open>json.dumps\<close> needs.
\<close>

record 'w agent_core =
  ac_config :: business_config
  ac_generate :: "gen_request \<Rightarrow> ('w, llm_response) cmd"
  ac_load :: "('w, context_doc list) cmd"
  ac_float_repr :: "real \<Rightarrow> string"

definition blank_line :: string where
  "blank_line = [newline, newline]"

text \<open>A \<open>str | None\<close> field is tested by truth: the empty string counts as absent.\<close>

definition nonempty :: "string option \<Rightarrow> string option" where
  "nonempty so = (case so of None \<Rightarrow> None | Some s \<Rightarrow> if s = [] then None else Some s)"

definition build_system_prompt :: "business_config \<Rightarrow> context_doc list \<Rightarrow> string" where
  "build_system_prompt config docs =
     (let bl = bc_business_logic config;
          persona = [py_strip (bl_persona bl)];
          tone = (case nonempty (bl_tone bl) of None \<Rightarrow> []
                  | Some t \<Rightarrow> [''Tone: '' @ py_strip t]);
          scope = [py_strip (bl_scope_instructions bl)];
          out = (case nonempty (bl_out_of_scope_response bl) of None \<Rightarrow> []
                 | Some r \<Rightarrow> [''If a request falls outside your scope, respond with: ''
                              @ [CHR 0x22] @ py_strip r @ [CHR 0x22]]);
          contents = map (\<lambda>d. ''## '' @ dc_name d @ blank_line @ py_strip (dc_content d)) docs;
          grounding = [''Answer only using the information given above. ''
                       @ ''Do not invent facts not present in the context.'']
      in py_join blank_line (persona @ tone @ scope @ out @ contents @ grounding))"

definition request_for :: "'w agent_core \<Rightarrow> context_doc list \<Rightarrow> json dict list \<Rightarrow>
    tool_spec list option \<Rightarrow> gen_request" where
  "request_for core docs messages tools =
     \<lparr>gr_system = build_system_prompt (ac_config core) docs, gr_messages = messages,
      gr_max_tokens = lc_max_tokens (bc_llm (ac_config core)), gr_tools = tools\<rparr>"

definition respond :: "'w agent_core \<Rightarrow> string \<Rightarrow> json dict list \<Rightarrow> ('w, string) cmd" where
  "respond core user_message history =
     bindC (ac_load core) (\<lambda>docs.
     bindC (ac_generate core
              (request_for core docs (history @ [turn ''user'' user_message]) None)) (\<lambda>result.
     ret (lr_text result)))"

definition respond_with_tools ::
  "'w agent_core \<Rightarrow> string \<Rightarrow> json dict list \<Rightarrow> tool_spec list \<Rightarrow> ('w, llm_response) cmd" where
  "respond_with_tools core user_message history tools =
     bindC (ac_load core) (\<lambda>docs.
     ac_generate core
       (request_for core docs (history @ [turn ''user'' user_message]) (Some tools)))"

definition continue_messages ::
  "'w agent_core \<Rightarrow> json dict list \<Rightarrow> tool_call \<Rightarrow> json \<Rightarrow> json dict list" where
  "continue_messages core history tc tool_result =
     history @ [tool_call_turn tc,
                tool_result_turn (tc_id tc) (json_dumps (ac_float_repr core) tool_result)]"

definition continue_with_tool_result ::
  "'w agent_core \<Rightarrow> json dict list \<Rightarrow> tool_call \<Rightarrow> json \<Rightarrow> ('w, llm_response) cmd" where
  "continue_with_tool_result core history tc tool_result =
     bindC (ac_load core) (\<lambda>docs.
     ac_generate core
       (request_for core docs (continue_messages core history tc tool_result) None))"

definition tool_specs :: "'w agent_core \<Rightarrow> tool_spec list" where
  "tool_specs core = tool_specs_of (bc_tools (ac_config core))"

subsection \<open>Lemmas\<close>

lemma py_join_append:
  "xs \<noteq> [] \<Longrightarrow> ys \<noteq> [] \<Longrightarrow> py_join sep (xs @ ys) = py_join sep xs @ sep @ py_join sep ys"
proof (induction sep xs rule: py_join.induct)
  case (2 sep x)
  then show ?case by (cases ys) auto
qed auto

lemma py_join_infix: "x \<in> set xs \<Longrightarrow> \<exists>a b. py_join sep xs = a @ x @ b"
proof (induction sep xs rule: py_join.induct)
  case (2 sep y)
  then show ?case by (intro exI [of _ "[]"]) auto
next
  case (3 sep y z zs)
  show ?case
  proof (cases "x = y")
    case True
    then show ?thesis by (intro exI [of _ "[]"] exI [of _ "sep @ py_join sep (z # zs)"]) simp
  next
    case False
    with 3 obtain a b where "py_join sep (z # zs) = a @ x @ b" by auto
    then show ?thesis by (intro exI [of _ "y @ sep @ a"] exI [of _ b]) simp
  qed
qed auto

end
