(* ===== verification/Session_Store.thy ===== *)
theory Session_Store
  imports Llm_Types
begin

text \<open>
  The Session Store axis: its Protocol (\<open>session/base.py\<close>) as a record of operations and a
  locale of laws, the dictionary-backed store (\<open>session/in_memory.py\<close>) and the SQLite store
  (\<open>session/sqlite_store.py\<close>), both interpretations of the locale. Here a row holds
  the values its JSON texts encode; theory Session_Text has the store with the texts themselves.
\<close>

record confirmation_request =
  cr_tool_call :: tool_call

record 'ss session_ops =
  so_get_history :: "'ss \<Rightarrow> string \<Rightarrow> json dict list"
  so_append :: "string \<Rightarrow> string \<Rightarrow> string \<Rightarrow> 'ss \<Rightarrow> 'ss"
  so_get_pending :: "'ss \<Rightarrow> string \<Rightarrow> confirmation_request option"
  so_set_pending :: "string \<Rightarrow> confirmation_request option \<Rightarrow> 'ss \<Rightarrow> 'ss"

subsection \<open>The in-memory store\<close>

record mem_store =
  mem_history :: "(string \<times> json dict list) list"
  mem_pending :: "(string \<times> confirmation_request option) list"

definition mem_init :: mem_store where
  "mem_init = \<lparr>mem_history = [], mem_pending = []\<rparr>"

definition mem_get_history :: "mem_store \<Rightarrow> string \<Rightarrow> json dict list" where
  "mem_get_history s k = dget_default (mem_history s) k []"

definition mem_append :: "string \<Rightarrow> string \<Rightarrow> string \<Rightarrow> mem_store \<Rightarrow> mem_store" where
  "mem_append k role content s =
     s\<lparr>mem_history := AList.update k (dget_default (mem_history s) k [] @ [turn role content])
                        (mem_history s)\<rparr>"

definition mem_get_pending :: "mem_store \<Rightarrow> string \<Rightarrow> confirmation_request option" where
  "mem_get_pending s k = dget_default (mem_pending s) k None"

definition mem_set_pending :: "string \<Rightarrow> confirmation_request option \<Rightarrow> mem_store \<Rightarrow> mem_store" where
  "mem_set_pending k p s = s\<lparr>mem_pending := AList.update k p (mem_pending s)\<rparr>"

definition mem_ops :: "mem_store session_ops" where
  "mem_ops = \<lparr>so_get_history = mem_get_history, so_append = mem_append,
              so_get_pending = mem_get_pending, so_set_pending = mem_set_pending\<rparr>"

subsection \<open>The SQLite store\<close>

text \<open>
  A write reads the clock when it writes its row and, every 500th time, again for the sweep's
  cutoff; \<open>sq_clock n\<close> is the pair of readings of the \<open>n\<close>-th write.
\<close>

record session_row =
  sr_history :: "json dict list"
  sr_pending :: "confirmation_request option"
  sr_last_active :: time

record sqlite_store =
  sq_rows :: "(string \<times> session_row) list"
  sq_write_count :: nat
  sq_idle_ttl :: time
  sq_clock :: "nat \<Rightarrow> time \<times> time"

definition session_sweep_interval :: nat where
  "session_sweep_interval = 500"

definition sq_init :: "time \<Rightarrow> (nat \<Rightarrow> time \<times> time) \<Rightarrow> sqlite_store" where
  "sq_init ttl clock = \<lparr>sq_rows = [], sq_write_count = 0, sq_idle_ttl = ttl, sq_clock = clock\<rparr>"

definition sq_get_row :: "sqlite_store \<Rightarrow> string \<Rightarrow> json dict list \<times> confirmation_request option" where
  "sq_get_row s k =
     (case dget (sq_rows s) k of None \<Rightarrow> ([], None) | Some r \<Rightarrow> (sr_history r, sr_pending r))"

definition sq_get_history :: "sqlite_store \<Rightarrow> string \<Rightarrow> json dict list" where
  "sq_get_history s k = (case dget (sq_rows s) k of None \<Rightarrow> [] | Some r \<Rightarrow> sr_history r)"

definition sq_upsert :: "string \<Rightarrow> json dict list \<Rightarrow> confirmation_request option \<Rightarrow>
    sqlite_store \<Rightarrow> sqlite_store" where
  "sq_upsert k h p s =
     s\<lparr>sq_rows := AList.update k
         \<lparr>sr_history = h, sr_pending = p, sr_last_active = fst (sq_clock s (sq_write_count s))\<rparr>
         (sq_rows s)\<rparr>"

definition sq_maybe_sweep :: "sqlite_store \<Rightarrow> sqlite_store" where
  "sq_maybe_sweep s =
     (let n = sq_write_count s; s1 = s\<lparr>sq_write_count := n + 1\<rparr>
      in if (n + 1) mod session_sweep_interval \<noteq> 0 then s1
         else let cutoff = snd (sq_clock s n) - sq_idle_ttl s
              in s1\<lparr>sq_rows := filter (\<lambda>(k, r). \<not> sr_last_active r < cutoff) (sq_rows s1)\<rparr>)"

definition sq_append :: "string \<Rightarrow> string \<Rightarrow> string \<Rightarrow> sqlite_store \<Rightarrow> sqlite_store" where
  "sq_append k role content s =
     (let (h, p) = sq_get_row s k
      in sq_maybe_sweep (sq_upsert k (h @ [turn role content]) p s))"

definition sq_get_pending :: "sqlite_store \<Rightarrow> string \<Rightarrow> confirmation_request option" where
  "sq_get_pending s k = snd (sq_get_row s k)"

definition sq_set_pending :: "string \<Rightarrow> confirmation_request option \<Rightarrow> sqlite_store \<Rightarrow> sqlite_store" where
  "sq_set_pending k p s =
     (let (h, _) = sq_get_row s k in sq_maybe_sweep (sq_upsert k h p s))"

definition sqlite_ops :: "sqlite_store session_ops" where
  "sqlite_ops = \<lparr>so_get_history = sq_get_history, so_append = sq_append,
                 so_get_pending = sq_get_pending, so_set_pending = sq_set_pending\<rparr>"

text \<open>
  What the SQLite store relies on: row keys are distinct (the primary key), and one write does
  not take longer than the idle lifetime between its two clock readings.
\<close>

definition sq_inv :: "sqlite_store \<Rightarrow> bool" where
  "sq_inv s \<longleftrightarrow> distinct (dkeys (sq_rows s))
     \<and> (\<forall>n. snd (sq_clock s n) - fst (sq_clock s n) \<le> sq_idle_ttl s)"

text \<open>The session a key stands for, in either store.\<close>

definition sq_session :: "sqlite_store \<Rightarrow> string \<Rightarrow> json dict list \<times> confirmation_request option" where
  "sq_session s k = (sq_get_history s k, sq_get_pending s k)"

definition mem_session :: "mem_store \<Rightarrow> string \<Rightarrow> json dict list \<times> confirmation_request option" where
  "mem_session s k = (mem_get_history s k, mem_get_pending s k)"

subsection \<open>The interface\<close>

locale session_store =
  fixes ops :: "'ss session_ops"
    and invar :: "'ss \<Rightarrow> bool"
  assumes invar_append: "invar s \<Longrightarrow> invar (so_append ops k r c s)"
    and invar_set_pending: "invar s \<Longrightarrow> invar (so_set_pending ops k p s)"
    and append_history:
      "invar s \<Longrightarrow> so_get_history ops (so_append ops k r c s) k = so_get_history ops s k @ [turn r c]"
    and append_pending:
      "invar s \<Longrightarrow> so_get_pending ops (so_append ops k r c s) k = so_get_pending ops s k"
    and set_pending_history:
      "invar s \<Longrightarrow> so_get_history ops (so_set_pending ops k p s) k = so_get_history ops s k"
    and set_pending_pending:
      "invar s \<Longrightarrow> so_get_pending ops (so_set_pending ops k p s) k = p"
    and append_frame:
      "invar s \<Longrightarrow> k' \<noteq> k \<Longrightarrow>
         (so_get_history ops (so_append ops k r c s) k', so_get_pending ops (so_append ops k r c s) k')
           \<in> {(so_get_history ops s k', so_get_pending ops s k'), ([], None)}"
    and set_pending_frame:
      "invar s \<Longrightarrow> k' \<noteq> k \<Longrightarrow>
         (so_get_history ops (so_set_pending ops k p s) k', so_get_pending ops (so_set_pending ops k p s) k')
           \<in> {(so_get_history ops s k', so_get_pending ops s k'), ([], None)}"
begin

lemmas laws = invar_append invar_set_pending append_history append_pending
  set_pending_history set_pending_pending

text \<open>A turn writes the Customer's message and the reply, in that order.\<close>

lemma append_exchange:
  assumes "invar s" and "s' = so_append ops k r2 c2 (so_append ops k r1 c1 s)"
  shows "invar s'"
    and "so_get_history ops s' k = so_get_history ops s k @ [turn r1 c1, turn r2 c2]"
    and "so_get_pending ops s' k = so_get_pending ops s k"
  using assms by (simp_all add: laws)

end

subsection \<open>The in-memory store keeps the laws\<close>

lemmas mem_defs = mem_ops_def mem_get_history_def mem_append_def mem_get_pending_def
  mem_set_pending_def dget_default_def

interpretation mem: session_store mem_ops "\<lambda>_. True"
  by unfold_locales (auto simp: mem_defs)

subsection \<open>The SQLite store keeps the laws\<close>

lemmas sq_defs = sq_get_history_def sq_get_pending_def sq_get_row_def

lemma dget_filter_distinct:
  "distinct (dkeys d) \<Longrightarrow>
     dget (filter P d) k = (case dget d k of None \<Rightarrow> None | Some v \<Rightarrow> if P (k, v) then Some v else None)"
proof (induction d)
  case Nil
  then show ?case by simp
next
  case (Cons p d)
  have absent: "k \<notin> fst ` set (filter P d)" if "k \<notin> fst ` set d" for k
    using that by auto
  show ?case
    using Cons absent [of k] by (cases p) (auto simp: map_of_eq_None_iff split: option.splits)
qed

lemma sq_get_row_pair: "sq_get_row s k = (sq_get_history s k, sq_get_pending s k)"
  by (simp add: sq_defs split: option.splits)

lemma sq_maybe_sweep_fields [simp]:
  "sq_clock (sq_maybe_sweep s) = sq_clock s" "sq_idle_ttl (sq_maybe_sweep s) = sq_idle_ttl s"
  "sq_write_count (sq_maybe_sweep s) = sq_write_count s + 1"
  by (simp_all add: sq_maybe_sweep_def Let_def)

lemma sq_upsert_fields [simp]:
  "sq_clock (sq_upsert k h p s) = sq_clock s" "sq_idle_ttl (sq_upsert k h p s) = sq_idle_ttl s"
  "sq_write_count (sq_upsert k h p s) = sq_write_count s"
  by (simp_all add: sq_upsert_def)

lemma sq_inv_upsert: "sq_inv s \<Longrightarrow> sq_inv (sq_upsert k h p s)"
  by (simp add: sq_inv_def sq_upsert_def distinct_update)

lemma sq_inv_maybe_sweep: "sq_inv s \<Longrightarrow> sq_inv (sq_maybe_sweep s)"
  by (auto simp: sq_inv_def sq_maybe_sweep_def Let_def intro: distinct_map_filter)

text \<open>What a sweep leaves of a key: everything, or nothing when the row is idle for too long.\<close>

lemma dget_sweep:
  assumes "sq_inv s"
  shows "dget (sq_rows (sq_maybe_sweep s)) k =
    (case dget (sq_rows s) k of
       None \<Rightarrow> None
     | Some r \<Rightarrow>
         if (sq_write_count s + 1) mod session_sweep_interval = 0
            \<and> sr_last_active r < snd (sq_clock s (sq_write_count s)) - sq_idle_ttl s
         then None else Some r)"
  using assms by (auto simp: sq_maybe_sweep_def Let_def sq_inv_def dget_filter_distinct
    split: option.splits)

lemma dget_upsert_sweep_same:
  assumes "sq_inv s"
  shows "dget (sq_rows (sq_maybe_sweep (sq_upsert k h p s))) k =
    Some \<lparr>sr_history = h, sr_pending = p, sr_last_active = fst (sq_clock s (sq_write_count s))\<rparr>"
proof -
  let ?n = "sq_write_count s"
  from assms have "snd (sq_clock s ?n) - fst (sq_clock s ?n) \<le> sq_idle_ttl s"
    unfolding sq_inv_def by blast
  then have "\<not> fst (sq_clock s ?n) < snd (sq_clock s ?n) - sq_idle_ttl s" by linarith
  then show ?thesis
    using dget_sweep [OF sq_inv_upsert [OF assms]] by (simp add: sq_upsert_def)
qed

lemma sq_row_same:
  assumes "sq_inv s"
  shows "sq_get_row (sq_maybe_sweep (sq_upsert k h p s)) k = (h, p)"
  by (simp add: sq_get_row_def dget_upsert_sweep_same [OF assms])

lemma sq_row_other:
  assumes "sq_inv s" and "k' \<noteq> k"
  shows "sq_get_row (sq_maybe_sweep (sq_upsert k h p s)) k' \<in> {sq_get_row s k', ([], None)}"
  using assms dget_sweep [OF sq_inv_upsert [OF assms(1)], of k h p k']
  by (auto simp: sq_get_row_def sq_upsert_def split: option.splits if_splits)

interpretation sqlite: session_store sqlite_ops sq_inv
proof (unfold_locales, goal_cases)
  case (1 s k r c)
  then show ?case
    by (simp add: sqlite_ops_def sq_append_def sq_inv_upsert sq_inv_maybe_sweep split: prod.splits)
next
  case (2 s k p)
  then show ?case
    by (simp add: sqlite_ops_def sq_set_pending_def sq_inv_upsert sq_inv_maybe_sweep split: prod.splits)
next
  case (3 s k r c)
  then show ?case
    using sq_row_same [of s] by (simp add: sqlite_ops_def sq_append_def sq_get_row_pair)
next
  case (4 s k r c)
  then show ?case
    using sq_row_same [of s] by (simp add: sqlite_ops_def sq_append_def sq_get_row_pair)
next
  case (5 s k p)
  then show ?case
    using sq_row_same [of s] by (simp add: sqlite_ops_def sq_set_pending_def sq_get_row_pair)
next
  case (6 s k p)
  then show ?case
    using sq_row_same [of s] by (simp add: sqlite_ops_def sq_set_pending_def sq_get_row_pair)
next
  case (7 s k' k r c)
  then show ?case
    using sq_row_other [of s k' k] by (simp add: sqlite_ops_def sq_append_def sq_get_row_pair)
next
  case (8 s k' k p)
  then show ?case
    using sq_row_other [of s k' k] by (simp add: sqlite_ops_def sq_set_pending_def sq_get_row_pair)
qed

subsection \<open>Refinement of the in-memory store\<close>

text \<open>
  The key's row is dropped by the sweep of the coming write: the write count reaches a multiple
  of the interval and the row has been idle for longer than the lifetime.
\<close>

definition sq_expires :: "sqlite_store \<Rightarrow> string \<Rightarrow> bool" where
  "sq_expires s k \<longleftrightarrow>
     (sq_write_count s + 1) mod session_sweep_interval = 0
     \<and> (case dget (sq_rows s) k of None \<Rightarrow> False
        | Some r \<Rightarrow> sr_last_active r < snd (sq_clock s (sq_write_count s)) - sq_idle_ttl s)"

lemma sq_session_write:
  assumes "sq_inv s"
  shows "sq_session (sq_maybe_sweep (sq_upsert k h p s)) k' =
    (if k' = k then (h, p) else if sq_expires s k' then ([], None) else sq_session s k')"
proof (cases "k' = k")
  case True
  then show ?thesis
    using sq_row_same [OF assms, of k h p] by (simp add: sq_session_def sq_get_row_pair)
next
  case False
  then show ?thesis
    using dget_sweep [OF sq_inv_upsert [OF assms], of k h p k']
    by (auto simp: sq_session_def sq_defs sq_upsert_def sq_expires_def split: option.splits)
qed

lemma mem_session_append:
  "mem_session (mem_append k r c m) k' =
     (if k' = k then (fst (mem_session m k) @ [turn r c], snd (mem_session m k)) else mem_session m k')"
  by (simp add: mem_session_def mem_defs)

lemma mem_session_set_pending:
  "mem_session (mem_set_pending k p m) k' =
     (if k' = k then (fst (mem_session m k), p) else mem_session m k')"
  by (simp add: mem_session_def mem_defs)

lemma sq_session_append:
  "sq_inv s \<Longrightarrow> sq_session (sq_append k r c s) k' =
     (if k' = k then (fst (sq_session s k) @ [turn r c], snd (sq_session s k))
      else if sq_expires s k' then ([], None) else sq_session s k')"
  by (simp add: sq_append_def sq_get_row_pair sq_session_write) (simp add: sq_session_def)

lemma sq_session_set_pending:
  "sq_inv s \<Longrightarrow> sq_session (sq_set_pending k p s) k' =
     (if k' = k then (fst (sq_session s k), p)
      else if sq_expires s k' then ([], None) else sq_session s k')"
  by (simp add: sq_set_pending_def sq_get_row_pair sq_session_write) (simp add: sq_session_def)

text \<open>
  The SQLite session store refines the in-memory one. If the two stores hold the same
  sessions, then after the same append, or the same write of the pending Confirmation Request,
  they hold the same sessions again, except that the SQLite store has forgotten exactly those
  other sessions whose rows the periodic sweep found idle for longer than the lifetime.
\<close>

lemma sqlite_store_refines_memory:
  assumes "sq_inv s" and "\<And>k. sq_session s k = mem_session m k"
  shows "sq_session (sq_append k r c s) k' =
           (if k' \<noteq> k \<and> sq_expires s k' then ([], None) else mem_session (mem_append k r c m) k')
       \<and> sq_session (sq_set_pending k p s) k' =
           (if k' \<noteq> k \<and> sq_expires s k' then ([], None) else mem_session (mem_set_pending k p m) k')
       \<and> sq_inv (sq_append k r c s) \<and> sq_inv (sq_set_pending k p s)"
  using assms sqlite.laws(1,2) [of s]
  by (auto simp: sq_session_append sq_session_set_pending mem_session_append
      mem_session_set_pending sqlite_ops_def)

lemma sqlite_store_refines_memory_witness:
  "sq_session (sq_append ''cli:a'' ''user'' ''hi'' (sq_init 604800 (\<lambda>n. (real n, real n)))) ''cli:b''
     = mem_session (mem_append ''cli:a'' ''user'' ''hi'' mem_init) ''cli:b''"
proof -
  let ?s = "sq_init 604800 (\<lambda>n. (real n, real n))"
  have inv: "sq_inv ?s" by (simp add: sq_inv_def sq_init_def)
  have eq: "sq_session ?s k = mem_session mem_init k" for k
    by (simp add: sq_session_def mem_session_def sq_defs sq_init_def mem_init_def mem_defs)
  have "\<not> sq_expires ?s ''cli:b''" by (simp add: sq_expires_def sq_init_def)
  then show ?thesis
    using sqlite_store_refines_memory [OF inv eq, of "''cli:a''" "''user''" "''hi''" "''cli:b''"]
    by simp
qed

end
