(* ===== verification/Conversation.thy ===== *)
theory Conversation
  imports Agent_Core Session_Store
begin

text \<open>
  The Conversation Runtime (\<open>conversation.py\<close>): the four Rails around the Agent Core, the
  pending Confirmation Request and the Session history, one command per method. Everything the
  runtime calls through a Protocol is a field of the \<open>runtime\<close> record. The state carries the
  session store, the world behind the external calls, and a trace: the list of the external calls
  made so far, each recorded as it is issued.
\<close>

record rail_verdict =
  rv_allowed :: bool
  rv_text :: string
  rv_activated_rail :: "string option"

record ('ss, 'w) runtime =
  rt_core :: "'w agent_core"
  rt_tool_call :: "string \<Rightarrow> json dict \<Rightarrow> ('w, json) cmd"
  rt_session :: "'ss session_ops"
  rt_check_input :: "string \<Rightarrow> ('w, rail_verdict) cmd"
  rt_check_output :: "string \<Rightarrow> ('w, rail_verdict) cmd"
  rt_record_visit :: "string \<Rightarrow> ('w, unit) cmd"

datatype event =
    EvVisit string
  | EvCheckInput string
  | EvLoadContext
  | EvRespond string "json dict list"
  | EvRespondWithTools string "json dict list" "tool_spec list"
  | EvToolCall string "json dict"
  | EvContinue "json dict list" tool_call json
  | EvCheckOutput string

record ('ss, 'w) conv_state =
  cv_session :: 'ss
  cv_world :: 'w
  cv_trace :: "event list"

definition external :: "event \<Rightarrow> ('w, 'a) cmd \<Rightarrow> (('ss, 'w) conv_state, 'a) cmd" where
  "external ev m = (\<lambda>s. case m (cv_world s) of
     (r, w) \<Rightarrow> (r, s\<lparr>cv_world := w, cv_trace := cv_trace s @ [ev]\<rparr>))"

definition on_session :: "('ss \<Rightarrow> 'ss) \<Rightarrow> (('ss, 'w) conv_state, unit) cmd" where
  "on_session f = modify (\<lambda>s. s\<lparr>cv_session := f (cv_session s)\<rparr>)"

abbreviation rt_config :: "('ss, 'w) runtime \<Rightarrow> business_config" where
  "rt_config rt \<equiv> ac_config (rt_core rt)"

subsection \<open>Confirmation replies and prompts\<close>

definition yes_replies :: "string list" where
  "yes_replies = [''yes'', ''y'', ''yeah'', ''yep'', ''confirm'', ''ok'', ''okay'']"

definition no_replies :: "string list" where
  "no_replies = [''no'', ''n'', ''nope'', ''cancel'']"

datatype confirmation_reply = Yes | No

definition parse_confirmation_reply :: "string \<Rightarrow> confirmation_reply option" where
  "parse_confirmation_reply text =
     (let normalized = py_lower (py_strip text)
      in if normalized \<in> set yes_replies then Some Yes
         else if normalized \<in> set no_replies then Some No
         else None)"

definition cancellation_text :: string where
  "cancellation_text = ''No problem '' @ [CHR 0xE2, CHR 0x80, CHR 0x94] @ '' cancelled, nothing was done.''"

definition nudge_text :: string where
  "nudge_text = ''Sorry, I didn't catch that '' @ [CHR 0xE2, CHR 0x80, CHR 0x94] @ '' please reply yes or no.''"

definition deny_text :: string where
  "deny_text = ''Sorry, I can't do that.''"

definition build_confirmation_prompt ::
  "(real \<Rightarrow> string) \<Rightarrow> tool_call \<Rightarrow> tool_config list \<Rightarrow> string" where
  "build_confirmation_prompt fr tc tool_configs =
     (let description = (case List.find (\<lambda>t. tl_name t = tc_name tc) tool_configs of
                           Some t \<Rightarrow> tl_description t | None \<Rightarrow> tc_name tc)
      in ''You're about to '' @ py_lower description @ '' with: '' @ py_repr fr (JObj (tc_arguments tc))
         @ ''. '' @ ''Reply yes to confirm or no to cancel.'')"

subsection \<open>The runtime's methods\<close>

definition check_output :: "('ss, 'w) runtime \<Rightarrow> string \<Rightarrow> (('ss, 'w) conv_state, string) cmd" where
  "check_output rt text =
     (if \<not> rl_output_enabled (bc_rails (rt_config rt)) then ret text
      else bindC (external (EvCheckOutput text) (rt_check_output rt text)) (\<lambda>verdict.
           ret (if \<not> rv_allowed verdict then rv_text verdict else text)))"

definition handle_tool_call ::
  "('ss, 'w) runtime \<Rightarrow> string \<Rightarrow> json dict list \<Rightarrow> tool_call \<Rightarrow> (('ss, 'w) conv_state, string) cmd" where
  "handle_tool_call rt session_key history tc =
     (case decide tc (bc_tools (rt_config rt)) of
        Allow \<Rightarrow>
          bindC (external (EvToolCall (tc_name tc) (tc_arguments tc))
                   (rt_tool_call rt (tc_name tc) (tc_arguments tc))) (\<lambda>tool_result.
          let checked = check_tool_data_access tool_result (bc_business_id (rt_config rt)) in
          bindC (external (EvContinue history tc checked)
                   (continue_with_tool_result (rt_core rt) history tc checked)) (\<lambda>result.
          ret (lr_text result)))
      | RequireConfirmation \<Rightarrow>
          bindC (on_session (so_set_pending (rt_session rt) session_key
                   (Some \<lparr>cr_tool_call = tc\<rparr>))) (\<lambda>_.
          ret (build_confirmation_prompt (ac_float_repr (rt_core rt)) tc (bc_tools (rt_config rt))))
      | Deny \<Rightarrow> ret deny_text)"

definition fresh_turn ::
  "('ss, 'w) runtime \<Rightarrow> string \<Rightarrow> string \<Rightarrow> (('ss, 'w) conv_state, string) cmd" where
  "fresh_turn rt session_key user_message =
     bindC (gets (\<lambda>s. so_get_history (rt_session rt) (cv_session s) session_key)) (\<lambda>history.
     bindC (external EvLoadContext (ac_load (rt_core rt))) (\<lambda>context_docs.
     let checked_docs = check_data_access context_docs (bc_business_id (rt_config rt)) in
     bindC (if bc_tools (rt_config rt) \<noteq> []
            then external (EvRespondWithTools user_message history (tool_specs (rt_core rt)))
                   (respond_with_tools (rt_core rt) user_message history (tool_specs (rt_core rt)))
            else bindC (external (EvRespond user_message history)
                   (respond (rt_core rt) user_message history)) (\<lambda>text.
                 ret \<lparr>lr_text = text, lr_tool_calls = []\<rparr>)) (\<lambda>result.
     case lr_tool_calls result of
       tc # _ \<Rightarrow> handle_tool_call rt session_key (history @ [turn ''user'' user_message]) tc
     | [] \<Rightarrow> ret (lr_text result))))"

text \<open>The "yes" branch of \<open>_resolve_confirmation\<close>.\<close>

definition release_tool_call ::
  "('ss, 'w) runtime \<Rightarrow> string \<Rightarrow> tool_call \<Rightarrow> string \<Rightarrow> (('ss, 'w) conv_state, string) cmd" where
  "release_tool_call rt session_key tc user_message =
     bindC (gets (\<lambda>s. so_get_history (rt_session rt) (cv_session s) session_key
                     @ [turn ''user'' user_message])) (\<lambda>history.
     bindC (external (EvToolCall (tc_name tc) (tc_arguments tc))
              (rt_tool_call rt (tc_name tc) (tc_arguments tc))) (\<lambda>tool_result.
     bindC (external (EvContinue history tc tool_result)
              (continue_with_tool_result (rt_core rt) history tc tool_result)) (\<lambda>result.
     bindC (on_session (so_set_pending (rt_session rt) session_key None)) (\<lambda>_.
     ret (lr_text result)))))"

definition resolve_confirmation ::
  "('ss, 'w) runtime \<Rightarrow> string \<Rightarrow> confirmation_request \<Rightarrow> string \<Rightarrow> (('ss, 'w) conv_state, string) cmd" where
  "resolve_confirmation rt session_key pending user_message =
     (case parse_confirmation_reply user_message of
        Some Yes \<Rightarrow> release_tool_call rt session_key (cr_tool_call pending) user_message
      | Some No \<Rightarrow>
          bindC (on_session (so_set_pending (rt_session rt) session_key None)) (\<lambda>_.
          ret cancellation_text)
      | None \<Rightarrow> ret nudge_text)"

text \<open>\<open>session_key.split(":", 1)[1]\<close>\<close>

definition customer_of :: "string \<Rightarrow> string result" where
  "customer_of session_key =
     (case split_once CHR '':'' session_key of None \<Rightarrow> Inl IndexError | Some (_, c) \<Rightarrow> Inr c)"

definition append_turns ::
  "('ss, 'w) runtime \<Rightarrow> string \<Rightarrow> string \<Rightarrow> string \<Rightarrow> (('ss, 'w) conv_state, unit) cmd" where
  "append_turns rt session_key user_message reply =
     bindC (on_session (so_append (rt_session rt) session_key ''user'' user_message)) (\<lambda>_.
     on_session (so_append (rt_session rt) session_key ''assistant'' reply))"

definition input_rail :: "('ss, 'w) runtime \<Rightarrow> string \<Rightarrow> (('ss, 'w) conv_state, string option) cmd" where
  "input_rail rt user_message =
     (if rl_input_enabled (bc_rails (rt_config rt))
      then bindC (external (EvCheckInput user_message) (rt_check_input rt user_message)) (\<lambda>verdict.
           ret (if \<not> rv_allowed verdict then Some (rv_text verdict) else None))
      else ret None)"

definition handle_message ::
  "('ss, 'w) runtime \<Rightarrow> string \<Rightarrow> string \<Rightarrow> (('ss, 'w) conv_state, string) cmd" where
  "handle_message rt session_key user_message =
     bindC (liftR (customer_of session_key)) (\<lambda>customer_id.
     bindC (external (EvVisit customer_id) (rt_record_visit rt customer_id)) (\<lambda>_.
     bindC (input_rail rt user_message) (\<lambda>blocked.
     case blocked of
       Some refusal \<Rightarrow>
         bindC (append_turns rt session_key user_message refusal) (\<lambda>_. ret refusal)
     | None \<Rightarrow>
         bindC (gets (\<lambda>s. so_get_pending (rt_session rt) (cv_session s) session_key)) (\<lambda>pending.
         bindC (case pending of
                  Some p \<Rightarrow> resolve_confirmation rt session_key p user_message
                | None \<Rightarrow> fresh_turn rt session_key user_message) (\<lambda>final_text.
         bindC (check_output rt final_text) (\<lambda>checked_text.
         bindC (append_turns rt session_key user_message checked_text) (\<lambda>_.
         ret checked_text)))))))"

subsection \<open>What a command may emit\<close>

text \<open>
  \<open>emits_at P m s\<close>: run from \<open>s\<close>, \<open>m\<close> extends the trace by events that satisfy
  \<open>P\<close>, whether it returns or raises. It composes along \<open>bindC\<close>, so a safety property of
  the runtime reduces to one fact per external call.
\<close>

definition emits_at :: "(event \<Rightarrow> bool) \<Rightarrow> (('ss, 'w) conv_state, 'a) cmd \<Rightarrow> ('ss, 'w) conv_state \<Rightarrow> bool" where
  "emits_at P m s \<longleftrightarrow>
     (\<exists>evs. cv_trace (snd (m s)) = cv_trace s @ evs \<and> list_all P evs)"

named_theorems emits_intros \<open>composition rules of emits\_at\<close>

lemma emits_bindC [emits_intros]:
  assumes "emits_at P m s" and "\<And>x s'. m s = (Inr x, s') \<Longrightarrow> emits_at P (f x) s'"
  shows "emits_at P (bindC m f) s"
proof (cases "m s")
  case (Pair r s')
  from assms(1) obtain evs where e: "cv_trace s' = cv_trace s @ evs" "list_all P evs"
    by (auto simp: emits_at_def Pair)
  show ?thesis
  proof (cases r)
    case (Inl x)
    with Pair e show ?thesis by (auto simp: emits_at_def bindC_def)
  next
    case (Inr x)
    with assms(2) Pair have "emits_at P (f x) s'" by simp
    with Pair Inr e show ?thesis by (auto simp: emits_at_def bindC_def)
  qed
qed

lemma emits_pure [emits_intros]: "emits_at P (ret x) s" "emits_at P (gets g) s"
  "emits_at P (liftR r) s" "emits_at P (on_session f) s"
  by (simp_all add: emits_at_def on_session_def)

lemma emits_external [emits_intros]: "P ev \<Longrightarrow> emits_at P (external ev m) s"
  by (simp add: emits_at_def external_def split: prod.splits)

lemma emits_check_output [emits_intros]:
  "(\<And>t. P (EvCheckOutput t)) \<Longrightarrow> emits_at P (check_output rt text) s"
  unfolding check_output_def by (auto intro!: emits_intros)

lemma emits_append_turns [emits_intros]: "emits_at P (append_turns rt k m r) s"
  unfolding append_turns_def by (auto intro!: emits_intros)

lemma emits_input_rail [emits_intros]:
  "(\<And>t. P (EvCheckInput t)) \<Longrightarrow> emits_at P (input_rail rt m) s"
  unfolding input_rail_def by (auto intro!: emits_intros)

lemma emits_handle_tool_call:
  assumes "\<And>h c r. P (EvContinue h c r)"
    and "decide tc (bc_tools (rt_config rt)) = Allow \<Longrightarrow> P (EvToolCall (tc_name tc) (tc_arguments tc))"
  shows "emits_at P (handle_tool_call rt k h tc) s"
  unfolding handle_tool_call_def
  by (cases "decide tc (bc_tools (rt_config rt))") (auto simp: Let_def assms intro!: emits_intros)

lemma emits_fresh_turn:
  assumes "\<And>h c r. P (EvContinue h c r)" "P EvLoadContext" "\<And>m h. P (EvRespond m h)"
    "\<And>m h ts. P (EvRespondWithTools m h ts)"
    and "\<And>tc. decide tc (bc_tools (rt_config rt)) = Allow \<Longrightarrow> P (EvToolCall (tc_name tc) (tc_arguments tc))"
  shows "emits_at P (fresh_turn rt k m) s"
  unfolding fresh_turn_def
  by (auto simp: Let_def assms intro!: emits_intros emits_handle_tool_call split: list.splits)

lemma emits_release_tool_call:
  assumes "\<And>h c r. P (EvContinue h c r)" and "P (EvToolCall (tc_name tc) (tc_arguments tc))"
  shows "emits_at P (release_tool_call rt k tc m) s"
  unfolding release_tool_call_def by (intro emits_intros assms)

lemma emits_resolve_confirmation:
  assumes "\<And>h c r. P (EvContinue h c r)"
    and "parse_confirmation_reply m = Some Yes \<Longrightarrow>
           P (EvToolCall (tc_name (cr_tool_call p)) (tc_arguments (cr_tool_call p)))"
  shows "emits_at P (resolve_confirmation rt k p m) s"
  using assms unfolding resolve_confirmation_def
  by (auto split: option.split confirmation_reply.split
      intro!: emits_release_tool_call emits_bindC emits_pure)

subsection \<open>Commands that leave the session store alone\<close>

definition keeps_session :: "(('ss, 'w) conv_state, 'a) cmd \<Rightarrow> bool" where
  "keeps_session m \<longleftrightarrow> (\<forall>s. cv_session (snd (m s)) = cv_session s)"

lemma keeps_sessionD: "keeps_session m \<Longrightarrow> m s = (r, s') \<Longrightarrow> cv_session s' = cv_session s"
  by (metis keeps_session_def snd_conv)

lemma keeps_bindC:
  assumes "keeps_session m" and "\<And>x. keeps_session (f x)"
  shows "keeps_session (bindC m f)"
  unfolding keeps_session_def
proof
  fix s
  obtain r s' where m: "m s = (r, s')" by (cases "m s")
  have s': "cv_session s' = cv_session s" by (rule keeps_sessionD [OF assms(1) m])
  show "cv_session (snd (bindC m f s)) = cv_session s"
  proof (cases r)
    case (Inl e)
    with m s' show ?thesis by (simp add: bindC_def)
  next
    case (Inr x)
    with m have "bindC m f s = f x s'" by (simp add: bindC_def)
    with assms(2) s' show ?thesis by (simp add: keeps_session_def)
  qed
qed

lemma keeps_basic: "keeps_session (ret x)" "keeps_session (gets g)" "keeps_session (liftR r)"
  "keeps_session (external ev m)"
  by (simp_all add: keeps_session_def external_def split: prod.splits)

lemma keeps_rails: "keeps_session (check_output rt t)" "keeps_session (input_rail rt m)"
  by (auto simp: check_output_def input_rail_def intro: keeps_bindC keeps_basic)

end
