(* ===== verification/Conversation_Safety.thy ===== *)
theory Conversation_Safety
  imports Conversation
begin

text \<open>
  What \<open>ConversationRuntime.handle_message\<close> guarantees: the Rails come in order and are never
  skipped, no Tool runs without the Tool Rail's leave or a confirmed request, the pending
  Confirmation Request changes only as the protocol says, and a turn is recorded exactly once.
\<close>

subsection \<open>Shape of a run\<close>

text \<open>The part of \<open>handle_message\<close> after the Input Rail has let the message through.\<close>

definition turn_body ::
  "('ss, 'w) runtime \<Rightarrow> string \<Rightarrow> string \<Rightarrow> (('ss, 'w) conv_state, string) cmd" where
  "turn_body rt k m =
     bindC (gets (\<lambda>s. so_get_pending (rt_session rt) (cv_session s) k)) (\<lambda>pending.
     case pending of Some p \<Rightarrow> resolve_confirmation rt k p m | None \<Rightarrow> fresh_turn rt k m)"

text \<open>The visit and the Input Rail: \<open>Some\<close> refusal when the Rail stopped the message.\<close>

definition front ::
  "('ss, 'w) runtime \<Rightarrow> string \<Rightarrow> string \<Rightarrow> (('ss, 'w) conv_state, string option) cmd" where
  "front rt k m =
     bindC (liftR (customer_of k)) (\<lambda>c.
     bindC (external (EvVisit c) (rt_record_visit rt c)) (\<lambda>_. input_rail rt m))"

definition finish ::
  "('ss, 'w) runtime \<Rightarrow> string \<Rightarrow> string \<Rightarrow> string \<Rightarrow> (('ss, 'w) conv_state, string) cmd" where
  "finish rt k m final =
     bindC (check_output rt final) (\<lambda>checked.
     bindC (append_turns rt k m checked) (\<lambda>_. ret checked))"

lemma handle_message_front:
  "handle_message rt k m = bindC (front rt k m) (\<lambda>blocked.
     case blocked of
       Some refusal \<Rightarrow> bindC (append_turns rt k m refusal) (\<lambda>_. ret refusal)
     | None \<Rightarrow> bindC (turn_body rt k m) (finish rt k m))"
  unfolding handle_message_def turn_body_def front_def finish_def bindC_assoc
  by (simp cong: option.case_cong)

lemma turn_body_eq:
  "turn_body rt k m s =
     (case so_get_pending (rt_session rt) (cv_session s) k of
        Some p \<Rightarrow> resolve_confirmation rt k p m s | None \<Rightarrow> fresh_turn rt k m s)"
  by (simp add: turn_body_def bindC_def split: option.split)

text \<open>The session store after both turns of an exchange have been appended.\<close>

definition exchanged :: "('ss, 'w) runtime \<Rightarrow> string \<Rightarrow> string \<Rightarrow> string \<Rightarrow> 'ss \<Rightarrow> 'ss" where
  "exchanged rt k m r ss =
     so_append (rt_session rt) k ''assistant'' r (so_append (rt_session rt) k ''user'' m ss)"

lemma append_turns_eq:
  "append_turns rt k m r s = (Inr (), s\<lparr>cv_session := exchanged rt k m r (cv_session s)\<rparr>)"
  by (simp add: append_turns_def on_session_def bindC_def exchanged_def)

lemma external_eq:
  "external ev m s =
     (fst (m (cv_world s)),
      s\<lparr>cv_world := snd (m (cv_world s)), cv_trace := cv_trace s @ [ev]\<rparr>)"
  by (simp add: external_def split: prod.splits)

abbreviation input_on :: "('ss, 'w) runtime \<Rightarrow> bool" where
  "input_on rt \<equiv> rl_input_enabled (bc_rails (rt_config rt))"

abbreviation output_on :: "('ss, 'w) runtime \<Rightarrow> bool" where
  "output_on rt \<equiv> rl_output_enabled (bc_rails (rt_config rt))"

definition preamble :: "('ss, 'w) runtime \<Rightarrow> string \<Rightarrow> string \<Rightarrow> event list" where
  "preamble rt c m = EvVisit c # (if input_on rt then [EvCheckInput m] else [])"

lemma input_rail_run:
  assumes "input_rail rt m s = (r, s')"
  shows "cv_session s' = cv_session s"
    and "cv_trace s' = cv_trace s @ (if input_on rt then [EvCheckInput m] else [])"
    and "r = Inr (Some t) \<Longrightarrow> input_on rt \<and>
           (\<exists>v. rt_check_input rt m (cv_world s) = (Inr v, cv_world s') \<and> \<not> rv_allowed v \<and> t = rv_text v)"
    and "r = Inr None \<Longrightarrow> input_on rt \<Longrightarrow>
           \<exists>v. rt_check_input rt m (cv_world s) = (Inr v, cv_world s') \<and> rv_allowed v"
  using assms
  by (auto simp: input_rail_def bindC_def external_eq prod_eq_iff split: if_splits prod.splits sum.splits)

lemma front_run:
  assumes "front rt k m s = (r, s')"
  obtains
    (no_customer) e where "customer_of k = Inl e" "r = Inl e" "s' = s"
  | (visit_raised) e c where "customer_of k = Inr c" "r = Inl e" "cv_session s' = cv_session s"
      "cv_trace s' = cv_trace s @ [EvVisit c]"
  | (checked) c s0 where "customer_of k = Inr c" "cv_session s0 = cv_session s"
      "cv_session s' = cv_session s" "cv_trace s' = cv_trace s @ preamble rt c m"
      "input_rail rt m s0 = (r, s')"
proof (cases "customer_of k")
  case (Inl e)
  then have "r = Inl e" "s' = s" using assms by (simp_all add: front_def bindC_def)
  with Inl show thesis by (rule no_customer)
next
  case (Inr c)
  let ?x = "external (EvVisit c) (rt_record_visit rt c) s"
  show thesis
  proof (cases "fst ?x")
    case (Inl e)
    then have "r = Inl e" "s' = snd ?x"
      using assms Inr by (auto simp: front_def bindC_def split: prod.splits)
    with Inr show thesis by (intro visit_raised [of c e]) (simp_all add: external_eq)
  next
    case (Inr u)
    then have "input_rail rt m (snd ?x) = (r, s')"
      using assms \<open>customer_of k = Inr c\<close> by (auto simp: front_def bindC_def split: prod.splits)
    with \<open>customer_of k = Inr c\<close> show thesis
      using input_rail_run(1,2) [of rt m "snd ?x" r s']
      by (intro checked [of c "snd ?x"]) (simp_all add: external_eq preamble_def)
  qed
qed

text \<open>A message is settled by the Input Rail, or it reaches the body.\<close>

lemma handle_message_cases:
  assumes "handle_message rt k m s = (r, s')"
  obtains
    (stopped) e where "front rt k m s = (Inl e, s')" "r = Inl e"
  | (blocked) t s1 where "front rt k m s = (Inr (Some t), s1)" "r = Inr t"
      "s' = s1\<lparr>cv_session := exchanged rt k m t (cv_session s1)\<rparr>"
  | (body) s1 where "front rt k m s = (Inr None, s1)"
      "bindC (turn_body rt k m) (finish rt k m) s1 = (r, s')"
proof -
  obtain rf s1 where f: "front rt k m s = (rf, s1)" by (cases "front rt k m s")
  consider e where "rf = Inl e" | t where "rf = Inr (Some t)" | "rf = Inr None"
    by (metis option.exhaust sum.exhaust)
  then show thesis
    using assms f stopped blocked body
    by cases (auto simp: handle_message_front bindC_Inl bindC_Inr append_turns_eq)
qed

lemma finish_run:
  assumes "finish rt k m final s = (r, s')"
  shows "cv_trace s' = cv_trace s @ (if output_on rt then [EvCheckOutput final] else [])"
    and "r = Inl e \<Longrightarrow> cv_session s' = cv_session s"
    and "r = Inr reply \<Longrightarrow> cv_session s' = exchanged rt k m reply (cv_session s)"
    and "r = Inr reply \<Longrightarrow> output_on rt \<Longrightarrow>
           \<exists>v w'. rt_check_output rt final (cv_world s) = (Inr v, w')
                  \<and> reply = (if rv_allowed v then final else rv_text v)"
    and "r = Inr reply \<Longrightarrow> \<not> output_on rt \<Longrightarrow> reply = final"
  using assms
  by (auto simp: finish_def check_output_def bindC_def external_eq append_turns_eq prod_eq_iff
      split: if_splits prod.splits sum.splits)

subsection \<open>Every Tool call is authorised\<close>

lemma emits_front:
  assumes "\<And>c. P (EvVisit c)" "\<And>t. P (EvCheckInput t)"
  shows "emits_at P (front rt k m) s"
  unfolding front_def by (intro emits_intros assms)

lemma emits_finish: "(\<And>t. P (EvCheckOutput t)) \<Longrightarrow> emits_at P (finish rt k m final) s"
  unfolding finish_def by (intro emits_intros)

lemma emits_turn_body:
  assumes "\<And>h tc j. P (EvContinue h tc j)" "P EvLoadContext" "\<And>m h. P (EvRespond m h)"
    "\<And>m h ts. P (EvRespondWithTools m h ts)"
    and "\<And>tc. so_get_pending (rt_session rt) (cv_session s) k = None \<Longrightarrow>
           decide tc (bc_tools (rt_config rt)) = Allow \<Longrightarrow> P (EvToolCall (tc_name tc) (tc_arguments tc))"
    and "\<And>p. so_get_pending (rt_session rt) (cv_session s) k = Some p \<Longrightarrow>
           parse_confirmation_reply m = Some Yes \<Longrightarrow>
           P (EvToolCall (tc_name (cr_tool_call p)) (tc_arguments (cr_tool_call p)))"
  shows "emits_at P (turn_body rt k m) s"
proof (cases "so_get_pending (rt_session rt) (cv_session s) k")
  case None
  have "emits_at P (fresh_turn rt k m) s"
    using None assms by (intro emits_fresh_turn) auto
  with None show ?thesis by (simp add: emits_at_def turn_body_eq)
next
  case (Some p)
  have "emits_at P (resolve_confirmation rt k p m) s"
    using Some assms by (intro emits_resolve_confirmation) auto
  with Some show ?thesis by (simp add: emits_at_def turn_body_eq)
qed

lemma front_session: "front rt k m s = (r, s') \<Longrightarrow> cv_session s' = cv_session s"
  by (erule front_run) auto

lemma emits_handle_message:
  assumes "\<And>h tc j. P (EvContinue h tc j)" "P EvLoadContext" "\<And>m h. P (EvRespond m h)"
    "\<And>m h ts. P (EvRespondWithTools m h ts)" "\<And>t. P (EvCheckOutput t)"
    "\<And>c. P (EvVisit c)" "\<And>t. P (EvCheckInput t)"
    and "\<And>tc. so_get_pending (rt_session rt) (cv_session s) k = None \<Longrightarrow>
           decide tc (bc_tools (rt_config rt)) = Allow \<Longrightarrow> P (EvToolCall (tc_name tc) (tc_arguments tc))"
    and "\<And>p. so_get_pending (rt_session rt) (cv_session s) k = Some p \<Longrightarrow>
           parse_confirmation_reply m = Some Yes \<Longrightarrow>
           P (EvToolCall (tc_name (cr_tool_call p)) (tc_arguments (cr_tool_call p)))"
  shows "emits_at P (handle_message rt k m) s"
  unfolding handle_message_front
proof (rule emits_bindC)
  show "emits_at P (front rt k m) s" using assms by (intro emits_front)
next
  fix blocked s1
  assume f: "front rt k m s = (Inr blocked, s1)"
  show "emits_at P (case blocked of
       Some refusal \<Rightarrow> bindC (append_turns rt k m refusal) (\<lambda>_. ret refusal)
     | None \<Rightarrow> bindC (turn_body rt k m) (finish rt k m)) s1"
  proof (cases blocked)
    case None
    have "emits_at P (turn_body rt k m) s1"
      using assms front_session [OF f] by (intro emits_turn_body) auto
    with None assms(5) show ?thesis by (auto intro!: emits_bindC emits_finish)
  next
    case (Some t)
    then show ?thesis by (auto intro!: emits_intros)
  qed
qed

text \<open>
  C1: No Tool call without leave. Whatever the LLM, the rails, the Tools and the stores do,
  and whether the turn returns or raises, every Tool call made while a message is handled is
  either the very call (name and arguments) of the Confirmation Request that was pending when the
  message arrived, and the message says yes; or no Confirmation Request was pending and the Tool's
  first entry in the Business Config is enabled and needs no confirmation.
\<close>

theorem tool_calls_need_leave:
  assumes "handle_message rt k m s = (r, s')" and "cv_trace s' = cv_trace s @ evs"
    and "EvToolCall name args \<in> set evs"
  shows "(\<exists>p. so_get_pending (rt_session rt) (cv_session s) k = Some p
            \<and> parse_confirmation_reply m = Some Yes
            \<and> name = tc_name (cr_tool_call p) \<and> args = tc_arguments (cr_tool_call p))
       \<or> (so_get_pending (rt_session rt) (cv_session s) k = None
          \<and> (\<exists>t. List.find (\<lambda>t. tl_name t = name) (bc_tools (rt_config rt)) = Some t
                 \<and> tl_enabled t \<and> \<not> tl_requires_confirmation t))"
    (is "?G name args")
proof -
  let ?P = "\<lambda>ev. case ev of EvToolCall n a \<Rightarrow> ?G n a | _ \<Rightarrow> True"
  have "emits_at ?P (handle_message rt k m) s"
    by (rule emits_handle_message) (auto simp: decide_Allow_iff)
  with assms(1,2) have "list_all ?P evs" by (auto simp: emits_at_def)
  with assms(3) show ?thesis by (fastforce simp: list_all_iff)
qed

text \<open>At most so many Tool calls.\<close>

definition is_tool_call :: "event \<Rightarrow> bool" where
  "is_tool_call ev = (case ev of EvToolCall _ _ \<Rightarrow> True | _ \<Rightarrow> False)"

lemma is_tool_call_simps [simp]:
  "is_tool_call (EvToolCall n a)" "\<not> is_tool_call (EvVisit c)" "\<not> is_tool_call (EvCheckInput t)"
  "\<not> is_tool_call EvLoadContext" "\<not> is_tool_call (EvRespond m h)"
  "\<not> is_tool_call (EvRespondWithTools m h ts)" "\<not> is_tool_call (EvContinue h tc j)"
  "\<not> is_tool_call (EvCheckOutput t)"
  by (simp_all add: is_tool_call_def)

definition calls_at_most :: "nat \<Rightarrow> (('ss, 'w) conv_state, 'a) cmd \<Rightarrow> bool" where
  "calls_at_most n m \<longleftrightarrow>
     (\<forall>s. \<exists>evs. cv_trace (snd (m s)) = cv_trace s @ evs \<and> length (filter is_tool_call evs) \<le> n)"

lemma calls_bindC:
  assumes "calls_at_most a m" and "\<And>x. calls_at_most b (f x)"
  shows "calls_at_most (a + b) (bindC m f)"
  unfolding calls_at_most_def
proof
  fix s
  obtain r s' where m: "m s = (r, s')" by (cases "m s")
  from assms(1) m obtain evs where e: "cv_trace s' = cv_trace s @ evs"
    "length (filter is_tool_call evs) \<le> a" unfolding calls_at_most_def by (metis snd_conv)
  show "\<exists>evs. cv_trace (snd (bindC m f s)) = cv_trace s @ evs
      \<and> length (filter is_tool_call evs) \<le> a + b"
  proof (cases r)
    case (Inl x)
    with m e show ?thesis by (auto simp: bindC_Inl)
  next
    case (Inr x)
    from assms(2) obtain evs' where "cv_trace (snd (f x s')) = cv_trace s' @ evs'"
      "length (filter is_tool_call evs') \<le> b" unfolding calls_at_most_def by blast
    with m e Inr show ?thesis by (auto simp: bindC_Inr intro!: exI [of _ "evs @ evs'"])
  qed
qed

lemma calls_silent:
  assumes "\<And>s. emits_at (\<lambda>ev. \<not> is_tool_call ev) m s"
  shows "calls_at_most 0 m"
  unfolding calls_at_most_def
proof
  fix s
  obtain evs where "cv_trace (snd (m s)) = cv_trace s @ evs" "list_all (\<lambda>ev. \<not> is_tool_call ev) evs"
    using assms [of s] unfolding emits_at_def by blast
  then show "\<exists>evs. cv_trace (snd (m s)) = cv_trace s @ evs \<and> length (filter is_tool_call evs) \<le> 0"
    by (intro exI [of _ evs]) (simp add: list_all_iff filter_empty_conv)
qed

lemma calls_external_tool: "calls_at_most 1 (external (EvToolCall n a) m)"
  by (simp add: calls_at_most_def external_eq)

lemma calls_mono: "calls_at_most a m \<Longrightarrow> a \<le> b \<Longrightarrow> calls_at_most b m"
  unfolding calls_at_most_def by (meson le_trans)

lemma calls_weaken: "calls_at_most 0 m \<Longrightarrow> calls_at_most 1 m"
  by (erule calls_mono) simp

lemma calls_handle_tool_call: "calls_at_most 1 (handle_tool_call rt k h tc)"
proof (cases "decide tc (bc_tools (rt_config rt))")
  case Allow
  let ?rest = "\<lambda>res. bindC (external (EvContinue h tc res)
      (continue_with_tool_result (rt_core rt) h tc res)) (\<lambda>result. ret (lr_text result))"
  have "calls_at_most 0 (?rest res)" for res
    by (rule calls_silent) (intro emits_intros, simp)
  from calls_bindC [OF calls_external_tool this] Allow show ?thesis
    by (simp add: handle_tool_call_def check_tool_data_access_def Let_def)
next
  case RequireConfirmation
  have "calls_at_most 0 (handle_tool_call rt k h tc)"
    unfolding handle_tool_call_def RequireConfirmation tool_rail_decision.case
    by (rule calls_silent) (intro emits_intros)
  then show ?thesis by (rule calls_weaken)
next
  case Deny
  have "calls_at_most 0 (handle_tool_call rt k h tc)"
    unfolding handle_tool_call_def Deny tool_rail_decision.case
    by (rule calls_silent) (intro emits_intros)
  then show ?thesis by (rule calls_weaken)
qed

lemma calls_fresh_turn: "calls_at_most 1 (fresh_turn rt k m)"
proof -
  let ?call = "\<lambda>h result. case lr_tool_calls result of
      tc # _ \<Rightarrow> handle_tool_call rt k (h @ [turn ''user'' m]) tc | [] \<Rightarrow> ret (lr_text result)"
  let ?llm = "\<lambda>h. if bc_tools (rt_config rt) \<noteq> []
      then external (EvRespondWithTools m h (tool_specs (rt_core rt)))
             (respond_with_tools (rt_core rt) m h (tool_specs (rt_core rt)))
      else bindC (external (EvRespond m h) (respond (rt_core rt) m h))
             (\<lambda>text. ret \<lparr>lr_text = text, lr_tool_calls = []\<rparr>)"
  have call: "calls_at_most 1 (?call h result)" for h result
  proof (cases "lr_tool_calls result")
    case Nil
    have "calls_at_most 0 (?call h result)"
      unfolding Nil list.case by (rule calls_silent) (intro emits_intros)
    then show ?thesis by (rule calls_weaken)
  next
    case (Cons tc tcs)
    show ?thesis unfolding Cons list.case by (rule calls_handle_tool_call)
  qed
  have llm: "calls_at_most 0 (?llm h)" for h
    by (rule calls_silent) (auto intro!: emits_intros)
  have load: "calls_at_most 0 (external EvLoadContext (ac_load (rt_core rt)))"
    by (rule calls_silent) (intro emits_intros, simp)
  have hist: "calls_at_most 0 (gets (\<lambda>s. so_get_history (rt_session rt) (cv_session s) k))"
    by (rule calls_silent) (intro emits_intros)
  show ?thesis
    unfolding fresh_turn_def check_data_access_def Let_def
    using calls_bindC [OF hist calls_bindC [OF load calls_bindC [OF llm call]]] by simp
qed

lemma calls_release_tool_call: "calls_at_most 1 (release_tool_call rt k tc m)"
proof -
  let ?tail = "\<lambda>h res. bindC (external (EvContinue h tc res)
      (continue_with_tool_result (rt_core rt) h tc res)) (\<lambda>result.
      bindC (on_session (so_set_pending (rt_session rt) k None)) (\<lambda>_. ret (lr_text result)))"
  have tail: "calls_at_most 0 (?tail h res)" for h res
    by (rule calls_silent) (intro emits_intros, simp)
  have hist: "calls_at_most 0 (gets (\<lambda>s. so_get_history (rt_session rt) (cv_session s) k
      @ [turn ''user'' m]))"
    by (rule calls_silent) (intro emits_intros)
  show ?thesis
    unfolding release_tool_call_def
    using calls_bindC [OF hist calls_bindC [OF calls_external_tool tail]] by simp
qed

lemma calls_resolve_confirmation: "calls_at_most 1 (resolve_confirmation rt k p m)"
proof -
  consider "parse_confirmation_reply m = Some Yes"
    | "parse_confirmation_reply m = Some No" | "parse_confirmation_reply m = None"
    by (metis confirmation_reply.exhaust option.exhaust)
  then show ?thesis
  proof cases
    case 1
    then show ?thesis unfolding resolve_confirmation_def by (simp only: option.case
      confirmation_reply.case) (rule calls_release_tool_call)
  next
    case 2
    then show ?thesis unfolding resolve_confirmation_def
      by (simp only: option.case confirmation_reply.case)
        (rule calls_weaken, rule calls_silent, intro emits_intros)
  next
    case 3
    then show ?thesis unfolding resolve_confirmation_def
      by (simp only: option.case) (rule calls_weaken, rule calls_silent, intro emits_intros)
  qed
qed

lemma calls_turn_body: "calls_at_most 1 (turn_body rt k m)"
  unfolding calls_at_most_def
proof
  fix s
  show "\<exists>evs. cv_trace (snd (turn_body rt k m s)) = cv_trace s @ evs
      \<and> length (filter is_tool_call evs) \<le> 1"
    using calls_resolve_confirmation [unfolded calls_at_most_def, rule_format]
      calls_fresh_turn [unfolded calls_at_most_def, rule_format]
    unfolding turn_body_eq
    by (cases "so_get_pending (rt_session rt) (cv_session s) k")
      (simp_all only: option.case)
qed

text \<open>
  C20: At most one Tool call per message. However many Tool calls the LLM asks for in its
  answer, and whatever was pending, handling one message makes at most one Tool call.
\<close>

theorem at_most_one_tool_call:
  "\<exists>evs. cv_trace (snd (handle_message rt k m s)) = cv_trace s @ evs
       \<and> length (filter is_tool_call evs) \<le> 1"
proof -
  have "calls_at_most 0 (front rt k m)"
    by (rule calls_silent, rule emits_front) simp_all
  moreover have "calls_at_most 1 (case blocked of
       Some refusal \<Rightarrow> bindC (append_turns rt k m refusal) (\<lambda>_. ret refusal)
     | None \<Rightarrow> bindC (turn_body rt k m) (finish rt k m))" for blocked
  proof (cases blocked)
    case None
    have "calls_at_most 0 (finish rt k m x)" for x
      by (rule calls_silent, rule emits_finish) simp
    with None calls_bindC [OF calls_turn_body this] show ?thesis by simp
  next
    case (Some t)
    show ?thesis unfolding Some option.case
      by (rule calls_weaken, rule calls_silent, intro emits_intros)
  qed
  ultimately have "calls_at_most (0 + 1) (handle_message rt k m)"
    unfolding handle_message_front by (rule calls_bindC)
  then show ?thesis by (simp add: calls_at_most_def)
qed

subsection \<open>What a turn does to the session store\<close>

lemma external_Inr: "external ev m s = (Inr x, s') \<Longrightarrow> cv_session s' = cv_session s
    \<and> cv_trace s' = cv_trace s @ [ev] \<and> m (cv_world s) = (Inr x, cv_world s')"
  by (auto simp: external_eq prod_eq_iff)

lemma external_Inl: "external ev m s = (Inl e, s') \<Longrightarrow> cv_session s' = cv_session s
    \<and> cv_trace s' = cv_trace s @ [ev] \<and> m (cv_world s) = (Inl e, cv_world s')"
  by (auto simp: external_eq prod_eq_iff)

lemmas external_runs = external_Inr external_Inl

lemma handle_tool_call_session:
  assumes "handle_tool_call rt k h tc s = (r, s')"
  shows "cv_session s' =
    (if decide tc (bc_tools (rt_config rt)) = RequireConfirmation
     then so_set_pending (rt_session rt) k (Some \<lparr>cr_tool_call = tc\<rparr>) (cv_session s)
     else cv_session s)"
  using assms
  by (cases "decide tc (bc_tools (rt_config rt))")
    (auto simp: handle_tool_call_def bindC_def on_session_def Let_def
      split: prod.splits sum.splits dest!: external_runs)

lemma fresh_turn_session:
  assumes "fresh_turn rt k m s = (r, s')"
  shows "cv_session s' = cv_session s
       \<or> (\<exists>tc. decide tc (bc_tools (rt_config rt)) = RequireConfirmation
            \<and> cv_session s' = so_set_pending (rt_session rt) k (Some \<lparr>cr_tool_call = tc\<rparr>) (cv_session s))"
  using assms unfolding fresh_turn_def
  by (auto simp: bindC_def Let_def split: prod.splits sum.splits list.splits if_splits
      dest!: external_runs handle_tool_call_session)

lemma release_tool_call_run:
  assumes "release_tool_call rt k tc m s = (r, s')"
  shows "r = Inr x \<Longrightarrow> cv_session s' = so_set_pending (rt_session rt) k None (cv_session s)"
    and "r = Inl e \<Longrightarrow> cv_session s' = cv_session s"
    and "\<exists>evs. cv_trace s' = cv_trace s @ EvToolCall (tc_name tc) (tc_arguments tc) # evs"
  using assms unfolding release_tool_call_def
  by (auto simp: bindC_def on_session_def split: prod.splits sum.splits dest!: external_runs)

lemma resolve_confirmation_session:
  assumes "resolve_confirmation rt k p m s = (r, s')"
  shows "cv_session s' =
    (case parse_confirmation_reply m of
       None \<Rightarrow> cv_session s
     | Some No \<Rightarrow> so_set_pending (rt_session rt) k None (cv_session s)
     | Some Yes \<Rightarrow> (if isl r then cv_session s
                    else so_set_pending (rt_session rt) k None (cv_session s)))"
proof (cases "parse_confirmation_reply m")
  case None
  then show ?thesis using assms by (simp add: resolve_confirmation_def)
next
  case (Some reply)
  then show ?thesis
    using assms release_tool_call_run(1,2) [of rt k "cr_tool_call p" m s r s']
    by (cases reply; cases r)
      (auto simp: resolve_confirmation_def bindC_def on_session_def)
qed

text \<open>The session store after the body, given what was pending and how the body ended.\<close>

lemma turn_body_session:
  assumes "turn_body rt k m s = (r, s')"
  obtains
    (untouched) "cv_session s' = cv_session s"
      "so_get_pending (rt_session rt) (cv_session s) k = None \<or> isl r
       \<or> parse_confirmation_reply m = None"
  | (requested) tc where "decide tc (bc_tools (rt_config rt)) = RequireConfirmation"
      "so_get_pending (rt_session rt) (cv_session s) k = None"
      "cv_session s' = so_set_pending (rt_session rt) k (Some \<lparr>cr_tool_call = tc\<rparr>) (cv_session s)"
  | (resolved) p reply where "so_get_pending (rt_session rt) (cv_session s) k = Some p"
      "parse_confirmation_reply m = Some reply"
      "cv_session s' = so_set_pending (rt_session rt) k None (cv_session s)"
proof (cases "so_get_pending (rt_session rt) (cv_session s) k")
  case None
  with assms have "fresh_turn rt k m s = (r, s')" by (simp add: turn_body_eq)
  with None show thesis using untouched requested by (auto dest!: fresh_turn_session)
next
  case (Some p)
  with assms have "resolve_confirmation rt k p m s = (r, s')" by (simp add: turn_body_eq)
  from resolve_confirmation_session [OF this] Some show thesis
    using untouched resolved
    by (auto split: option.splits confirmation_reply.splits if_splits)
qed

subsection \<open>The Input Rail comes first\<close>

text \<open>
  A message the Input Rail refuses goes nowhere. When the rail is on and its verdict on
  the message is not to allow it, the reply is the verdict's text, the only external calls are the
  visit and the rail's own check (no LLM, no Tool, no context, no Output Rail), and the session
  store has only the two turns added.
\<close>

theorem refused_message_goes_nowhere:
  assumes "customer_of k = Inr c" and "rt_record_visit rt c (cv_world s) = (Inr (), wa)"
    and "input_on rt" and "rt_check_input rt m wa = (Inr v, wb)" and "\<not> rv_allowed v"
  shows "handle_message rt k m s =
    (Inr (rv_text v),
     \<lparr>cv_session = so_append (rt_session rt) k ''assistant'' (rv_text v)
                     (so_append (rt_session rt) k ''user'' m (cv_session s)),
      cv_world = wb, cv_trace = cv_trace s @ [EvVisit c, EvCheckInput m]\<rparr>)"
  using assms
  by (simp add: handle_message_front front_def input_rail_def bindC_def external_eq
      append_turns_eq exchanged_def)

text \<open>
  The Input Rail is never skipped. With the rail on, the external calls made for a message
  are a visit, then the rail's check of that very message, then everything else; if the turn ends
  before that, it made a prefix of the first two calls only.
\<close>

theorem input_rail_first:
  assumes "handle_message rt k m s = (r, s')" and "input_on rt"
  shows "\<exists>evs. cv_trace s' = cv_trace s @ evs
     \<and> (evs = [] \<or> (\<exists>c. evs = [EvVisit c]) \<or> (\<exists>c rest. evs = EvVisit c # EvCheckInput m # rest))"
  using assms(1)
proof (cases rule: handle_message_cases)
  case (stopped e)
  from stopped(1) assms(2) show ?thesis by (cases rule: front_run) (auto simp: preamble_def)
next
  case (blocked t s1)
  from blocked(1) have "\<exists>c. cv_trace s1 = cv_trace s @ EvVisit c # EvCheckInput m # []"
    using assms(2) by (cases rule: front_run) (auto simp: preamble_def)
  with blocked show ?thesis by auto
next
  case (body s1)
  from body(1) obtain c where "cv_trace s1 = cv_trace s @ EvVisit c # EvCheckInput m # []"
    using assms(2) by (cases rule: front_run) (auto simp: preamble_def)
  moreover have "emits_at (\<lambda>_. True) (bindC (turn_body rt k m) (finish rt k m)) s1"
    by (intro emits_bindC emits_turn_body emits_finish) simp_all
  then obtain rest where "cv_trace s' = cv_trace s1 @ rest"
    using body(2) by (auto simp: emits_at_def)
  ultimately show ?thesis by auto
qed

subsection \<open>The Output Rail comes last\<close>

lemma body_finish:
  assumes "bindC (turn_body rt k m) (finish rt k m) s = (Inr reply, s')"
  obtains draft s1 where "turn_body rt k m s = (Inr draft, s1)" "finish rt k m draft s1 = (Inr reply, s')"
  using assms by (rule bindC_InrE)

text \<open>
  C5: Every reply has passed the Output Rail. With both rails on, a reply that is returned is
  either the Input Rail's refusal, or it was decided by the last external call of the turn, the
  Output Rail's check of the draft: the draft itself when the rail allowed it, the rail's own text
  otherwise. A draft the Output Rail refused is never returned.
\<close>

theorem reply_passed_output_rail:
  assumes "handle_message rt k m s = (Inr reply, s')" and "input_on rt" and "output_on rt"
  shows "(\<exists>w v w'. rt_check_input rt m w = (Inr v, w') \<and> \<not> rv_allowed v \<and> reply = rv_text v)
       \<or> (\<exists>draft w v w'. last (cv_trace s') = EvCheckOutput draft
            \<and> rt_check_output rt draft w = (Inr v, w')
            \<and> reply = (if rv_allowed v then draft else rv_text v))"
  using assms(1)
proof (cases rule: handle_message_cases)
  case (stopped e)
  then show ?thesis by simp
next
  case (blocked t s1)
  from blocked(1) obtain s0 where "input_rail rt m s0 = (Inr (Some t), s1)"
    by (cases rule: front_run) auto
  from input_rail_run(3) [OF this refl] blocked(2) show ?thesis by auto
next
  case (body s1)
  from body(2) obtain draft s2 where f: "finish rt k m draft s2 = (Inr reply, s')"
    by (rule body_finish)
  from finish_run(1) [OF f] assms(3) have "last (cv_trace s') = EvCheckOutput draft" by simp
  with finish_run(4) [OF f refl assms(3)] show ?thesis by blast
qed

subsection \<open>The Confirmation protocol\<close>

text \<open>The text with which the Input Rail, asked after the visit is recorded, refuses the message.\<close>

definition input_refusal :: "('ss, 'w) runtime \<Rightarrow> string \<Rightarrow> string \<Rightarrow> 'w \<Rightarrow> string option" where
  "input_refusal rt k m w =
     (case customer_of k of
        Inl _ \<Rightarrow> None
      | Inr c \<Rightarrow>
          if input_on rt
          then case fst (rt_check_input rt m (snd (rt_record_visit rt c w))) of
                 Inl _ \<Rightarrow> None
               | Inr v \<Rightarrow> if rv_allowed v then None else Some (rv_text v)
          else None)"

lemma front_refusal: "front rt k m s = (Inr b, s1) \<Longrightarrow> input_refusal rt k m (cv_world s) = b"
  by (cases "customer_of k"; cases "input_on rt")
    (auto simp: front_def input_refusal_def input_rail_def bindC_def external_def
      split: prod.splits sum.splits)

context session_store
begin

lemma exchanged_laws:
  assumes "rt_session rt = ops" and "invar ss"
  shows "invar (exchanged rt k m r ss)"
    and "so_get_history ops (exchanged rt k m r ss) k
           = so_get_history ops ss k @ [turn ''user'' m, turn ''assistant'' r]"
    and "so_get_pending ops (exchanged rt k m r ss) k = so_get_pending ops ss k"
  using append_exchange [OF assms(2) refl] by (simp_all add: exchanged_def assms(1))

lemma turn_body_laws:
  assumes "rt_session rt = ops" and "invar (cv_session s)" and "turn_body rt k m s = (r, s')"
  shows "invar (cv_session s')
    \<and> so_get_history ops (cv_session s') k = so_get_history ops (cv_session s) k"
  using assms(3) by (cases rule: turn_body_session) (simp_all add: assms(1,2) laws)

text \<open>
  A returned turn: the store is that of the body with the two turns appended. Which of the two it
  is, is decided by the Input Rail.
\<close>

lemma handle_message_Inr:
  assumes "rt_session rt = ops" and "invar (cv_session s)"
    and "handle_message rt k m s = (Inr reply, s')"
  obtains
    (refused) "input_refusal rt k m (cv_world s) = Some reply"
      "cv_session s' = exchanged rt k m reply (cv_session s)"
  | (answered) s1 draft s2 where "input_refusal rt k m (cv_world s) = None"
      "cv_session s1 = cv_session s" "turn_body rt k m s1 = (Inr draft, s2)"
      "cv_session s' = exchanged rt k m reply (cv_session s2)"
  using assms(3)
proof (cases rule: handle_message_cases)
  case (stopped e)
  then show thesis by simp
next
  case (blocked t s1)
  with front_session [OF blocked(1)] front_refusal [OF blocked(1)] show thesis
    by (intro refused) simp_all
next
  case (body s1)
  from body(2) obtain draft s2 where "turn_body rt k m s1 = (Inr draft, s2)"
    "finish rt k m draft s2 = (Inr reply, s')" by (rule body_finish)
  with finish_run(3) [OF this(2) refl] front_session [OF body(1)] front_refusal [OF body(1)]
  show thesis by (auto intro: answered)
qed

lemma returned_turn_recorded:
  assumes "rt_session rt = ops" and "invar (cv_session s)"
    and "handle_message rt k m s = (Inr reply, s')"
  shows "invar (cv_session s')
    \<and> so_get_history ops (cv_session s') k
        = so_get_history ops (cv_session s) k @ [turn ''user'' m, turn ''assistant'' reply]"
  using assms
proof (cases rule: handle_message_Inr)
  case refused
  then show ?thesis using assms(1,2) by (simp add: exchanged_laws)
next
  case (answered s1 draft s2)
  then show ?thesis
    using turn_body_laws [OF assms(1) _ answered(3)] assms(1,2) by (simp add: exchanged_laws)
qed

lemma raised_turn_not_recorded:
  assumes "rt_session rt = ops" and "invar (cv_session s)"
    and "handle_message rt k m s = (Inl e, s')"
  shows "invar (cv_session s') \<and> so_get_history ops (cv_session s') k = so_get_history ops (cv_session s) k"
  using assms(3)
proof (cases rule: handle_message_cases)
  case (stopped e)
  with assms(2) front_session [OF stopped(1)] show ?thesis by simp
next
  case (blocked t s1)
  then show ?thesis by simp
next
  case (body s1)
  obtain r s2 where b: "turn_body rt k m s1 = (r, s2)" by (cases "turn_body rt k m s1")
  have s1: "cv_session s1 = cv_session s" by (rule front_session [OF body(1)])
  have "cv_session s' = cv_session s2"
    using body(2) b finish_run(2) [of rt k m _ s2 "Inl e" s' e] by (cases r) (auto simp: bindC_def)
  with turn_body_laws [OF assms(1) _ b] s1 assms(2) show ?thesis by simp
qed

text \<open>What is pending after a turn that returned.\<close>

lemma pending_after_turn:
  assumes "rt_session rt = ops" and "invar (cv_session s)"
    and "handle_message rt k m s = (Inr reply, s')"
  shows "case input_refusal rt k m (cv_world s) of
      Some t \<Rightarrow> reply = t \<and> so_get_pending ops (cv_session s') k = so_get_pending ops (cv_session s) k
    | None \<Rightarrow>
       (case so_get_pending ops (cv_session s) k of
          None \<Rightarrow> so_get_pending ops (cv_session s') k = None
                \<or> (\<exists>tc. so_get_pending ops (cv_session s') k = Some \<lparr>cr_tool_call = tc\<rparr>
                      \<and> decide tc (bc_tools (rt_config rt)) = RequireConfirmation)
        | Some p \<Rightarrow> so_get_pending ops (cv_session s') k
                    = (if parse_confirmation_reply m = None then Some p else None))"
  using assms
proof (cases rule: handle_message_Inr)
  case refused
  then show ?thesis using assms(1,2) by (simp add: exchanged_laws)
next
  case (answered s1 draft s2)
  have inv: "invar (cv_session s2)"
    by (rule turn_body_laws [OF assms(1) _ answered(3), THEN conjunct1]) (simp add: answered assms(2))
  have after: "so_get_pending ops (cv_session s') k = so_get_pending ops (cv_session s2) k"
    by (simp add: answered(4) exchanged_laws(3) [OF assms(1) inv])
  from answered(3) show ?thesis
    by (cases rule: turn_body_session)
      (auto simp: after answered(1,2) assms(1,2) laws split: option.split)
qed

end

subsection \<open>A scripted runtime for the witnesses\<close>

text \<open>
  A hotel with a read Tool and a write Tool; the LLM plays a list of answers, the Tools log their
  calls, and the Input Rail refuses one message.
\<close>

record demo_world =
  dw_answers :: "llm_response result list"
  dw_log :: "string list"

definition demo_tools :: "tool_config list" where
  "demo_tools =
     [default_tool_config ''check_room_availability'' ''Check a room'',
      (default_tool_config ''book_room'' ''Book a Room'')\<lparr>tl_requires_confirmation := True\<rparr>]"

definition demo_config :: business_config where
  "demo_config =
     \<lparr>bc_business_id = ''hotel'', bc_display_name = ''Hotel'', bc_enabled = True,
      bc_llm = default_llm_config, bc_context = default_context_config ''context'',
      bc_business_logic = \<lparr>bl_persona = ''Clerk'', bl_scope_instructions = ''Rooms only'',
                           bl_tone = None, bl_out_of_scope_response = None\<rparr>,
      bc_tools = demo_tools, bc_tool_provider = ''in_memory'', bc_storage = default_storage_config,
      bc_auth_type = ''none'', bc_frontend_adapters = default_frontend_adapters,
      bc_rails = default_rails_config\<rparr>"

definition demo_generate :: "gen_request \<Rightarrow> (demo_world, llm_response) cmd" where
  "demo_generate req = (\<lambda>w. case dw_answers w of
     [] \<Rightarrow> (Inl (ExternalError ''llm''), w)
   | a # as \<Rightarrow> (a, w\<lparr>dw_answers := as\<rparr>))"

definition demo_rt :: "'ss session_ops \<Rightarrow> ('ss, demo_world) runtime" where
  "demo_rt ops =
     \<lparr>rt_core = \<lparr>ac_config = demo_config, ac_generate = demo_generate, ac_load = ret [],
                 ac_float_repr = (\<lambda>_. ''0.0'')\<rparr>,
      rt_tool_call = (\<lambda>n a w. (Inr (JBool True), w\<lparr>dw_log := dw_log w @ [n]\<rparr>)),
      rt_session = ops,
      rt_check_input = (\<lambda>m. ret \<lparr>rv_allowed = (m \<noteq> ''attack''), rv_text = ''refused'',
                                 rv_activated_rail = None\<rparr>),
      rt_check_output = (\<lambda>t. ret \<lparr>rv_allowed = True, rv_text = t, rv_activated_rail = None\<rparr>),
      rt_record_visit = (\<lambda>c. ret ())\<rparr>"

definition demo_call :: tool_call where
  "demo_call = \<lparr>tc_id = ''c1'', tc_name = ''book_room'', tc_arguments = [(''room_type'', JStr ''suite'')],
                tc_provider_data = None\<rparr>"

definition demo_answer :: "string \<Rightarrow> llm_response result" where
  "demo_answer t = Inr \<lparr>lr_text = t, lr_tool_calls = []\<rparr>"

definition demo_state :: "'ss \<Rightarrow> llm_response result list \<Rightarrow> ('ss, demo_world) conv_state" where
  "demo_state ss answers =
     \<lparr>cv_session = ss, cv_world = \<lparr>dw_answers = answers, dw_log = []\<rparr>, cv_trace = []\<rparr>"

definition demo_sqlite :: sqlite_store where
  "demo_sqlite = sq_init 604800 (\<lambda>n. (0, 0))"

text \<open>A store in which the write Tool's Confirmation Request is pending.\<close>

definition demo_pending :: sqlite_store where
  "demo_pending = sq_set_pending ''whatsapp:1'' (Some \<lparr>cr_tool_call = demo_call\<rparr>) demo_sqlite"

lemma demo_inv: "sq_inv demo_sqlite" "sq_inv demo_pending"
proof -
  show "sq_inv demo_sqlite" by (simp add: sq_inv_def demo_sqlite_def sq_init_def)
  from sqlite.invar_set_pending [OF this] show "sq_inv demo_pending"
    by (simp add: demo_pending_def sqlite_ops_def)
qed

lemma demo_session [simp]: "rt_session (demo_rt ops) = ops"
  by (simp add: demo_rt_def)

lemma demo_input_on [simp]: "input_on (demo_rt ops)" "output_on (demo_rt ops)"
  by (simp_all add: demo_rt_def demo_config_def default_rails_config_def)

lemma turn_body_pending_yes:
  assumes "so_get_pending (rt_session rt) (cv_session s) k = Some p"
    and "parse_confirmation_reply m = Some Yes"
  shows "turn_body rt k m s = release_tool_call rt k (cr_tool_call p) m s"
  using assms by (simp add: turn_body_eq resolve_confirmation_def)

subsection \<open>What a yes releases\<close>

text \<open>
  C26: A yes releases the pending call, whatever the configuration now says. If the visit is
  recorded and the Input Rail, when it is on, lets the message through, then a yes to a pending
  Confirmation Request makes the recorded Tool call, with its recorded arguments, right after the
  preamble. The Tool Rail is not asked again: the witness is a Tool that was disabled in between.
\<close>

theorem yes_releases_pending_call:
  assumes "customer_of k = Inr c" and "rt_record_visit rt c (cv_world s) = (Inr (), w1)"
    and "input_on rt \<Longrightarrow> \<exists>v w2. rt_check_input rt m w1 = (Inr v, w2) \<and> rv_allowed v"
    and "so_get_pending (rt_session rt) (cv_session s) k = Some p"
    and "parse_confirmation_reply m = Some Yes"
  shows "\<exists>rest. cv_trace (snd (handle_message rt k m s)) =
    cv_trace s @ preamble rt c m
      @ EvToolCall (tc_name (cr_tool_call p)) (tc_arguments (cr_tool_call p)) # rest"
proof -
  obtain s1 where f: "front rt k m s = (Inr None, s1)"
    and t: "cv_trace s1 = cv_trace s @ preamble rt c m" and ss: "cv_session s1 = cv_session s"
    using assms(1-3)
    by (cases "input_on rt") (auto simp: front_def input_rail_def bindC_def external_eq preamble_def)
  obtain r s2 where b: "turn_body rt k m s1 = (r, s2)" by (cases "turn_body rt k m s1")
  with assms(4,5) ss have "release_tool_call rt k (cr_tool_call p) m s1 = (r, s2)"
    by (simp add: turn_body_pending_yes)
  from release_tool_call_run(3) [OF this] obtain evs where
    "cv_trace s2 = cv_trace s1 @ EvToolCall (tc_name (cr_tool_call p)) (tc_arguments (cr_tool_call p)) # evs"
    by blast
  moreover have "handle_message rt k m s = bindC (turn_body rt k m) (finish rt k m) s1"
    by (simp add: handle_message_front bindC_def f)
  moreover have "\<exists>evs'. cv_trace (snd (bindC (turn_body rt k m) (finish rt k m) s1)) = cv_trace s2 @ evs'"
  proof (cases r)
    case (Inl e)
    with b show ?thesis by (simp add: bindC_Inl)
  next
    case (Inr d)
    with b have "bindC (turn_body rt k m) (finish rt k m) s1 = finish rt k m d s2"
      by (simp add: bindC_def)
    then show ?thesis
      using finish_run(1) [OF prod.collapse [of "finish rt k m d s2", symmetric]] by simp
  qed
  ultimately show ?thesis using t by auto
qed

text \<open>
  C28: A confirmed call is not consumed when the reply fails. If the message confirms a pending
  Confirmation Request and the turn ends with an exception in the LLM call that follows the Tool
  call, then the Tool has been called and the session store is exactly what it was: the request
  is still pending and nothing was recorded. The witness goes on to a second yes, which calls the
  write Tool a second time.
\<close>

theorem failed_reply_keeps_confirmation:
  assumes "so_get_pending (rt_session rt) (cv_session s) k = Some p"
    and "parse_confirmation_reply m = Some Yes"
    and "handle_message rt k m s = (Inl e, s')"
    and "cv_trace s' = cv_trace s @ evs" and "evs \<noteq> []" and "last evs = EvContinue h tc res"
  shows "cv_session s' = cv_session s
    \<and> EvToolCall (tc_name (cr_tool_call p)) (tc_arguments (cr_tool_call p)) \<in> set evs"
  using assms(3)
proof (cases rule: handle_message_cases)
  case (stopped e')
  from stopped(1) have "evs = [] \<or> (\<exists>c. evs = [EvVisit c]) \<or> (\<exists>c. evs = preamble rt c m)"
    using assms(4) by (cases rule: front_run) auto
  with assms(5,6) show ?thesis by (auto simp: preamble_def split: if_splits)
next
  case (blocked t s1)
  then show ?thesis by simp
next
  case (body s1)
  have s1: "cv_session s1 = cv_session s" by (rule front_session [OF body(1)])
  obtain r s2 where b: "turn_body rt k m s1 = (r, s2)" by (cases "turn_body rt k m s1")
  then have rel: "release_tool_call rt k (cr_tool_call p) m s1 = (r, s2)"
    using turn_body_pending_yes [of rt s1 k p m] assms(1,2) s1 by simp
  have "isl r"
  proof (rule ccontr)
    assume "\<not> isl r"
    then obtain d where "r = Inr d" by (cases r) auto
    with body(2) b have fin: "finish rt k m d s2 = (Inl e, s')" by (simp add: bindC_def)
    show False
    proof (cases "output_on rt")
      case True
      with finish_run(1) [OF fin] have "last (cv_trace s') = EvCheckOutput d" by simp
      moreover have "last (cv_trace s') = EvContinue h tc res" using assms(4-6) by simp
      ultimately show False by simp
    next
      case False
      with fin show False by (simp add: finish_def check_output_def bindC_def append_turns_eq)
    qed
  qed
  then obtain e' where "r = Inl e'" by (cases r) auto
  with body(2) b have "s' = s2" by (simp add: bindC_def)
  moreover obtain tail where "cv_trace s2 = cv_trace s1 @
      EvToolCall (tc_name (cr_tool_call p)) (tc_arguments (cr_tool_call p)) # tail"
    using release_tool_call_run(3) [OF rel] by blast
  moreover obtain pre where "cv_trace s1 = cv_trace s @ pre"
    using body(1) by (cases rule: front_run) auto
  ultimately show ?thesis
    using release_tool_call_run(2) [OF rel \<open>r = Inl e'\<close>] s1 assms(4) by auto
qed

subsection \<open>The protocol over the SQLite store\<close>

text \<open>
  C17: A turn is recorded exactly once. Over the SQLite session store, a turn that returns adds
  the Customer's message and the returned reply to the Session's history, in that order, and
  nothing else; a turn that raises adds nothing. The store's invariant is kept in both cases.
\<close>

theorem turn_recorded_once:
  assumes "rt_session rt = sqlite_ops" and "sq_inv (cv_session s)"
    and "handle_message rt k m s = (r, s')"
  shows "sq_inv (cv_session s')
    \<and> sq_get_history (cv_session s') k = sq_get_history (cv_session s) k
        @ (case r of Inr reply \<Rightarrow> [turn ''user'' m, turn ''assistant'' reply] | Inl _ \<Rightarrow> [])"
  using sqlite.returned_turn_recorded [OF assms(1,2)] sqlite.raised_turn_not_recorded [OF assms(1,2)]
    assms(3)
  by (cases r) (auto simp: sqlite_ops_def)

text \<open>
  C2: The Confirmation Request protocol. After a turn that returned, over the SQLite store: if the
  Input Rail, asked in the world the recorded visit left, refused the message, then the reply is
  its refusal and what was pending, or that nothing was, is as before, a yes or a no included.
  Otherwise: if nothing was pending, then nothing is, or the request for a Tool call that the Tool
  Rail gates behind a confirmation; a pending request is gone after a yes or a no, and is still
  pending after any other message.
\<close>

theorem confirmation_protocol:
  assumes "rt_session rt = sqlite_ops" and "sq_inv (cv_session s)"
    and "handle_message rt k m s = (Inr reply, s')"
  shows "case input_refusal rt k m (cv_world s) of
      Some t \<Rightarrow> reply = t \<and> sq_get_pending (cv_session s') k = sq_get_pending (cv_session s) k
    | None \<Rightarrow>
       (case sq_get_pending (cv_session s) k of
          None \<Rightarrow> sq_get_pending (cv_session s') k = None
                \<or> (\<exists>tc. sq_get_pending (cv_session s') k = Some \<lparr>cr_tool_call = tc\<rparr>
                      \<and> decide tc (bc_tools (rt_config rt)) = RequireConfirmation)
        | Some p \<Rightarrow> sq_get_pending (cv_session s') k
                    = (if parse_confirmation_reply m = None then Some p else None))"
proof -
  have "so_get_pending sqlite_ops = sq_get_pending" by (simp add: sqlite_ops_def)
  from sqlite.pending_after_turn [OF assms, unfolded this] show ?thesis .
qed

subsection \<open>Witnesses\<close>

abbreviation demo_yes where
  "demo_yes answers \<equiv> handle_message (demo_rt sqlite_ops) ''whatsapp:1'' ''Yes ''
     (demo_state demo_pending answers)"

lemma demo_pending_call: "so_get_pending sqlite_ops demo_pending ''whatsapp:1'' = Some \<lparr>cr_tool_call = demo_call\<rparr>"
  by code_simp


lemma demo_booking_trace:
  "cv_trace (snd (demo_yes [demo_answer ''Booked''])) =
     cv_trace (demo_state demo_pending [demo_answer ''Booked'']) @
     [EvVisit ''1'', EvCheckInput ''Yes '', EvToolCall ''book_room'' [(''room_type'', JStr ''suite'')],
      EvContinue [turn ''user'' ''Yes ''] demo_call (JBool True), EvCheckOutput ''Booked'']"
  by code_simp

lemma tool_calls_need_leave_witness:
  "\<exists>p. so_get_pending sqlite_ops demo_pending ''whatsapp:1'' = Some p
      \<and> parse_confirmation_reply ''Yes '' = Some Yes \<and> ''book_room'' = tc_name (cr_tool_call p)"
proof -
  note run = prod.collapse [of "demo_yes [demo_answer ''Booked'']", symmetric]
  have "EvToolCall ''book_room'' [(''room_type'', JStr ''suite'')] \<in> set
    [EvVisit ''1'', EvCheckInput ''Yes '', EvToolCall ''book_room'' [(''room_type'', JStr ''suite'')],
      EvContinue [turn ''user'' ''Yes ''] demo_call (JBool True), EvCheckOutput ''Booked'']"
    by simp
  from tool_calls_need_leave [OF run demo_booking_trace this] show ?thesis
    by (auto simp: demo_state_def demo_pending_call)
qed

lemma refused_message_goes_nowhere_witness:
  "fst (handle_message (demo_rt sqlite_ops) ''whatsapp:1'' ''attack'' (demo_state demo_sqlite []))
     = Inr ''refused''"
proof -
  have c: "customer_of ''whatsapp:1'' = Inr ''1''" by code_simp
  show ?thesis
    by (subst refused_message_goes_nowhere [OF c, where wa = "cv_world (demo_state demo_sqlite [])"
        and wb = "cv_world (demo_state demo_sqlite [])"
        and v = "\<lparr>rv_allowed = False, rv_text = ''refused'', rv_activated_rail = None\<rparr>"])
      (simp_all add: demo_rt_def demo_state_def demo_config_def default_rails_config_def)
qed

lemma input_rail_first_witness:
  "\<exists>evs. cv_trace (snd (demo_yes [])) = evs
     \<and> (evs = [] \<or> (\<exists>c. evs = [EvVisit c]) \<or> (\<exists>c rest. evs = EvVisit c # EvCheckInput ''Yes '' # rest))"
  using input_rail_first [OF prod.collapse [of "demo_yes []", symmetric] demo_input_on(1)]
  by (simp add: demo_state_def)

lemma reply_passed_output_rail_witness:
  "\<exists>draft. last (cv_trace (snd (demo_yes [demo_answer ''Booked'']))) = EvCheckOutput draft"
proof -
  let ?x = "demo_yes [demo_answer ''Booked'']"
  have "fst ?x = Inr ''Booked''" by code_simp
  then have run: "?x = (Inr ''Booked'', snd ?x)" by (metis prod.collapse)
  from reply_passed_output_rail [OF run demo_input_on] show ?thesis
    by (auto simp: demo_rt_def)
qed

lemma turn_recorded_once_witness:
  "sq_get_history (cv_session (snd (demo_yes [demo_answer ''Booked'']))) ''whatsapp:1''
     = [turn ''user'' ''Yes '', turn ''assistant'' ''Booked'']"
proof -
  let ?x = "demo_yes [demo_answer ''Booked'']"
  have r: "fst ?x = Inr ''Booked''" and h: "sq_get_history demo_pending ''whatsapp:1'' = []"
    by code_simp+
  have "sq_inv (cv_session (demo_state demo_pending [demo_answer ''Booked'']))"
    by (simp add: demo_state_def demo_inv)
  from turn_recorded_once [OF demo_session this prod.collapse [of ?x, symmetric]] r h
  show ?thesis by (simp add: demo_state_def)
qed

text \<open>A runtime whose Input Rail refuses everything: the yes it refuses leaves the request pending.\<close>

abbreviation demo_refusing where
  "demo_refusing \<equiv> (demo_rt sqlite_ops)\<lparr>rt_check_input :=
     (\<lambda>m. ret \<lparr>rv_allowed = False, rv_text = ''refused'', rv_activated_rail = None\<rparr>)\<rparr>"

lemma confirmation_protocol_witness:
  "sq_get_pending (cv_session (snd (demo_yes [demo_answer ''Booked'']))) ''whatsapp:1'' = None
   \<and> sq_get_pending (cv_session (snd (handle_message demo_refusing ''whatsapp:1'' ''Yes ''
        (demo_state demo_pending [])))) ''whatsapp:1'' = Some \<lparr>cr_tool_call = demo_call\<rparr>"
proof -
  let ?x = "demo_yes [demo_answer ''Booked'']"
    and ?y = "handle_message demo_refusing ''whatsapp:1'' ''Yes '' (demo_state demo_pending [])"
  have r: "fst ?x = Inr ''Booked''" "fst ?y = Inr ''refused''"
    and y: "parse_confirmation_reply ''Yes '' = Some Yes"
    and p: "sq_get_pending demo_pending ''whatsapp:1'' = Some \<lparr>cr_tool_call = demo_call\<rparr>"
    and i: "input_refusal (demo_rt sqlite_ops) ''whatsapp:1'' ''Yes ''
              (cv_world (demo_state demo_pending [demo_answer ''Booked''])) = None"
      "input_refusal demo_refusing ''whatsapp:1'' ''Yes ''
              (cv_world (demo_state demo_pending [])) = Some ''refused''"
    by code_simp+
  from r have run: "?x = (Inr ''Booked'', snd ?x)" "?y = (Inr ''refused'', snd ?y)"
    by (metis prod.collapse)+
  have inv: "sq_inv (cv_session (demo_state demo_pending as))" for as
    by (simp add: demo_state_def demo_inv)
  have s: "rt_session demo_refusing = sqlite_ops" by simp
  from confirmation_protocol [OF demo_session inv run(1)]
    confirmation_protocol [OF s inv run(2)] p y i show ?thesis
    by (simp add: demo_state_def)
qed

text \<open>A Tool that the owner has disabled since the Confirmation Request was made.\<close>

definition demo_disabled_rt :: "(sqlite_store, demo_world) runtime" where
  "demo_disabled_rt =
     (let rt = demo_rt sqlite_ops; core = rt_core rt; cfg = ac_config core
      in rt\<lparr>rt_core := core\<lparr>ac_config := cfg\<lparr>bc_tools := map (\<lambda>t. t\<lparr>tl_enabled := False\<rparr>) demo_tools\<rparr>\<rparr>\<rparr>)"

lemma yes_releases_pending_call_witness:
  "decide demo_call (bc_tools (rt_config demo_disabled_rt)) = Deny
   \<and> EvToolCall ''book_room'' [(''room_type'', JStr ''suite'')]
      \<in> set (cv_trace (snd (handle_message demo_disabled_rt ''whatsapp:1'' ''yes'' (demo_state demo_pending []))))"
proof -
  let ?s = "demo_state demo_pending []"
  have c: "customer_of ''whatsapp:1'' = Inr ''1''" and y: "parse_confirmation_reply ''yes'' = Some Yes"
    and d: "decide demo_call (bc_tools (rt_config demo_disabled_rt)) = Deny"
    by code_simp+
  have v: "rt_record_visit demo_disabled_rt ''1'' (cv_world ?s) = (Inr (), cv_world ?s)"
    and i: "\<exists>v w2. rt_check_input demo_disabled_rt ''yes'' (cv_world ?s) = (Inr v, w2) \<and> rv_allowed v"
    and p: "so_get_pending (rt_session demo_disabled_rt) (cv_session ?s) ''whatsapp:1''
              = Some \<lparr>cr_tool_call = demo_call\<rparr>"
    using demo_pending_call by (simp_all add: demo_disabled_rt_def demo_rt_def demo_state_def Let_def)
  from yes_releases_pending_call [OF c v i p y] d show ?thesis
    by (auto simp: demo_call_def)
qed

text \<open>Two confirmations in a row, the LLM failing on the first.\<close>

definition demo_flaky :: "string result \<times> (sqlite_store, demo_world) conv_state" where
  "demo_flaky = demo_yes [Inl (ExternalError ''llm''), demo_answer ''Booked'']"

lemma failed_reply_keeps_confirmation_witness:
  "cv_session (snd demo_flaky) = demo_pending
   \<and> dw_log (cv_world (snd (handle_message (demo_rt sqlite_ops) ''whatsapp:1'' ''yes'' (snd demo_flaky))))
       = [''book_room'', ''book_room'']"
proof -
  let ?s = "demo_state demo_pending [Inl (ExternalError ''llm''), demo_answer ''Booked'']"
  have y: "parse_confirmation_reply ''Yes '' = Some Yes"
    and r: "fst demo_flaky = Inl (ExternalError ''llm'')"
    and t: "cv_trace (snd demo_flaky) =
      [EvVisit ''1'', EvCheckInput ''Yes '', EvToolCall ''book_room'' [(''room_type'', JStr ''suite'')],
       EvContinue [turn ''user'' ''Yes ''] demo_call (JBool True)]"
    and twice: "dw_log (cv_world (snd (handle_message (demo_rt sqlite_ops) ''whatsapp:1'' ''yes''
      (snd demo_flaky)))) = [''book_room'', ''book_room'']"
    by code_simp+
  have p: "so_get_pending (rt_session (demo_rt sqlite_ops)) (cv_session ?s) ''whatsapp:1''
      = Some \<lparr>cr_tool_call = demo_call\<rparr>"
    by (simp add: demo_state_def demo_pending_call)
  have run: "handle_message (demo_rt sqlite_ops) ''whatsapp:1'' ''Yes '' ?s
      = (Inl (ExternalError ''llm''), snd demo_flaky)"
    using r by (simp add: demo_flaky_def prod_eq_iff)
  have t': "cv_trace (snd demo_flaky) = cv_trace ?s @ cv_trace (snd demo_flaky)"
    by (simp add: demo_state_def)
  have "last (cv_trace (snd demo_flaky)) = EvContinue [turn ''user'' ''Yes ''] demo_call (JBool True)"
    "cv_trace (snd demo_flaky) \<noteq> []"
    by (simp_all add: t)
  from failed_reply_keeps_confirmation [OF p y run t' this(2,1)] twice show ?thesis
    by (simp add: demo_state_def)
qed

end
