(* ===== verification/Dedupe.thy ===== *)
theory Dedupe
  imports Prelude
begin

text \<open>
  Message-id dedupe (\<open>interface_layer/dedupe.py\<close>): a dictionary from id to the time it was
  first seen, in insertion order, from whose front expired entries are evicted on every call. The
  specification keeps every accepted delivery for ever and compares times.
\<close>

record dedupe_store =
  dd_ttl_seconds :: time
  dd_seen :: "(string \<times> time) list"

definition default_dedupe_ttl :: time where
  "default_dedupe_ttl = 86400"

definition dedupe_init :: "time \<Rightarrow> dedupe_store" where
  "dedupe_init ttl = \<lparr>dd_ttl_seconds = ttl, dd_seen = []\<rparr>"

text \<open>The eviction loop: delete the oldest entry while there is one and it is too old.\<close>

fun evict_loop :: "time \<Rightarrow> (string \<times> time) list \<Rightarrow> (string \<times> time) list" where
  "evict_loop cutoff [] = []"
| "evict_loop cutoff ((oldest_id, t) # rest) =
     (if cutoff \<le> t then (oldest_id, t) # rest else evict_loop cutoff rest)"

definition evict_expired :: "time \<Rightarrow> dedupe_store \<Rightarrow> dedupe_store" where
  "evict_expired now d = d\<lparr>dd_seen := evict_loop (now - dd_ttl_seconds d) (dd_seen d)\<rparr>"

definition is_duplicate :: "string \<Rightarrow> time \<Rightarrow> dedupe_store \<Rightarrow> bool \<times> dedupe_store" where
  "is_duplicate message_id now d =
     (let d1 = evict_expired now d
      in if message_id \<in> set (dkeys (dd_seen d1)) then (True, d1)
         else (False, d1\<lparr>dd_seen := AList.update message_id now (dd_seen d1)\<rparr>))"

text \<open>A sequence of calls, each an id with the clock's reading.\<close>

fun dedupe_run :: "dedupe_store \<Rightarrow> (string \<times> time) list \<Rightarrow> bool list" where
  "dedupe_run d [] = []"
| "dedupe_run d ((i, now) # calls) =
     (let (dup, d') = is_duplicate i now d in dup # dedupe_run d' calls)"

subsection \<open>Specification\<close>

definition seen_within :: "time \<Rightarrow> (string \<times> time) list \<Rightarrow> string \<Rightarrow> time \<Rightarrow> bool" where
  "seen_within ttl hist i now \<longleftrightarrow> list_ex (\<lambda>(j, t). j = i \<and> now - ttl \<le> t) hist"

fun dedupe_spec :: "time \<Rightarrow> (string \<times> time) list \<Rightarrow> (string \<times> time) list \<Rightarrow> bool list" where
  "dedupe_spec ttl hist [] = []"
| "dedupe_spec ttl hist ((i, now) # calls) =
     (if seen_within ttl hist i now then True # dedupe_spec ttl hist calls
      else False # dedupe_spec ttl (hist @ [(i, now)]) calls)"

subsection \<open>Refinement\<close>

lemma evict_loop_filter:
  "sorted (map snd xs) \<Longrightarrow> evict_loop c xs = filter (\<lambda>x. c \<le> snd x) xs"
proof (induction c xs rule: evict_loop.induct)
  case (1 c)
  then show ?case by simp
next
  case (2 c i t rest)
  then show ?case by (auto intro!: filter_True [symmetric])
qed

text \<open>
  The store after a call at time \<open>now\<close>: of the log of accepted deliveries, in order, those not
  older than the lifetime.
\<close>

definition dedupe_rel :: "time \<Rightarrow> (string \<times> time) list \<Rightarrow> dedupe_store \<Rightarrow> bool" where
  "dedupe_rel now hist d \<longleftrightarrow>
     dd_seen d = filter (\<lambda>x. now - dd_ttl_seconds d \<le> snd x) hist
     \<and> sorted (map snd hist) \<and> (\<forall>x \<in> set hist. snd x \<le> now)"

lemma dedupe_rel_evict:
  assumes "dedupe_rel now hist d" and "now \<le> now'"
  shows "dd_seen (evict_expired now' d) = filter (\<lambda>x. now' - dd_ttl_seconds d \<le> snd x) hist"
proof -
  from assms have "sorted (map snd (dd_seen d))"
    by (simp add: dedupe_rel_def sorted_filter)
  then have "dd_seen (evict_expired now' d) = filter (\<lambda>x. now' - dd_ttl_seconds d \<le> snd x) (dd_seen d)"
    by (simp add: evict_expired_def evict_loop_filter)
  also have "\<dots> = filter (\<lambda>x. now' - dd_ttl_seconds d \<le> snd x) hist"
    using assms by (auto simp: dedupe_rel_def intro!: filter_cong)
  finally show ?thesis .
qed

lemma evict_expired_ttl [simp]: "dd_ttl_seconds (evict_expired now d) = dd_ttl_seconds d"
  by (simp add: evict_expired_def)

lemma in_keys_filter_iff:
  "i \<in> set (dkeys (filter (\<lambda>x. c \<le> snd x) hist)) \<longleftrightarrow> list_ex (\<lambda>(j, t). j = i \<and> c \<le> t) hist"
  by (force simp: list_ex_iff)

lemma is_duplicate_step:
  assumes rel: "dedupe_rel now hist d" and "now \<le> now'" and "0 \<le> dd_ttl_seconds d"
    and step: "is_duplicate i now' d = (dup, d')"
  shows "dup = seen_within (dd_ttl_seconds d) hist i now'"
    and "dedupe_rel now' (if dup then hist else hist @ [(i, now')]) d'"
    and "dd_ttl_seconds d' = dd_ttl_seconds d"
proof -
  let ?kept = "filter (\<lambda>x. now' - dd_ttl_seconds d \<le> snd x) hist"
  have ev: "dd_seen (evict_expired now' d) = ?kept"
    by (rule dedupe_rel_evict [OF rel assms(2)])
  have dup: "dup \<longleftrightarrow> i \<in> set (dkeys ?kept)"
    using step by (auto simp: is_duplicate_def Let_def ev split: if_splits)
  then show "dup = seen_within (dd_ttl_seconds d) hist i now'"
    by (simp only: in_keys_filter_iff seen_within_def)
  show "dd_ttl_seconds d' = dd_ttl_seconds d"
    using step by (auto simp: is_duplicate_def Let_def split: if_splits)
  have hist: "sorted (map snd hist)" "\<forall>x \<in> set hist. snd x \<le> now'"
    using rel assms(2) by (auto simp: dedupe_rel_def)
  show "dedupe_rel now' (if dup then hist else hist @ [(i, now')]) d'"
  proof (cases dup)
    case True
    with step dup hist show ?thesis
      by (auto simp: is_duplicate_def Let_def ev dedupe_rel_def split: if_splits)
  next
    case False
    with dup have "AList.update i now' ?kept = ?kept @ [(i, now')]"
      by (simp add: update_new_append)
    with False step dup hist assms(3) show ?thesis
      by (auto simp: is_duplicate_def Let_def ev dedupe_rel_def sorted_append split: if_splits)
  qed
qed

lemma dedupe_run_refines_from:
  assumes "dedupe_rel now hist d" and "0 \<le> dd_ttl_seconds d"
    and "sorted (now # map snd calls)"
  shows "dedupe_run d calls = dedupe_spec (dd_ttl_seconds d) hist calls"
  using assms
proof (induction calls arbitrary: now hist d)
  case Nil
  then show ?case by simp
next
  case (Cons call calls)
  obtain i t where call: "call = (i, t)" by (cases call)
  obtain dup d' where step: "is_duplicate i t d = (dup, d')" by (cases "is_duplicate i t d")
  have "now \<le> t" and rest: "sorted (t # map snd calls)"
    using Cons.prems(3) call by auto
  note after = is_duplicate_step [OF Cons.prems(1) \<open>now \<le> t\<close> Cons.prems(2) step]
  have "dedupe_run d' calls =
      dedupe_spec (dd_ttl_seconds d) (if dup then hist else hist @ [(i, t)]) calls"
    using Cons.IH [OF after(2) _ rest] Cons.prems(2) after(3) by simp
  with step call after(1) show ?case by (cases dup) simp_all
qed

text \<open>
  C12: for a clock that never goes back, the evicting store answers every sequence of deliveries
  as the specification that never forgets: a delivery is a duplicate exactly when the same id was
  accepted at most the lifetime ago. A refused repetition does not extend the lifetime.
\<close>

theorem dedupe_refines_spec:
  assumes "sorted (map snd calls)" and "0 \<le> ttl"
  shows "dedupe_run (dedupe_init ttl) calls = dedupe_spec ttl [] calls"
proof (cases calls)
  case Nil
  then show ?thesis by simp
next
  case (Cons call rest)
  then show ?thesis
    using assms dedupe_run_refines_from [of "snd call" "[]" "dedupe_init ttl" calls]
    by (simp add: dedupe_rel_def dedupe_init_def)
qed

theorem dedupe_refines_spec_witness:
  "dedupe_run (dedupe_init 10) [(''a'', 0), (''a'', 10), (''b'', 11), (''a'', 11), (''a'', 12)]
     = [False, True, False, False, True]"
proof -
  have "dedupe_run (dedupe_init 10) [(''a'', 0), (''a'', 10), (''b'', 11), (''a'', 11), (''a'', 12)]
      = dedupe_spec 10 [] [(''a'', 0), (''a'', 10), (''b'', 11), (''a'', 11), (''a'', 12)]"
    by (rule dedupe_refines_spec) simp_all
  then show ?thesis by (simp add: seen_within_def)
qed

end
