(* ===== verification/Rate_Limiter.thy ===== *)
theory Rate_Limiter
  imports Prelude
begin

text \<open>
  Per-Customer rate limiting (\<open>interface_layer/rate_limiter.py\<close>): a sliding window of admitted
  times per key, with a sweep of idle keys every 500 calls. The specification keeps one log of
  admitted calls for ever. The clock's reading \<open>now\<close> is an argument of each call.
\<close>

record rate_limiter =
  lm_max_per_minute :: int
  lm_idle_ttl_seconds :: time
  lm_timestamps :: "time list dict"
  lm_last_seen :: "time dict"
  lm_call_count :: nat

definition sweep_interval :: nat where
  "sweep_interval = 500"

definition window_seconds :: time where
  "window_seconds = 60"

definition limiter_init :: "int \<Rightarrow> time \<Rightarrow> rate_limiter" where
  "limiter_init max_per_minute idle_ttl =
     \<lparr>lm_max_per_minute = max_per_minute, lm_idle_ttl_seconds = idle_ttl,
      lm_timestamps = [], lm_last_seen = [], lm_call_count = 0\<rparr>"

definition default_limiter :: rate_limiter where
  "default_limiter = limiter_init 20 3600"

text \<open>The loop of \<open>_sweep_locked\<close>: two \<open>del\<close> statements per key, either of which may raise.\<close>

fun drop_keys :: "string list \<Rightarrow> (rate_limiter, unit) cmd" where
  "drop_keys [] = ret ()"
| "drop_keys (key # keys) =
     bindC (gets lm_timestamps) (\<lambda>ts.
     bindC (liftR (dict_index ts key)) (\<lambda>_.
     bindC (modify (\<lambda>l. l\<lparr>lm_timestamps := AList.delete key ts\<rparr>)) (\<lambda>_.
     bindC (gets lm_last_seen) (\<lambda>ls.
     bindC (liftR (dict_index ls key)) (\<lambda>_.
     bindC (modify (\<lambda>l. l\<lparr>lm_last_seen := AList.delete key ls\<rparr>)) (\<lambda>_.
     drop_keys keys))))))"

definition stale_keys :: "time \<Rightarrow> rate_limiter \<Rightarrow> string list" where
  "stale_keys now l = dkeys (filter (\<lambda>(key, seen). seen < now - lm_idle_ttl_seconds l) (lm_last_seen l))"

definition sweep :: "time \<Rightarrow> (rate_limiter, unit) cmd" where
  "sweep now = bindC (gets (stale_keys now)) drop_keys"

definition in_window :: "time \<Rightarrow> time list \<Rightarrow> time list" where
  "in_window now ts = filter (\<lambda>t. now - window_seconds < t) ts"

definition allow :: "string \<Rightarrow> time \<Rightarrow> (rate_limiter, bool) cmd" where
  "allow key now =
     bindC (gets (\<lambda>l. in_window now (dget_default (lm_timestamps l) key []))) (\<lambda>ts.
     bindC (gets (\<lambda>l. int (length ts) < lm_max_per_minute l)) (\<lambda>allowed.
     bindC (modify (\<lambda>l. l\<lparr>lm_timestamps :=
              AList.update key (if allowed then ts @ [now] else ts) (lm_timestamps l)\<rparr>)) (\<lambda>_.
     bindC (modify (\<lambda>l. l\<lparr>lm_last_seen := AList.update key now (lm_last_seen l)\<rparr>)) (\<lambda>_.
     bindC (modify (\<lambda>l. l\<lparr>lm_call_count := lm_call_count l + 1\<rparr>)) (\<lambda>_.
     bindC (gets lm_call_count) (\<lambda>n.
     bindC (if n mod sweep_interval = 0 then sweep now else ret ()) (\<lambda>_.
     ret allowed)))))))"

fun limiter_run :: "rate_limiter \<Rightarrow> (string \<times> time) list \<Rightarrow> bool result list" where
  "limiter_run l [] = []"
| "limiter_run l ((key, now) # calls) = (let (r, l') = allow key now l in r # limiter_run l' calls)"

subsection \<open>Specification\<close>

definition times_of :: "string \<Rightarrow> (string \<times> time) list \<Rightarrow> time list" where
  "times_of key hist = map snd (filter (\<lambda>x. fst x = key) hist)"

definition spec_allows :: "int \<Rightarrow> (string \<times> time) list \<Rightarrow> string \<Rightarrow> time \<Rightarrow> bool" where
  "spec_allows m hist key now \<longleftrightarrow> int (length (in_window now (times_of key hist))) < m"

fun limiter_spec :: "int \<Rightarrow> (string \<times> time) list \<Rightarrow> (string \<times> time) list \<Rightarrow> bool list" where
  "limiter_spec m hist [] = []"
| "limiter_spec m hist ((key, now) # calls) =
     (if spec_allows m hist key now then True # limiter_spec m (hist @ [(key, now)]) calls
      else False # limiter_spec m hist calls)"

subsection \<open>The two dictionaries have the same keys, so nothing raises\<close>

definition lm_inv :: "rate_limiter \<Rightarrow> bool" where
  "lm_inv l \<longleftrightarrow> dkeys (lm_timestamps l) = dkeys (lm_last_seen l) \<and> distinct (dkeys (lm_last_seen l))"

definition forget_keys :: "string list \<Rightarrow> rate_limiter \<Rightarrow> rate_limiter" where
  "forget_keys ks l = l\<lparr>lm_timestamps := fold AList.delete ks (lm_timestamps l),
                       lm_last_seen := fold AList.delete ks (lm_last_seen l)\<rparr>"

lemma dkeys_delete: "dkeys (AList.delete k d) = filter (\<lambda>x. x \<noteq> k) (dkeys d)"
  by (induction d) auto

lemma dict_index_member: "k \<in> set (dkeys d) \<Longrightarrow> \<exists>v. dict_index d k = Inr v"
  by (cases "dget d k") (auto simp: dict_index_def map_of_eq_None_iff)

lemma drop_keys_run:
  "lm_inv l \<Longrightarrow> distinct ks \<Longrightarrow> set ks \<subseteq> set (dkeys (lm_last_seen l)) \<Longrightarrow>
     drop_keys ks l = (Inr (), forget_keys ks l) \<and> lm_inv (forget_keys ks l)"
proof (induction ks arbitrary: l)
  case Nil
  then show ?case by (simp add: forget_keys_def)
next
  case (Cons k ks)
  let ?l = "l\<lparr>lm_timestamps := AList.delete k (lm_timestamps l),
              lm_last_seen := AList.delete k (lm_last_seen l)\<rparr>"
  have keys: "k \<in> set (dkeys (lm_timestamps l))" "k \<in> set (dkeys (lm_last_seen l))"
    using Cons.prems unfolding lm_inv_def by (metis list.set_intros(1) subsetD)+
  have inv: "lm_inv ?l"
    using Cons.prems(1) by (simp add: lm_inv_def dkeys_delete)
  have sub: "set ks \<subseteq> set (dkeys (lm_last_seen ?l))"
    using Cons.prems(2,3) by (auto simp: dkeys_delete simp del: set_map)
  obtain ts u where "dict_index (lm_timestamps l) k = Inr ts" "dict_index (lm_last_seen l) k = Inr u"
    using dict_index_member [OF keys(1)] dict_index_member [OF keys(2)] by blast
  then have "drop_keys (k # ks) l = drop_keys ks ?l"
    by (simp add: bindC_apply)
  moreover have "forget_keys (k # ks) l = forget_keys ks ?l"
    by (simp add: forget_keys_def)
  ultimately show ?case
    using Cons.IH [OF inv _ sub] Cons.prems(2) by simp
qed

lemma fold_delete_get:
  "dget (fold AList.delete ks d) k = (if k \<in> set ks then None else dget d k)"
  by (induction ks arbitrary: d) auto

lemma sweep_run:
  assumes "lm_inv l"
  shows "sweep now l = (Inr (), forget_keys (stale_keys now l) l)"
    and "lm_inv (forget_keys (stale_keys now l) l)"
proof -
  have "distinct (stale_keys now l)" "set (stale_keys now l) \<subseteq> set (dkeys (lm_last_seen l))"
    using assms by (auto simp: stale_keys_def lm_inv_def distinct_map_filter)
  from drop_keys_run [OF assms this]
  show "sweep now l = (Inr (), forget_keys (stale_keys now l) l)"
    and "lm_inv (forget_keys (stale_keys now l) l)"
    by (simp_all add: sweep_def bindC_apply)
qed

text \<open>The state of \<open>allow\<close> before the sweep.\<close>

definition touched :: "string \<Rightarrow> time \<Rightarrow> rate_limiter \<Rightarrow> rate_limiter" where
  "touched key now l =
     (let ts = in_window now (dget_default (lm_timestamps l) key [])
      in l\<lparr>lm_timestamps := AList.update key
              (if int (length ts) < lm_max_per_minute l then ts @ [now] else ts) (lm_timestamps l),
            lm_last_seen := AList.update key now (lm_last_seen l),
            lm_call_count := lm_call_count l + 1\<rparr>)"

lemma lm_inv_touched: "lm_inv l \<Longrightarrow> lm_inv (touched key now l)"
  by (simp add: lm_inv_def touched_def Let_def dkeys_update distinct_update)

lemma allow_run:
  assumes "lm_inv l"
  shows "allow key now l =
    (Inr (int (length (in_window now (dget_default (lm_timestamps l) key []))) < lm_max_per_minute l),
     if (lm_call_count l + 1) mod sweep_interval = 0
     then forget_keys (stale_keys now (touched key now l)) (touched key now l)
     else touched key now l)"
proof -
  have "lm_inv (touched key now l)" by (rule lm_inv_touched [OF assms])
  note swept = sweep_run(1) [OF this, of now]
  have count: "lm_call_count (touched key now l) = lm_call_count l + 1"
    by (simp add: touched_def Let_def)
  have "allow key now l =
      bindC (if (lm_call_count l + 1) mod sweep_interval = 0 then sweep now else ret ())
        (\<lambda>_. ret (int (length (in_window now (dget_default (lm_timestamps l) key []))) < lm_max_per_minute l))
        (touched key now l)"
    by (simp add: allow_def bindC_apply touched_def Let_def)
  then show ?thesis
    by (simp add: bindC_apply swept)
qed

subsection \<open>Refinement\<close>

text \<open>
  The window of a key depends only on its recent times: the store agrees with the log on every
  time that can still matter, and a key's times are not after it was last seen.
\<close>

definition lm_rel :: "time \<Rightarrow> (string \<times> time) list \<Rightarrow> rate_limiter \<Rightarrow> bool" where
  "lm_rel now hist l \<longleftrightarrow> lm_inv l
     \<and> (\<forall>k. in_window now (dget_default (lm_timestamps l) k []) = in_window now (times_of k hist))
     \<and> (\<forall>k seen. dget (lm_last_seen l) k = Some seen \<longrightarrow>
          list_all (\<lambda>t. t \<le> seen) (dget_default (lm_timestamps l) k []))
     \<and> list_all (\<lambda>x. snd x \<le> now) hist"

lemma in_window_later:
  "now \<le> now' \<Longrightarrow> in_window now' (in_window now ts) = in_window now' ts"
  by (auto simp: in_window_def intro!: filter_cong)

lemma in_window_mono:
  "in_window now xs = in_window now ys \<Longrightarrow> now \<le> now' \<Longrightarrow> in_window now' xs = in_window now' ys"
  by (metis in_window_later)

lemma in_window_append: "in_window now (xs @ ys) = in_window now xs @ in_window now ys"
  by (simp add: in_window_def)

lemma in_window_Nil [simp]: "in_window now [] = []"
  by (simp add: in_window_def)

lemma in_window_idem: "in_window now (in_window now ts) = in_window now ts"
  by (simp add: in_window_later)

lemma times_of_snoc:
  "times_of k (hist @ [(key, now)]) = times_of k hist @ (if k = key then [now] else [])"
  by (simp add: times_of_def)

lemma lm_rel_later:
  assumes "lm_rel now hist l" and "now \<le> now'"
  shows "lm_rel now' hist l"
  using assms unfolding lm_rel_def
  by (auto intro: in_window_mono simp: list_all_iff dest: order_trans)

lemma in_window_all_old: "list_all (\<lambda>t. t \<le> seen) ts \<Longrightarrow> seen < now - 60 \<Longrightarrow> in_window now ts = []"
  unfolding in_window_def window_seconds_def by (force simp: list_all_iff filter_empty_conv)

lemma lm_rel_forget:
  assumes "lm_rel now hist l" and "60 \<le> lm_idle_ttl_seconds l"
  shows "lm_rel now hist (forget_keys (stale_keys now l) l)"
proof -
  have inv: "lm_inv l" using assms(1) by (simp add: lm_rel_def)
  let ?l = "forget_keys (stale_keys now l) l"
  have old: "in_window now (dget_default (lm_timestamps l) k []) = []" if "k \<in> set (stale_keys now l)" for k
  proof -
    from that obtain seen where "(k, seen) \<in> set (lm_last_seen l)"
      and seen: "seen < now - lm_idle_ttl_seconds l"
      by (auto simp: stale_keys_def)
    then have "dget (lm_last_seen l) k = Some seen"
      using inv by (simp add: lm_inv_def)
    then have "list_all (\<lambda>t. t \<le> seen) (dget_default (lm_timestamps l) k [])"
      using assms(1) unfolding lm_rel_def by blast
    then show ?thesis
      using seen assms(2) by (intro in_window_all_old) auto
  qed
  have get: "dget_default (lm_timestamps ?l) k [] =
      (if k \<in> set (stale_keys now l) then [] else dget_default (lm_timestamps l) k [])" for k
    by (simp add: forget_keys_def dget_default_def fold_delete_get)
  have seen: "dget (lm_last_seen ?l) k = (if k \<in> set (stale_keys now l) then None else dget (lm_last_seen l) k)" for k
    by (simp add: forget_keys_def fold_delete_get)
  show ?thesis
    unfolding lm_rel_def
  proof (intro conjI allI impI)
    show "lm_inv ?l" by (rule sweep_run(2) [OF inv])
    show "in_window now (dget_default (lm_timestamps ?l) k []) = in_window now (times_of k hist)" for k
      using assms(1) old [of k] by (simp add: get lm_rel_def split: if_splits)
    show "list_all (\<lambda>t. t \<le> u) (dget_default (lm_timestamps ?l) k [])"
      if "dget (lm_last_seen ?l) k = Some u" for k u
      using that assms(1) by (simp add: get seen lm_rel_def split: if_splits)
    show "list_all (\<lambda>x. snd x \<le> now) hist"
      using assms(1) by (simp add: lm_rel_def)
  qed
qed

lemma dget_default_update:
  "dget_default (AList.update k' v d) k x = (if k = k' then v else dget_default d k x)"
  by (simp add: dget_default_def)

lemma lm_rel_touched:
  fixes key :: string
  assumes "lm_rel now hist l"
  defines "ok \<equiv> spec_allows (lm_max_per_minute l) hist key now"
  shows "lm_rel now (if ok then hist @ [(key, now)] else hist) (touched key now l)"
proof -
  have win: "in_window now (dget_default (lm_timestamps l) k []) = in_window now (times_of k hist)" for k
    using assms(1) by (simp add: lm_rel_def)
  have old: "list_all (\<lambda>t. t \<le> now) (times_of key hist)"
    using assms(1) by (auto simp: lm_rel_def times_of_def list_all_iff)
  have get: "dget_default (lm_timestamps (touched key now l)) k [] =
      (if k = key then in_window now (times_of key hist) @ (if ok then [now] else [])
       else dget_default (lm_timestamps l) k [])" for k
    by (simp add: touched_def Let_def dget_default_update win ok_def spec_allows_def)
  have seen: "dget (lm_last_seen (touched key now l)) k = (if k = key then Some now else dget (lm_last_seen l) k)" for k
    by (simp add: touched_def Let_def)
  show ?thesis
    unfolding lm_rel_def
  proof (intro conjI allI impI)
    show "lm_inv (touched key now l)"
      using assms(1) by (simp add: lm_rel_def lm_inv_touched)
    show "in_window now (dget_default (lm_timestamps (touched key now l)) k []) =
        in_window now (times_of k (if ok then hist @ [(key, now)] else hist))" for k
      by (simp add: get times_of_snoc in_window_append in_window_idem win)
    show "list_all (\<lambda>t. t \<le> u) (dget_default (lm_timestamps (touched key now l)) k [])"
      if "dget (lm_last_seen (touched key now l)) k = Some u" for k u
      using that assms(1) old
      by (auto simp: get seen lm_rel_def in_window_def list_all_iff split: if_splits)
    show "list_all (\<lambda>x. snd x \<le> now) (if ok then hist @ [(key, now)] else hist)"
      using assms(1) by (simp add: lm_rel_def)
  qed
qed

lemma touched_fields [simp]:
  "lm_idle_ttl_seconds (touched key now l) = lm_idle_ttl_seconds l"
  "lm_max_per_minute (touched key now l) = lm_max_per_minute l"
  "lm_idle_ttl_seconds (forget_keys ks l) = lm_idle_ttl_seconds l"
  "lm_max_per_minute (forget_keys ks l) = lm_max_per_minute l"
  by (simp_all add: touched_def Let_def forget_keys_def)

lemma allow_step:
  assumes rel: "lm_rel now hist l" and "now \<le> now'" and ttl: "60 \<le> lm_idle_ttl_seconds l"
    and step: "allow key now' l = (r, l')"
  defines "ok \<equiv> spec_allows (lm_max_per_minute l) hist key now'"
  shows "r = Inr ok \<and> lm_rel now' (if ok then hist @ [(key, now')] else hist) l'
    \<and> lm_idle_ttl_seconds l' = lm_idle_ttl_seconds l \<and> lm_max_per_minute l' = lm_max_per_minute l"
proof -
  have rel': "lm_rel now' hist l" by (rule lm_rel_later [OF rel assms(2)])
  then have inv: "lm_inv l"
    and win: "in_window now' (dget_default (lm_timestamps l) key []) = in_window now' (times_of key hist)"
    by (simp_all add: lm_rel_def)
  note touched = lm_rel_touched [OF rel', of key, folded ok_def]
  note forgotten = lm_rel_forget [OF touched]
  show ?thesis
    using step touched forgotten ttl unfolding allow_run [OF inv] win
    by (auto simp: ok_def spec_allows_def)
qed

lemma limiter_run_refines_from:
  assumes "lm_rel now hist l" and "60 \<le> lm_idle_ttl_seconds l" and "sorted (now # map snd calls)"
  shows "limiter_run l calls = map Inr (limiter_spec (lm_max_per_minute l) hist calls)"
  using assms
proof (induction calls arbitrary: now hist l)
  case Nil
  then show ?case by simp
next
  case (Cons call calls)
  obtain key t where call: "call = (key, t)" by (cases call)
  obtain r l' where step: "allow key t l = (r, l')" by (cases "allow key t l")
  have "now \<le> t" and rest: "sorted (t # map snd calls)"
    using Cons.prems(3) call by auto
  note after = allow_step [OF Cons.prems(1) \<open>now \<le> t\<close> Cons.prems(2) step]
  have "limiter_run l' calls = map Inr (limiter_spec (lm_max_per_minute l)
      (if spec_allows (lm_max_per_minute l) hist key t then hist @ [(key, t)] else hist) calls)"
    using Cons.IH [of t _ l'] after Cons.prems(2) rest by auto
  with step call after show ?case by auto
qed

lemma lm_rel_init: "lm_rel now [] (limiter_init m ttl)"
  by (simp add: lm_rel_def lm_inv_def limiter_init_def dget_default_def times_of_def in_window_def)

text \<open>
  C11: for a clock that never goes back and an idle lifetime of at least a minute, the limiter
  answers every sequence of calls, over all keys and across all sweeps, as the specification that
  keeps every admitted call for ever, and no call raises (the sweep's \<open>del\<close> statements always
  find their key).
\<close>

theorem limiter_refines_spec:
  assumes "sorted (map snd calls)" and "60 \<le> ttl"
  shows "limiter_run (limiter_init m ttl) calls = map Inr (limiter_spec m [] calls)"
proof (cases calls)
  case Nil
  then show ?thesis by simp
next
  case (Cons call rest)
  with assms have "sorted (snd call # map snd calls)" by simp
  from limiter_run_refines_from [OF lm_rel_init _ this, of m ttl]
  show ?thesis using assms(2) by (simp add: limiter_init_def)
qed

theorem limiter_refines_spec_witness:
  "limiter_run (limiter_init 2 3600) [(''a'', 0), (''a'', 1), (''a'', 59), (''b'', 59), (''a'', 60), (''a'', 60.5)]
     = map Inr [True, True, False, True, True, False]"
proof -
  have "limiter_run (limiter_init 2 3600)
      [(''a'', 0), (''a'', 1), (''a'', 59), (''b'', 59), (''a'', 60), (''a'', 60.5)]
      = map Inr (limiter_spec 2 [] [(''a'', 0), (''a'', 1), (''a'', 59), (''b'', 59), (''a'', 60), (''a'', 60.5)])"
    by (rule limiter_refines_spec) simp_all
  then show ?thesis
    by (simp add: spec_allows_def in_window_def times_of_def window_seconds_def)
qed

subsection \<open>The bound\<close>

definition admitted :: "(string \<times> time) list \<Rightarrow> bool result list \<Rightarrow> (string \<times> time) list" where
  "admitted calls answers = map fst (filter (\<lambda>x. snd x = Inr True) (zip calls answers))"

definition admitted_between :: "string \<Rightarrow> time \<Rightarrow> time \<Rightarrow> (string \<times> time) list \<Rightarrow> nat" where
  "admitted_between key a b hist = length (filter (\<lambda>t. a < t \<and> t \<le> b) (times_of key hist))"

text \<open>The whole log the specification ends with.\<close>

fun spec_log :: "int \<Rightarrow> (string \<times> time) list \<Rightarrow> (string \<times> time) list \<Rightarrow> (string \<times> time) list" where
  "spec_log m hist [] = hist"
| "spec_log m hist ((key, now) # calls) =
     spec_log m (if spec_allows m hist key now then hist @ [(key, now)] else hist) calls"

lemma admitted_Cons: "admitted (c # cs) (a # as) = (if a = Inr True then [c] else []) @ admitted cs as"
  by (simp add: admitted_def)

lemma spec_log_admitted: "hist @ admitted calls (map Inr (limiter_spec m hist calls)) = spec_log m hist calls"
proof (induction m hist calls rule: spec_log.induct)
  case (1 m hist)
  then show ?case by (simp add: admitted_def)
next
  case (2 m hist key now calls)
  then show ?case by (auto simp: admitted_Cons)
qed

definition log_bounded :: "int \<Rightarrow> (string \<times> time) list \<Rightarrow> bool" where
  "log_bounded m hist \<longleftrightarrow> (\<forall>key t. admitted_between key (t - 60) t hist \<le> nat m)"

lemma filter_length_le: "(\<And>x. x \<in> set xs \<Longrightarrow> P x \<Longrightarrow> Q x) \<Longrightarrow> length (filter P xs) \<le> length (filter Q xs)"
  by (induction xs) (auto simp: le_SucI)

lemma log_bounded_step:
  assumes "log_bounded m hist" and "spec_allows m hist key now"
    and "list_all (\<lambda>x. snd x \<le> now) hist"
  shows "log_bounded m (hist @ [(key, now)])"
  unfolding log_bounded_def
proof (intro allI)
  fix k t
  have before: "admitted_between k (t - 60) t hist \<le> nat m"
    using assms(1) by (simp add: log_bounded_def)
  show "admitted_between k (t - 60) t (hist @ [(key, now)]) \<le> nat m"
  proof (cases "k = key \<and> t - 60 < now \<and> now \<le> t")
    case False
    with before show ?thesis by (simp add: admitted_between_def times_of_snoc)
  next
    case True
    have "admitted_between k (t - 60) t hist \<le> length (in_window now (times_of key hist))"
      unfolding admitted_between_def in_window_def window_seconds_def
      using True by (auto intro!: filter_length_le)
    with True assms(2) show ?thesis
      by (simp add: admitted_between_def times_of_snoc spec_allows_def)
  qed
qed

lemma spec_log_bounded:
  "log_bounded m hist \<Longrightarrow> list_all (\<lambda>x. snd x \<le> now) hist \<Longrightarrow> sorted (now # map snd calls) \<Longrightarrow>
     log_bounded m (spec_log m hist calls)"
proof (induction m hist calls arbitrary: now rule: spec_log.induct)
  case (1 m hist)
  then show ?case by simp
next
  case (2 m hist key t calls)
  have old: "list_all (\<lambda>x. snd x \<le> t) hist"
    using 2(3,4) by (auto simp: list_all_iff)
  let ?hist = "if spec_allows m hist key t then hist @ [(key, t)] else hist"
  have "log_bounded m ?hist" "list_all (\<lambda>x. snd x \<le> t) ?hist"
    using log_bounded_step [OF 2(2) _ old] 2(2) old by auto
  moreover have "sorted (t # map snd calls)" using 2(4) by simp
  ultimately have "log_bounded m (spec_log m ?hist calls)" by (rule 2(1))
  then show ?case by (simp only: spec_log.simps)
qed

lemma limiter_admits_bounded:
  assumes "sorted (map snd calls)" and "60 \<le> ttl"
  shows "admitted_between key (t - 60) t (admitted calls (limiter_run (limiter_init m ttl) calls)) \<le> nat m"
proof (cases calls)
  case Nil
  then show ?thesis by (simp add: admitted_def admitted_between_def times_of_def)
next
  case (Cons call rest)
  with assms(1) have sorted: "sorted (snd call # map snd calls)" by simp
  have "limiter_run (limiter_init m ttl) calls = map Inr (limiter_spec m [] calls)"
    using limiter_run_refines_from [OF lm_rel_init _ sorted, of m ttl] assms(2)
    by (simp add: limiter_init_def)
  moreover have "log_bounded m (spec_log m [] calls)"
    using sorted by (rule spec_log_bounded [rotated 2])
      (simp_all add: log_bounded_def admitted_between_def times_of_def)
  ultimately show ?thesis
    using spec_log_admitted [of "[]" calls m] by (simp add: log_bounded_def)
qed

end
