(* ===== verification/Interface_Layer.thy ===== *)
theory Interface_Layer
  imports Conversation_Safety Dedupe Rate_Limiter
begin

text \<open>
  The Interface Layer (\<open>interface_layer/contract.py\<close>, \<open>interface_layer/service.py\<close>):
  dedupe, then rate limit, then business routing, then the runtime. The registry is a dictionary
  from business keys to runtimes; the state holds the two stores and, per business, the state its
  runtime works on. \<open>process\<close> takes the two clock readings as an argument, in the order the
  code reads them.
\<close>

definition max_message_length :: nat where
  "max_message_length = 4096"

record inbound_request =
  ir_business_key :: string
  ir_session_key :: string
  ir_rate_limit_key :: string
  ir_message_id :: string
  ir_message_text :: string

text \<open>Construction through pydantic: the field bound on the text is checked, in code points.\<close>

definition make_inbound_request ::
  "string \<Rightarrow> string \<Rightarrow> string \<Rightarrow> string \<Rightarrow> string \<Rightarrow> inbound_request result" where
  "make_inbound_request business_key session_key rate_limit_key message_id message_text =
     (if max_message_length < py_len message_text then Inl ValidationError
      else Inr \<lparr>ir_business_key = business_key, ir_session_key = session_key,
                ir_rate_limit_key = rate_limit_key, ir_message_id = message_id,
                ir_message_text = message_text\<rparr>)"

datatype response_status = StatusOk | RateLimited | Duplicate | UnknownBusiness

record outbound_response =
  or_status :: response_status
  or_text :: "string option"
  or_awaiting_confirmation :: bool

definition bare_response :: "response_status \<Rightarrow> outbound_response" where
  "bare_response st = \<lparr>or_status = st, or_text = None, or_awaiting_confirmation = False\<rparr>"

record ('ss, 'w) layer_state =
  il_dedupe :: dedupe_store
  il_limiter :: rate_limiter
  il_conv :: "string \<Rightarrow> ('ss, 'w) conv_state"

definition layer_dedupe :: "string \<Rightarrow> time \<Rightarrow> (('ss, 'w) layer_state, bool) cmd" where
  "layer_dedupe i now = (\<lambda>s. case is_duplicate i now (il_dedupe s) of
     (dup, d) \<Rightarrow> (Inr dup, s\<lparr>il_dedupe := d\<rparr>))"

definition layer_allow :: "string \<Rightarrow> time \<Rightarrow> (('ss, 'w) layer_state, bool) cmd" where
  "layer_allow key now = (\<lambda>s. case allow key now (il_limiter s) of
     (r, l) \<Rightarrow> (r, s\<lparr>il_limiter := l\<rparr>))"

definition on_business :: "string \<Rightarrow> (('ss, 'w) conv_state, 'a) cmd \<Rightarrow> (('ss, 'w) layer_state, 'a) cmd" where
  "on_business b m = (\<lambda>s. case m (il_conv s b) of
     (r, c) \<Rightarrow> (r, s\<lparr>il_conv := (il_conv s)(b := c)\<rparr>))"

definition process ::
  "('ss, 'w) runtime dict \<Rightarrow> inbound_request \<Rightarrow> time \<times> time \<Rightarrow> (('ss, 'w) layer_state, outbound_response) cmd" where
  "process registry request clock =
     bindC (layer_dedupe (ir_message_id request) (fst clock)) (\<lambda>dup.
     if dup then ret (bare_response Duplicate)
     else bindC (layer_allow (ir_rate_limit_key request) (snd clock)) (\<lambda>allowed.
     if \<not> allowed then ret (bare_response RateLimited)
     else case dget registry (ir_business_key request) of
       None \<Rightarrow> ret (bare_response UnknownBusiness)
     | Some rt \<Rightarrow>
         bindC (on_business (ir_business_key request)
                  (handle_message rt (ir_session_key request) (ir_message_text request))) (\<lambda>reply_text.
         bindC (gets (\<lambda>s. so_get_pending (rt_session rt)
                  (cv_session (il_conv s (ir_business_key request))) (ir_session_key request) \<noteq> None)) (\<lambda>awaiting.
         ret \<lparr>or_status = StatusOk, or_text = Some reply_text, or_awaiting_confirmation = awaiting\<rparr>))))"

fun process_run ::
  "('ss, 'w) runtime dict \<Rightarrow> ('ss, 'w) layer_state \<Rightarrow> (inbound_request \<times> time \<times> time) list
     \<Rightarrow> outbound_response result list \<times> ('ss, 'w) layer_state" where
  "process_run registry s [] = ([], s)"
| "process_run registry s ((request, clock) # rest) =
     (let (r, s1) = process registry request clock s; (rs, s2) = process_run registry s1 rest
      in (r # rs, s2))"

subsection \<open>What one request does\<close>

lemma process_duplicate:
  assumes "is_duplicate (ir_message_id q) t (il_dedupe s) = (True, d)"
  shows "process reg q (t, u) s = (Inr (bare_response Duplicate), s\<lparr>il_dedupe := d\<rparr>)"
  using assms by (simp add: process_def layer_dedupe_def bindC_def)

lemma process_limiter_raises:
  assumes "is_duplicate (ir_message_id q) t (il_dedupe s) = (False, d)"
    and "allow (ir_rate_limit_key q) u (il_limiter s) = (Inl e, l)"
  shows "process reg q (t, u) s = (Inl e, s\<lparr>il_dedupe := d, il_limiter := l\<rparr>)"
  using assms by (simp add: process_def layer_dedupe_def layer_allow_def bindC_def)

lemma process_rate_limited:
  assumes "is_duplicate (ir_message_id q) t (il_dedupe s) = (False, d)"
    and "allow (ir_rate_limit_key q) u (il_limiter s) = (Inr False, l)"
  shows "process reg q (t, u) s = (Inr (bare_response RateLimited), s\<lparr>il_dedupe := d, il_limiter := l\<rparr>)"
  using assms by (simp add: process_def layer_dedupe_def layer_allow_def bindC_def)

lemma process_unknown:
  assumes "is_duplicate (ir_message_id q) t (il_dedupe s) = (False, d)"
    and "allow (ir_rate_limit_key q) u (il_limiter s) = (Inr True, l)"
    and "dget reg (ir_business_key q) = None"
  shows "process reg q (t, u) s = (Inr (bare_response UnknownBusiness), s\<lparr>il_dedupe := d, il_limiter := l\<rparr>)"
  using assms by (simp add: process_def layer_dedupe_def layer_allow_def bindC_def)

lemma process_handled:
  assumes "is_duplicate (ir_message_id q) t (il_dedupe s) = (False, d)"
    and "allow (ir_rate_limit_key q) u (il_limiter s) = (Inr True, l)"
    and "dget reg (ir_business_key q) = Some rt"
    and "handle_message rt (ir_session_key q) (ir_message_text q) (il_conv s (ir_business_key q)) = (r, c)"
  shows "process reg q (t, u) s =
    (mapR (\<lambda>reply. \<lparr>or_status = StatusOk, or_text = Some reply,
        or_awaiting_confirmation = (so_get_pending (rt_session rt) (cv_session c) (ir_session_key q) \<noteq> None)\<rparr>) r,
     s\<lparr>il_dedupe := d, il_limiter := l, il_conv := (il_conv s)(ir_business_key q := c)\<rparr>)"
  using assms
  by (cases r) (simp_all add: process_def layer_dedupe_def layer_allow_def on_business_def bindC_def)

text \<open>The five ways a request can go, for case analysis.\<close>

lemma process_cases:
  assumes "process reg q (t, u) s = (r, s')"
  obtains (duplicate) d where
      "is_duplicate (ir_message_id q) t (il_dedupe s) = (True, d)"
      "r = Inr (bare_response Duplicate)" "s' = s\<lparr>il_dedupe := d\<rparr>"
  | (raises) d e l where
      "is_duplicate (ir_message_id q) t (il_dedupe s) = (False, d)"
      "allow (ir_rate_limit_key q) u (il_limiter s) = (Inl e, l)"
      "r = Inl e" "s' = s\<lparr>il_dedupe := d, il_limiter := l\<rparr>"
  | (rate_limited) d l where
      "is_duplicate (ir_message_id q) t (il_dedupe s) = (False, d)"
      "allow (ir_rate_limit_key q) u (il_limiter s) = (Inr False, l)"
      "r = Inr (bare_response RateLimited)" "s' = s\<lparr>il_dedupe := d, il_limiter := l\<rparr>"
  | (unknown) d l where
      "is_duplicate (ir_message_id q) t (il_dedupe s) = (False, d)"
      "allow (ir_rate_limit_key q) u (il_limiter s) = (Inr True, l)"
      "dget reg (ir_business_key q) = None"
      "r = Inr (bare_response UnknownBusiness)" "s' = s\<lparr>il_dedupe := d, il_limiter := l\<rparr>"
  | (handled) d l rt m c where
      "is_duplicate (ir_message_id q) t (il_dedupe s) = (False, d)"
      "allow (ir_rate_limit_key q) u (il_limiter s) = (Inr True, l)"
      "dget reg (ir_business_key q) = Some rt"
      "handle_message rt (ir_session_key q) (ir_message_text q) (il_conv s (ir_business_key q)) = (m, c)"
      "r = mapR (\<lambda>reply. \<lparr>or_status = StatusOk, or_text = Some reply,
        or_awaiting_confirmation = (so_get_pending (rt_session rt) (cv_session c) (ir_session_key q) \<noteq> None)\<rparr>) m"
      "s' = s\<lparr>il_dedupe := d, il_limiter := l, il_conv := (il_conv s)(ir_business_key q := c)\<rparr>"
proof -
  obtain dup d where d: "is_duplicate (ir_message_id q) t (il_dedupe s) = (dup, d)" by fastforce
  show ?thesis
  proof (cases dup)
    case True
    with d assms process_duplicate [of q t s d reg u] show ?thesis by (auto intro: duplicate)
  next
    case False
    note d = d [unfolded eq_False [THEN iffD2, OF False]]
    obtain a l where a: "allow (ir_rate_limit_key q) u (il_limiter s) = (a, l)" by fastforce
    show ?thesis
    proof (cases a)
      case (Inl e)
      with a d assms process_limiter_raises [of q t s d u e l reg] show ?thesis by (auto intro: raises)
    next
      case (Inr ok)
      show ?thesis
      proof (cases ok)
        case False
        with a d Inr assms process_rate_limited [of q t s d u l reg] show ?thesis by (auto intro: rate_limited)
      next
        case True
        note a = a [unfolded Inr eq_True [THEN iffD2, OF True]]
        show ?thesis
        proof (cases "dget reg (ir_business_key q)")
          case None
          with a d assms process_unknown [of q t s d u l reg] show ?thesis by (auto intro: unknown)
        next
          case (Some rt)
          obtain m c where m: "handle_message rt (ir_session_key q) (ir_message_text q)
              (il_conv s (ir_business_key q)) = (m, c)" by fastforce
          from process_handled [OF d a Some m] assms show ?thesis
            by (intro handled [OF d a Some m]) simp_all
        qed
      qed
    qed
  qed
qed

text \<open>
  What a processed request changes, verdict by verdict. A duplicate leaves the rate limiter
  and every business's state untouched; a rate-limited request and one for an unknown business
  leave every business's state untouched; a served request runs the business's runtime once, on
  that business's state only, returns its reply, and says that a confirmation is awaited exactly
  when one is pending for the session after the turn.
\<close>

theorem process_effects:
  assumes "process reg q (t, u) s = (Inr resp, s')"
  shows "case or_status resp of
      Duplicate \<Rightarrow> fst (is_duplicate (ir_message_id q) t (il_dedupe s))
        \<and> il_limiter s' = il_limiter s \<and> il_conv s' = il_conv s
    | RateLimited \<Rightarrow> fst (allow (ir_rate_limit_key q) u (il_limiter s)) = Inr False
        \<and> il_conv s' = il_conv s
    | UnknownBusiness \<Rightarrow> dget reg (ir_business_key q) = None \<and> il_conv s' = il_conv s
    | StatusOk \<Rightarrow> \<exists>rt reply c. dget reg (ir_business_key q) = Some rt
        \<and> handle_message rt (ir_session_key q) (ir_message_text q) (il_conv s (ir_business_key q)) = (Inr reply, c)
        \<and> il_conv s' = (il_conv s)(ir_business_key q := c) \<and> or_text resp = Some reply
        \<and> (or_awaiting_confirmation resp \<longleftrightarrow>
            so_get_pending (rt_session rt) (cv_session c) (ir_session_key q) \<noteq> None)"
  using assms
proof (cases rule: process_cases)
  case (duplicate d)
  then show ?thesis by (simp add: bare_response_def)
next
  case (raises d e l)
  then show ?thesis by simp
next
  case (rate_limited d l)
  then show ?thesis by (simp add: bare_response_def)
next
  case (unknown d l)
  then show ?thesis by (simp add: bare_response_def)
next
  case (handled d l rt m c)
  then show ?thesis by (cases m) auto
qed

subsection \<open>Sequences of requests\<close>

definition was_duplicate :: "outbound_response result \<Rightarrow> bool" where
  "was_duplicate r \<longleftrightarrow> r = Inr (bare_response Duplicate)"

definition was_limited :: "outbound_response result \<Rightarrow> bool" where
  "was_limited r \<longleftrightarrow> r = Inr (bare_response RateLimited)"

lemma process_dedupe:
  assumes "process reg q (t, u) s = (r, s')"
  shows "is_duplicate (ir_message_id q) t (il_dedupe s) = (was_duplicate r, il_dedupe s')"
  using assms
proof (cases rule: process_cases)
  case (handled d l rt m c)
  then show ?thesis by (cases m) (auto simp: was_duplicate_def bare_response_def)
qed (auto simp: was_duplicate_def bare_response_def)

lemma process_limiter:
  assumes "process reg q (t, u) s = (r, s')" and "lm_inv (il_limiter s)"
  shows "if was_duplicate r then il_limiter s' = il_limiter s
    else allow (ir_rate_limit_key q) u (il_limiter s) = (Inr (\<not> was_limited r), il_limiter s')"
  using assms(1)
proof (cases rule: process_cases)
  case (raises d e l)
  with allow_run [OF assms(2)] show ?thesis by simp
next
  case (handled d l rt m c)
  then show ?thesis by (cases m) (auto simp: was_duplicate_def was_limited_def bare_response_def)
qed (auto simp: was_duplicate_def was_limited_def bare_response_def)

lemma fst_process_run_Cons:
  "process reg q c s = (r, s') \<Longrightarrow>
     fst (process_run reg s ((q, c) # rest)) = r # fst (process_run reg s' rest)"
  by (simp add: split: prod.splits)

lemma length_process_run [simp]: "length (fst (process_run reg s calls)) = length calls"
proof (induction calls arbitrary: s)
  case Nil
  then show ?case by simp
next
  case (Cons call calls)
  obtain q c where call: "call = (q, c)" by (cases call)
  obtain r s' where p: "process reg q c s = (r, s')" by fastforce
  show ?case by (simp only: call fst_process_run_Cons [OF p]) (simp add: Cons)
qed

lemma process_run_dedupe:
  "map was_duplicate (fst (process_run reg s calls)) =
     dedupe_run (il_dedupe s) (map (\<lambda>(q, t, u). (ir_message_id q, t)) calls)"
proof (induction calls arbitrary: s)
  case Nil
  then show ?case by simp
next
  case (Cons call calls)
  obtain q t u where call: "call = (q, t, u)" by (cases call)
  obtain r s' where p: "process reg q (t, u) s = (r, s')" by fastforce
  from Cons [of s'] process_dedupe [OF p] show ?case
    by (simp only: call fst_process_run_Cons [OF p]) simp
qed

lemma dedupe_spec_accepts_new:
  "(i, t) \<in> set hist \<Longrightarrow> n < length calls \<Longrightarrow> fst (calls ! n) = i \<Longrightarrow>
     \<not> dedupe_spec ttl hist calls ! n \<Longrightarrow> ttl < snd (calls ! n) - t"
proof (induction ttl hist calls arbitrary: n rule: dedupe_spec.induct)
  case (1 ttl hist)
  then show ?case by simp
next
  case (2 ttl hist j now calls)
  show ?case
  proof (cases n)
    case 0
    with 2(3-) show ?thesis
      by (force simp: seen_within_def list_ex_iff split: if_splits)
  next
    case (Suc m)
    with 2(4-) have m: "m < length calls" "fst (calls ! m) = i" by simp_all
    show ?thesis
    proof (cases "seen_within ttl hist j now")
      case True
      with 2(6) Suc have "\<not> dedupe_spec ttl hist calls ! m" by simp
      from 2(1) [OF True 2(3) m this] Suc show ?thesis by simp
    next
      case False
      with 2(6) Suc have n: "\<not> dedupe_spec ttl (hist @ [(j, now)]) calls ! m" by simp
      from 2(3) have "(i, t) \<in> set (hist @ [(j, now)])" by simp
      from 2(2) [OF False this m n] Suc show ?thesis by simp
    qed
  qed
qed

lemma dedupe_spec_gap:
  "m < n \<Longrightarrow> n < length calls \<Longrightarrow> fst (calls ! m) = fst (calls ! n) \<Longrightarrow>
     \<not> dedupe_spec ttl hist calls ! m \<Longrightarrow> \<not> dedupe_spec ttl hist calls ! n \<Longrightarrow>
     ttl < snd (calls ! n) - snd (calls ! m)"
proof (induction ttl hist calls arbitrary: m n rule: dedupe_spec.induct)
  case (1 ttl hist)
  then show ?case by simp
next
  case (2 ttl hist j now calls)
  obtain k where n: "n = Suc k" using 2(3) by (cases n) auto
  show ?case
  proof (cases m)
    case 0
    with 2(6) have fresh: "\<not> seen_within ttl hist j now" by (simp split: if_splits)
    with 2(7) n have "\<not> dedupe_spec ttl (hist @ [(j, now)]) calls ! k" by simp
    with dedupe_spec_accepts_new [of j now "hist @ [(j, now)]" k calls ttl] 2(4,5) n 0
    show ?thesis by simp
  next
    case (Suc i)
    with 2 n show ?thesis by (simp split: if_splits)
  qed
qed

text \<open>
  C6: a message is handled at most once within the lifetime. Over any sequence of requests under
  a clock that never goes back, two requests with the same message id that both got past dedupe
  (whatever came of them: a reply, an exception, a rate limit) are more than the dedupe lifetime
  apart. So a retried delivery never reaches the runtime a second time; the converse side is that
  a delivery whose handling raised is not handled by its retry either.
\<close>

theorem handled_at_most_once:
  assumes "process_run reg s calls = (answers, s')"
    and "il_dedupe s = dedupe_init ttl" and "0 \<le> ttl" and "sorted (map (fst \<circ> snd) calls)"
    and "m < n" and "n < length calls"
    and "ir_message_id (fst (calls ! m)) = ir_message_id (fst (calls ! n))"
    and "\<not> was_duplicate (answers ! m)" and "\<not> was_duplicate (answers ! n)"
  shows "ttl < fst (snd (calls ! n)) - fst (snd (calls ! m))"
proof -
  define ids where "ids = map (\<lambda>(q, t, u). (ir_message_id q, t :: time)) calls"
  have sorted: "sorted (map snd ids)"
    using assms(4) by (simp add: ids_def comp_def case_prod_beta)
  have "dedupe_rel (snd (ids ! 0)) [] (dedupe_init ttl)"
    by (simp add: dedupe_rel_def dedupe_init_def)
  moreover have "sorted (snd (ids ! 0) # map snd ids)"
    using sorted by (cases ids) auto
  ultimately have flags: "map was_duplicate answers = dedupe_spec ttl [] ids"
    using process_run_dedupe [of reg s calls] dedupe_run_refines_from [of "snd (ids ! 0)" "[]" "dedupe_init ttl" ids]
      assms(1-3) by (simp add: ids_def dedupe_init_def)
  have len: "length answers = length calls"
    using length_process_run [of reg s calls] assms(1) by simp
  have "dedupe_spec ttl [] ids ! i = was_duplicate (answers ! i)" if "i < length calls" for i
    using that len by (simp flip: flags)
  then have "ttl < snd (ids ! n) - snd (ids ! m)"
    using assms(5-) by (intro dedupe_spec_gap [where hist = "[]"]) (simp_all add: ids_def case_prod_beta)
  then show ?thesis using assms(5,6) by (simp add: ids_def case_prod_beta)
qed


lemma allow_keeps_inv: "lm_inv l \<Longrightarrow> allow key now l = (r, l') \<Longrightarrow> lm_inv l'"
  using allow_run [of l key now] sweep_run(2) [OF lm_inv_touched] lm_inv_touched
  by (auto split: if_splits)

text \<open>The requests that reached the rate limiter, as its calls.\<close>

definition limiter_calls ::
  "(inbound_request \<times> time \<times> time) list \<Rightarrow> outbound_response result list \<Rightarrow> (string \<times> time) list" where
  "limiter_calls calls answers =
     map (\<lambda>((q, t, u), r). (ir_rate_limit_key q, u))
       (filter (\<lambda>(call, r). \<not> was_duplicate r) (zip calls answers))"

text \<open>The requests that got past both guards: served, answered as unknown, or raised.\<close>

definition reached_routing ::
  "(inbound_request \<times> time \<times> time) list \<Rightarrow> outbound_response result list \<Rightarrow> (string \<times> time) list" where
  "reached_routing calls answers =
     map (\<lambda>((q, t, u), r). (ir_rate_limit_key q, u))
       (filter (\<lambda>(call, r). \<not> was_duplicate r \<and> \<not> was_limited r) (zip calls answers))"

lemma process_run_limiter:
  assumes "lm_inv (il_limiter s)" and "fst (process_run reg s calls) = answers"
  shows "reached_routing calls answers =
    admitted (limiter_calls calls answers) (limiter_run (il_limiter s) (limiter_calls calls answers))"
  using assms
proof (induction calls arbitrary: s answers)
  case Nil
  then show ?case by (simp add: reached_routing_def limiter_calls_def admitted_def)
next
  case (Cons call calls)
  obtain q t u where call: "call = (q, t, u)" by (cases call)
  obtain r s' where p: "process reg q (t, u) s = (r, s')" by fastforce
  define rest where "rest = fst (process_run reg s' calls)"
  have answers: "answers = r # rest"
    using Cons.prems(2) by (simp only: call fst_process_run_Cons [OF p] rest_def)
  note limiter = process_limiter [OF p Cons.prems(1)]
  have "lm_inv (il_limiter s')"
    using limiter Cons.prems(1) allow_keeps_inv by (auto split: if_splits)
  from Cons.IH [OF this rest_def [symmetric]] limiter show ?case
    by (auto simp: answers call reached_routing_def limiter_calls_def admitted_Cons split: if_splits)
qed

lemma sorted_map_zip: "sorted (map f xs) \<Longrightarrow> sorted (map (\<lambda>x. f (fst x)) (zip xs ys))"
proof (induction xs arbitrary: ys)
  case Nil
  then show ?case by simp
next
  case (Cons x xs)
  then show ?case by (cases ys) (auto dest: set_zip_leftD)
qed

lemma limiter_calls_sorted:
  assumes "sorted (map (snd \<circ> snd) calls)"
  shows "sorted (map snd (limiter_calls calls answers))"
proof -
  have "map snd (limiter_calls calls answers) =
      map (\<lambda>x. snd (snd (fst x))) (filter (\<lambda>(call, r). \<not> was_duplicate r) (zip calls answers))"
    by (simp add: limiter_calls_def comp_def case_prod_beta)
  moreover have "sorted (map (\<lambda>x. snd (snd (fst x))) (zip calls answers))"
    using assms by (intro sorted_map_zip) (simp add: comp_def)
  ultimately show ?thesis by (simp add: sorted_filter)
qed


text \<open>
  C18: no Customer's budget is exceeded or burned by retries. Over any sequence of requests under
  clocks that never go back, at most \<open>max_per_minute\<close> requests with one rate-limit key get past
  the two guards in any sixty seconds, counting those whose handling raised.
\<close>

theorem requests_within_budget:
  assumes "process_run reg s calls = (answers, s')"
    and "il_limiter s = limiter_init m idle" and "60 \<le> idle" and "sorted (map (snd \<circ> snd) calls)"
  shows "admitted_between key (t - 60) t (reached_routing calls answers) \<le> nat m"
proof -
  have "lm_inv (il_limiter s)"
    by (simp add: assms(2) lm_inv_def limiter_init_def)
  then have "reached_routing calls answers = admitted (limiter_calls calls answers)
      (limiter_run (limiter_init m idle) (limiter_calls calls answers))"
    using process_run_limiter [of s reg calls answers] assms(1,2) by simp
  then show ?thesis
    by (simp add: limiter_admits_bounded assms(3) limiter_calls_sorted [OF assms(4)])
qed

subsection \<open>Witnesses\<close>

definition demo_layer :: "time \<Rightarrow> (sqlite_store, demo_world) layer_state" where
  "demo_layer ttl =
     \<lparr>il_dedupe = dedupe_init ttl, il_limiter = limiter_init 2 3600,
      il_conv = (\<lambda>_. demo_state demo_pending [demo_answer ''Booked''])\<rparr>"

definition demo_request :: "string \<Rightarrow> string \<Rightarrow> inbound_request" where
  "demo_request i text =
     \<lparr>ir_business_key = ''hotel'', ir_session_key = ''whatsapp:1'', ir_rate_limit_key = ''hotel:1'',
      ir_message_id = i, ir_message_text = text\<rparr>"

definition demo_registry :: "(sqlite_store, demo_world) runtime dict" where
  "demo_registry = [(''hotel'', demo_rt sqlite_ops)]"

text \<open>A delivery, its retry, two more messages, and the first id again after the lifetime.\<close>

definition demo_deliveries :: "(inbound_request \<times> time \<times> time) list" where
  "demo_deliveries =
     [(demo_request ''m1'' ''yes'', 0, 0), (demo_request ''m1'' ''yes'', 5, 5),
      (demo_request ''m2'' ''attack'', 6, 6), (demo_request ''m3'' ''attack'', 7, 7),
      (demo_request ''m1'' ''attack'', 11, 70)]"

lemma demo_deliveries_length: "length demo_deliveries = 5"
  by (simp add: demo_deliveries_def)

lemma demo_flags:
  "map was_duplicate (fst (process_run demo_registry (demo_layer 10) demo_deliveries)) =
     [False, True, False, False, False]"
  unfolding process_run_dedupe
  by (simp add: demo_deliveries_def demo_request_def demo_layer_def dedupe_init_def is_duplicate_def
      evict_expired_def Let_def)

lemma process_effects_witness:
  "\<exists>c. handle_message (demo_rt sqlite_ops) ''whatsapp:1'' ''yes'' (demo_state demo_pending [demo_answer ''Booked''])
       = (Inr ''Booked'', c) \<and> so_get_pending sqlite_ops (cv_session c) ''whatsapp:1'' = None"
proof -
  let ?x = "process demo_registry (demo_request ''m1'' ''yes'') (0, 0) (demo_layer 10)"
  have "fst ?x = Inr \<lparr>or_status = StatusOk, or_text = Some ''Booked'', or_awaiting_confirmation = False\<rparr>"
    by code_simp
  then have "?x = (Inr \<lparr>or_status = StatusOk, or_text = Some ''Booked'', or_awaiting_confirmation = False\<rparr>, snd ?x)"
    by (metis prod.collapse)
  from process_effects [OF this] show ?thesis
    by (auto simp: demo_registry_def demo_request_def demo_layer_def)
qed

lemma handled_at_most_once_witness:
  "\<not> was_duplicate (fst (process_run demo_registry (demo_layer 10) demo_deliveries) ! 4)
     \<and> 10 < (11 :: time) - 0"
proof -
  have run: "process_run demo_registry (demo_layer 10) demo_deliveries =
      (fst (process_run demo_registry (demo_layer 10) demo_deliveries),
       snd (process_run demo_registry (demo_layer 10) demo_deliveries))"
    by (rule prod.collapse [symmetric])
  have fresh: "\<not> was_duplicate (fst (process_run demo_registry (demo_layer 10) demo_deliveries) ! i)"
    if "i = 0 \<or> i = 4" for i
    using that arg_cong [OF demo_flags, of "\<lambda>xs. xs ! i"]
    by (subst (asm) nth_map) (auto simp: demo_deliveries_length)
  have "(10 :: time) < fst (snd (demo_deliveries ! 4)) - fst (snd (demo_deliveries ! 0))"
    using fresh
    by (intro handled_at_most_once [OF run])
      (simp_all add: demo_layer_def demo_deliveries_def demo_request_def)
  then show ?thesis using fresh by (simp add: demo_deliveries_def)
qed

lemma requests_within_budget_witness:
  "admitted_between ''hotel:1'' 0 60
     (reached_routing demo_deliveries (fst (process_run demo_registry (demo_layer 10) demo_deliveries))) \<le> 2"
proof -
  have "process_run demo_registry (demo_layer 10) demo_deliveries =
      (fst (process_run demo_registry (demo_layer 10) demo_deliveries),
       snd (process_run demo_registry (demo_layer 10) demo_deliveries))"
    by (rule prod.collapse [symmetric])
  from requests_within_budget [OF this, of 2 3600 "''hotel:1''" 60] show ?thesis
    by (simp add: demo_layer_def demo_deliveries_def)
qed

end
