(* ===== verification/Whatsapp.thy ===== *)
theory Whatsapp
  imports Interface_Layer
begin

text \<open>
  The WhatsApp frontend's messages: the signature check (\<open>interfaces/whatsapp/signature.py\<close>), the
  reduction of a webhook's JSON (\<open>payload.py\<close>), the replies (\<open>outbound.py\<close>) and the two
  webhook routes (\<open>router.py\<close>). HMAC-SHA256 and the JSON parser are parameters, and so is
  \<open>httpx.post\<close>, a command on the network \<open>'h\<close>; every request sent is recorded.
\<close>

subsection \<open>Signatures\<close>

definition signature_prefix :: string where
  "signature_prefix = ''sha256=''"

definition ascii_only :: "string \<Rightarrow> bool" where
  "ascii_only s \<longleftrightarrow> list_all (\<lambda>c. (of_char c :: nat) < 128) s"

text \<open>\<open>hmac.compare_digest\<close> on texts: only ASCII is allowed.\<close>

definition compare_digest :: "string \<Rightarrow> string \<Rightarrow> bool result" where
  "compare_digest a b = (if ascii_only a \<and> ascii_only b then Inr (a = b) else Inl TypeError)"

definition verify_signature ::
  "(string \<Rightarrow> string \<Rightarrow> string) \<Rightarrow> string \<Rightarrow> string option \<Rightarrow> string \<Rightarrow> bool result" where
  "verify_signature hmac_hex raw_body header_value app_secret =
     (case nonempty header_value of
        None \<Rightarrow> Inr False
      | Some h \<Rightarrow>
          if \<not> py_startswith h signature_prefix then Inr False
          else compare_digest (hmac_hex app_secret raw_body) (drop (length signature_prefix) h))"

subsection \<open>Payloads\<close>

record parsed_message =
  pm_phone_number_id :: string
  pm_customer_id :: string
  pm_message_id :: string
  pm_text :: string

definition extract_text :: "json \<Rightarrow> json result" where
  "extract_text message =
     bindR (get_default message ''type'' JNull) (\<lambda>message_type.
     if message_type = JStr ''text'' then
       bindR (get_default message ''text'' (JObj [])) (\<lambda>t. get_default t ''body'' JNull)
     else if message_type = JStr ''interactive'' then
       bindR (get_default message ''interactive'' (JObj [])) (\<lambda>interactive.
       bindR (get_default interactive ''type'' JNull) (\<lambda>kind.
       if kind = JStr ''button_reply''
       then bindR (get_default interactive ''button_reply'' (JObj [])) (\<lambda>b. get_default b ''title'' JNull)
       else Inr JNull))
     else Inr JNull)"

fun as_str :: "json \<Rightarrow> string result" where
  "as_str (JStr s) = Inr s"
| "as_str _ = Inl ValidationError"

definition make_parsed_message :: "json \<Rightarrow> json \<Rightarrow> json \<Rightarrow> json \<Rightarrow> parsed_message result" where
  "make_parsed_message phone_number_id customer_id message_id text =
     bindR (as_str phone_number_id) (\<lambda>p.
     bindR (as_str customer_id) (\<lambda>c.
     bindR (as_str message_id) (\<lambda>m.
     bindR (as_str text) (\<lambda>t.
     Inr \<lparr>pm_phone_number_id = p, pm_customer_id = c, pm_message_id = m, pm_text = t\<rparr>))))"

definition py_or :: "json \<Rightarrow> json result \<Rightarrow> json result" where
  "py_or a b = (if truthy a then Inr a else b)"

definition customer_id_of :: "json \<Rightarrow> json \<Rightarrow> json result" where
  "customer_id_of contact message =
     bindR (get_default contact ''wa_id'' JNull) (\<lambda>wa_id.
     py_or wa_id
       (bindR (get_default message ''from'' JNull) (\<lambda>sender.
        py_or sender (get_default contact ''user_id'' JNull))))"

definition parse_body :: "json \<Rightarrow> parsed_message option result" where
  "parse_body raw_json =
     bindR (index_key raw_json ''entry'') (\<lambda>entry.
     bindR (index_zero entry) (\<lambda>entry0.
     bindR (index_key entry0 ''changes'') (\<lambda>changes.
     bindR (index_zero changes) (\<lambda>change0.
     bindR (index_key change0 ''value'') (\<lambda>value.
     bindR (index_key value ''metadata'') (\<lambda>metadata.
     bindR (index_key metadata ''phone_number_id'') (\<lambda>phone_number_id.
     bindR (get_default value ''messages'' JNull) (\<lambda>messages.
     if \<not> truthy messages then Inr None
     else
     bindR (index_zero messages) (\<lambda>message.
     bindR (extract_text message) (\<lambda>text.
     if text = JNull then Inr None
     else
     bindR (get_default value ''contacts'' JNull) (\<lambda>contacts.
     bindR (if truthy contacts then index_zero contacts else Inr (JObj [])) (\<lambda>contact.
     bindR (customer_id_of contact message) (\<lambda>customer_id.
     if \<not> truthy customer_id then Inr None
     else
     bindR (index_key message ''id'') (\<lambda>message_id.
     bindR (make_parsed_message phone_number_id customer_id message_id text) (\<lambda>parsed.
     Inr (Some parsed))))))))))))))))"

definition parse_inbound_message :: "json \<Rightarrow> parsed_message option result" where
  "parse_inbound_message raw_json =
     (case parse_body raw_json of
        Inl e \<Rightarrow> (case e of KeyError _ \<Rightarrow> Inr None | IndexError \<Rightarrow> Inr None | TypeError \<Rightarrow> Inr None | _ \<Rightarrow> Inl e)
      | r \<Rightarrow> r)"

subsection \<open>Replies\<close>

record http_post =
  hp_url :: string
  hp_authorization :: string
  hp_json :: "json dict"

definition graph_url :: "string \<Rightarrow> string" where
  "graph_url phone_number_id = ''https://graph.facebook.com/v21.0/'' @ phone_number_id @ ''/messages''"

definition message_post :: "string \<Rightarrow> string \<Rightarrow> json dict \<Rightarrow> http_post" where
  "message_post phone_number_id access_token payload =
     \<lparr>hp_url = graph_url phone_number_id, hp_authorization = ''Bearer '' @ access_token, hp_json = payload\<rparr>"

definition text_payload :: "string \<Rightarrow> string option \<Rightarrow> json dict" where
  "text_payload to text =
     [(''messaging_product'', JStr ''whatsapp''), (''to'', JStr to), (''type'', JStr ''text''),
      (''text'', JObj [(''body'', opt_str text)])]"

definition reply_button :: "string \<Rightarrow> string \<Rightarrow> json" where
  "reply_button i title = JObj [(''type'', JStr ''reply''), (''reply'', JObj [(''id'', JStr i), (''title'', JStr title)])]"

definition confirmation_buttons :: "(string \<times> string) list" where
  "confirmation_buttons = [(''confirm_yes'', ''Yes''), (''confirm_no'', ''No'')]"

definition buttons_payload :: "string \<Rightarrow> string option \<Rightarrow> json dict" where
  "buttons_payload to text =
     [(''messaging_product'', JStr ''whatsapp''), (''to'', JStr to), (''type'', JStr ''interactive''),
      (''interactive'', JObj
         [(''type'', JStr ''button''), (''body'', JObj [(''text'', opt_str text)]),
          (''action'', JObj [(''buttons'', JArr (map (\<lambda>(i, title). reply_button i title) confirmation_buttons))])])]"

subsection \<open>The routes\<close>

record ('ss, 'w, 'h) webhook_state =
  wh_layer :: "('ss, 'w) layer_state"
  wh_net :: 'h
  wh_sent :: "http_post list"

record ('ss, 'w, 'h) webhook_env =
  we_registry :: "('ss, 'w) runtime dict"
  we_verify_token :: string
  we_app_secret :: string
  we_access_token :: string
  we_hmac_hex :: "string \<Rightarrow> string \<Rightarrow> string"
  we_loads :: "string \<Rightarrow> json option"
  we_post :: "http_post \<Rightarrow> ('h, unit) cmd"

record http_response =
  rs_status :: nat
  rs_content :: string

definition status_response :: "nat \<Rightarrow> http_response" where
  "status_response code = \<lparr>rs_status = code, rs_content = []\<rparr>"

definition post_message ::
  "('ss, 'w, 'h) webhook_env \<Rightarrow> string \<Rightarrow> json dict \<Rightarrow> (('ss, 'w, 'h) webhook_state, unit) cmd" where
  "post_message env phone_number_id payload =
     (let p = message_post phone_number_id (we_access_token env) payload in
      bindC (modify (\<lambda>s. s\<lparr>wh_sent := wh_sent s @ [p]\<rparr>)) (\<lambda>_.
      zoom wh_net (\<lambda>h s. s\<lparr>wh_net := h\<rparr>) (we_post env p)))"

definition send_text_message ::
  "('ss, 'w, 'h) webhook_env \<Rightarrow> string \<Rightarrow> string \<Rightarrow> string option \<Rightarrow> (('ss, 'w, 'h) webhook_state, unit) cmd" where
  "send_text_message env phone_number_id to text = post_message env phone_number_id (text_payload to text)"

definition send_confirmation_buttons ::
  "('ss, 'w, 'h) webhook_env \<Rightarrow> string \<Rightarrow> string \<Rightarrow> string option \<Rightarrow> (('ss, 'w, 'h) webhook_state, unit) cmd" where
  "send_confirmation_buttons env phone_number_id to text = post_message env phone_number_id (buttons_payload to text)"

definition too_long_text :: string where
  "too_long_text = ''Sorry, that message is too long '' @ [CHR 0xE2, CHR 0x80, CHR 0x94]
     @ '' please keep it under 4096 characters.''"

definition verify_webhook ::
  "('ss, 'w, 'h) webhook_env \<Rightarrow> string option \<Rightarrow> string option \<Rightarrow> string option \<Rightarrow> http_response" where
  "verify_webhook env hub_mode hub_verify_token hub_challenge =
     (if hub_mode = Some ''subscribe'' \<and> hub_verify_token = Some (we_verify_token env) \<and> hub_challenge \<noteq> None
      then \<lparr>rs_status = 200, rs_content = the hub_challenge\<rparr>
      else status_response 403)"

definition whatsapp_key :: "string \<Rightarrow> string" where
  "whatsapp_key customer_id = ''whatsapp:'' @ customer_id"

definition on_layer :: "(('ss, 'w) layer_state, 'a) cmd \<Rightarrow> (('ss, 'w, 'h) webhook_state, 'a) cmd" where
  "on_layer = zoom wh_layer (\<lambda>l s. s\<lparr>wh_layer := l\<rparr>)"

definition reply_to ::
  "('ss, 'w, 'h) webhook_env \<Rightarrow> parsed_message \<Rightarrow> outbound_response \<Rightarrow> (('ss, 'w, 'h) webhook_state, unit) cmd" where
  "reply_to env parsed result =
     (if or_status result = StatusOk then
        if or_awaiting_confirmation result
        then send_confirmation_buttons env (pm_phone_number_id parsed) (pm_customer_id parsed) (or_text result)
        else send_text_message env (pm_phone_number_id parsed) (pm_customer_id parsed) (or_text result)
      else ret ())"

definition receive_webhook ::
  "('ss, 'w, 'h) webhook_env \<Rightarrow> time \<times> time \<Rightarrow> string \<Rightarrow> string option \<Rightarrow> (('ss, 'w, 'h) webhook_state, http_response) cmd" where
  "receive_webhook env clock raw_body signature_header =
     bindC (liftR (verify_signature (we_hmac_hex env) raw_body signature_header (we_app_secret env))) (\<lambda>verified.
     if \<not> verified then ret (status_response 401)
     else case we_loads env raw_body of
       None \<Rightarrow> ret (status_response 200)
     | Some raw_json \<Rightarrow>
         bindC (liftR (parse_inbound_message raw_json)) (\<lambda>found.
         case found of
           None \<Rightarrow> ret (status_response 200)
         | Some parsed \<Rightarrow>
             (case make_inbound_request (pm_phone_number_id parsed) (whatsapp_key (pm_customer_id parsed))
                     (whatsapp_key (pm_customer_id parsed)) (pm_message_id parsed) (pm_text parsed) of
                Inl _ \<Rightarrow>
                  bindC (send_text_message env (pm_phone_number_id parsed) (pm_customer_id parsed) (Some too_long_text)) (\<lambda>_.
                  ret (status_response 200))
              | Inr inbound \<Rightarrow>
                  bindC (on_layer (process (we_registry env) inbound clock)) (\<lambda>result.
                  bindC (reply_to env parsed result) (\<lambda>_.
                  ret (status_response 200))))))"

subsection \<open>How a delivery goes\<close>

definition inbound_of :: "parsed_message \<Rightarrow> inbound_request" where
  "inbound_of parsed =
     \<lparr>ir_business_key = pm_phone_number_id parsed, ir_session_key = whatsapp_key (pm_customer_id parsed),
      ir_rate_limit_key = whatsapp_key (pm_customer_id parsed), ir_message_id = pm_message_id parsed,
      ir_message_text = pm_text parsed\<rparr>"

definition delivered :: "('ss, 'w, 'h) webhook_env \<Rightarrow> string \<Rightarrow> parsed_message option result" where
  "delivered env raw_body =
     (case we_loads env raw_body of None \<Rightarrow> Inr None | Some raw_json \<Rightarrow> parse_inbound_message raw_json)"

definition answer_payloads :: "parsed_message \<Rightarrow> outbound_response \<Rightarrow> json dict list" where
  "answer_payloads parsed result =
     (if or_status result = StatusOk
      then [(if or_awaiting_confirmation result then buttons_payload else text_payload) (pm_customer_id parsed) (or_text result)]
      else [])"

text \<open>What sending at most one message returns: what \<open>httpx.post\<close> returns for it.\<close>

definition post_result :: "('ss, 'w, 'h) webhook_env \<Rightarrow> 'h \<Rightarrow> http_post list \<Rightarrow> unit result" where
  "post_result env net posts = (case posts of [] \<Rightarrow> Inr () | p # _ \<Rightarrow> fst (we_post env p net))"

lemma post_result_simps [simp]:
  "post_result env net [] = Inr ()" "post_result env net (p # ps) = fst (we_post env p net)"
  by (simp_all add: post_result_def)

lemma post_message_run:
  assumes "post_message env phone payload s = (r, s')"
  shows "wh_layer s' = wh_layer s"
    and "wh_sent s' = wh_sent s @ [message_post phone (we_access_token env) payload]"
    and "r = fst (we_post env (message_post phone (we_access_token env) payload) (wh_net s))"
  using assms
  by (auto simp: post_message_def Let_def bindC_def zoom_def split: prod.splits)

lemma reply_to_run:
  assumes "reply_to env parsed result s = (r, s')"
  shows "wh_layer s' = wh_layer s"
    and "wh_sent s' = wh_sent s
      @ map (message_post (pm_phone_number_id parsed) (we_access_token env)) (answer_payloads parsed result)"
    and "r = post_result env (wh_net s)
      (map (message_post (pm_phone_number_id parsed) (we_access_token env)) (answer_payloads parsed result))"
  using assms
  by (auto simp: reply_to_def answer_payloads_def send_text_message_def send_confirmation_buttons_def
      dest: post_message_run split: if_splits)

lemma make_inbound_request_eq:
  "make_inbound_request (pm_phone_number_id parsed) (whatsapp_key (pm_customer_id parsed))
      (whatsapp_key (pm_customer_id parsed)) (pm_message_id parsed) (pm_text parsed) =
    (if max_message_length < py_len (pm_text parsed) then Inl ValidationError else Inr (inbound_of parsed))"
  by (simp add: make_inbound_request_def inbound_of_def)

text \<open>The readable part of a delivery, once its signature has been checked.\<close>

definition answer_delivery ::
  "('ss, 'w, 'h) webhook_env \<Rightarrow> time \<times> time \<Rightarrow> parsed_message \<Rightarrow> (('ss, 'w, 'h) webhook_state, http_response) cmd" where
  "answer_delivery env clock parsed =
    (if max_message_length < py_len (pm_text parsed)
     then bindC (send_text_message env (pm_phone_number_id parsed) (pm_customer_id parsed) (Some too_long_text))
       (\<lambda>_. ret (status_response 200))
     else bindC (on_layer (process (we_registry env) (inbound_of parsed) clock)) (\<lambda>result.
       bindC (reply_to env parsed result) (\<lambda>_. ret (status_response 200))))"

lemma receive_webhook_eq:
  "receive_webhook env clock raw_body header s =
    (case verify_signature (we_hmac_hex env) raw_body header (we_app_secret env) of
       Inl e \<Rightarrow> (Inl e, s)
     | Inr verified \<Rightarrow>
         if \<not> verified then (Inr (status_response 401), s)
         else (case delivered env raw_body of
             Inl e \<Rightarrow> (Inl e, s)
           | Inr None \<Rightarrow> (Inr (status_response 200), s)
           | Inr (Some parsed) \<Rightarrow> answer_delivery env clock parsed s))"
  by (simp add: receive_webhook_def bindC_def delivered_def answer_delivery_def make_inbound_request_eq
      split: sum.split option.split)

lemma answer_too_long:
  assumes "answer_delivery env clock parsed s = (r, s')" and "max_message_length < py_len (pm_text parsed)"
  obtains p where "p = message_post (pm_phone_number_id parsed) (we_access_token env)
         (text_payload (pm_customer_id parsed) (Some too_long_text))"
    and "r = mapR (\<lambda>_. status_response 200) (fst (we_post env p (wh_net s)))" and "wh_layer s' = wh_layer s"
    and "wh_sent s' = wh_sent s @ [p]"
proof -
  obtain m s1 where m: "send_text_message env (pm_phone_number_id parsed) (pm_customer_id parsed) (Some too_long_text) s = (m, s1)"
    by fastforce
  with assms have "r = mapR (\<lambda>_. status_response 200) m" "s1 = s'"
    by (auto simp: answer_delivery_def bindC_def split: sum.splits)
  with post_message_run [OF m [unfolded send_text_message_def]] show thesis by (intro that [OF refl]) simp_all
qed

lemma answer_processed:
  assumes "answer_delivery env clock parsed s = (r, s')" and "py_len (pm_text parsed) \<le> max_message_length"
  obtains (crashed) e where "process (we_registry env) (inbound_of parsed) clock (wh_layer s) = (Inl e, wh_layer s')"
      "r = Inl e" "wh_sent s' = wh_sent s"
  | (processed) result posts where
      "process (we_registry env) (inbound_of parsed) clock (wh_layer s) = (Inr result, wh_layer s')"
      "posts = map (message_post (pm_phone_number_id parsed) (we_access_token env)) (answer_payloads parsed result)"
      "r = mapR (\<lambda>_. status_response 200) (post_result env (wh_net s) posts)"
      "wh_sent s' = wh_sent s @ posts"
proof -
  obtain q l where q: "process (we_registry env) (inbound_of parsed) clock (wh_layer s) = (q, l)" by fastforce
  show ?thesis
  proof (cases q)
    case (Inl e)
    with assms q show ?thesis by (intro crashed) (auto simp: answer_delivery_def bindC_def on_layer_def zoom_def)
  next
    case (Inr result)
    obtain m s1 where m: "reply_to env parsed result (s\<lparr>wh_layer := l\<rparr>) = (m, s1)" by fastforce
    with q assms Inr have "r = mapR (\<lambda>_. status_response 200) m" "s1 = s'"
      by (auto simp: answer_delivery_def bindC_def on_layer_def zoom_def split: sum.splits)
    with reply_to_run [OF m] q Inr show ?thesis by (intro processed [OF _ refl]) simp_all
  qed
qed

text \<open>The ways a delivery can go, for case analysis.\<close>

lemma webhook_cases:
  assumes "receive_webhook env clock raw_body header s = (r, s')"
  obtains (uncheckable) e where
      "verify_signature (we_hmac_hex env) raw_body header (we_app_secret env) = Inl e" "r = Inl e" "s' = s"
  | (unsigned)
      "verify_signature (we_hmac_hex env) raw_body header (we_app_secret env) = Inr False"
      "r = Inr (status_response 401)" "s' = s"
  | (unread) e where
      "verify_signature (we_hmac_hex env) raw_body header (we_app_secret env) = Inr True"
      "delivered env raw_body = Inl e" "r = Inl e" "s' = s"
  | (ignored)
      "verify_signature (we_hmac_hex env) raw_body header (we_app_secret env) = Inr True"
      "delivered env raw_body = Inr None" "r = Inr (status_response 200)" "s' = s"
  | (too_long) parsed p where
      "verify_signature (we_hmac_hex env) raw_body header (we_app_secret env) = Inr True"
      "delivered env raw_body = Inr (Some parsed)" "max_message_length < py_len (pm_text parsed)"
      "p = message_post (pm_phone_number_id parsed) (we_access_token env)
         (text_payload (pm_customer_id parsed) (Some too_long_text))"
      "r = mapR (\<lambda>_. status_response 200) (fst (we_post env p (wh_net s)))" "wh_layer s' = wh_layer s"
      "wh_sent s' = wh_sent s @ [p]"
  | (crashed) parsed e where
      "verify_signature (we_hmac_hex env) raw_body header (we_app_secret env) = Inr True"
      "delivered env raw_body = Inr (Some parsed)" "py_len (pm_text parsed) \<le> max_message_length"
      "process (we_registry env) (inbound_of parsed) clock (wh_layer s) = (Inl e, wh_layer s')"
      "r = Inl e" "wh_sent s' = wh_sent s"
  | (processed) parsed result posts where
      "verify_signature (we_hmac_hex env) raw_body header (we_app_secret env) = Inr True"
      "delivered env raw_body = Inr (Some parsed)" "py_len (pm_text parsed) \<le> max_message_length"
      "process (we_registry env) (inbound_of parsed) clock (wh_layer s) = (Inr result, wh_layer s')"
      "posts = map (message_post (pm_phone_number_id parsed) (we_access_token env)) (answer_payloads parsed result)"
      "r = mapR (\<lambda>_. status_response 200) (post_result env (wh_net s) posts)"
      "wh_sent s' = wh_sent s @ posts"
proof -
  consider (raised) e where "verify_signature (we_hmac_hex env) raw_body header (we_app_secret env) = Inl e"
    | (refused) "verify_signature (we_hmac_hex env) raw_body header (we_app_secret env) = Inr False"
    | (signed) "verify_signature (we_hmac_hex env) raw_body header (we_app_secret env) = Inr True"
    by (cases "verify_signature (we_hmac_hex env) raw_body header (we_app_secret env)") auto
  then show ?thesis
  proof cases
    case raised
    with assms show ?thesis by (intro uncheckable) (auto simp: receive_webhook_eq)
  next
    case refused
    with assms show ?thesis by (intro unsigned) (auto simp: receive_webhook_eq)
  next
    case signed
    show ?thesis
    proof (cases "delivered env raw_body")
      case (Inl e)
      with assms signed show ?thesis by (intro unread) (auto simp: receive_webhook_eq)
    next
      case (Inr message)
      show ?thesis
      proof (cases message)
        case None
        with assms signed Inr show ?thesis by (intro ignored) (auto simp: receive_webhook_eq)
      next
        case (Some parsed)
        with Inr have d: "delivered env raw_body = Inr (Some parsed)" by simp
        with assms signed have run: "answer_delivery env clock parsed s = (r, s')" by (simp add: receive_webhook_eq)
        show ?thesis
        proof (cases "max_message_length < py_len (pm_text parsed)")
          case True
          from run True show ?thesis by (rule answer_too_long) (rule too_long [OF signed d True])
        next
          case False
          then have fits: "py_len (pm_text parsed) \<le> max_message_length" by simp
          from run fits show ?thesis
            by (cases rule: answer_processed) (fact crashed [OF signed d fits] processed [OF signed d fits])+
        qed
      qed
    qed
  qed
qed

lemma verify_signature_raises:
  assumes "verify_signature hmac_hex raw_body header secret = Inl e"
  shows "e = TypeError \<and> (\<exists>h. header = Some (signature_prefix @ h)
    \<and> \<not> (ascii_only h \<and> ascii_only (hmac_hex secret raw_body)))"
proof -
  from assms obtain x where x: "header = Some x" "take (length signature_prefix) x = signature_prefix"
    and e: "e = TypeError"
      "\<not> (ascii_only (drop (length signature_prefix) x) \<and> ascii_only (hmac_hex secret raw_body))"
    by (auto simp: verify_signature_def compare_digest_def nonempty_def py_startswith_def
        split: option.splits if_splits)
  from x have "header = Some (signature_prefix @ drop (length signature_prefix) x)"
    using append_take_drop_id [of "length signature_prefix" x] by simp
  with e show ?thesis by blast
qed


text \<open>Two ways a delivery escapes as an exception: a signature beyond ASCII, and a message that is no object.\<close>

lemma non_ascii_signature_raises:
  assumes "\<not> ascii_only h"
  shows "receive_webhook env clock raw_body (Some (signature_prefix @ h)) s = (Inl TypeError, s)"
  using assms
  by (simp add: receive_webhook_def verify_signature_def compare_digest_def bindC_def signature_prefix_def
      py_startswith_def nonempty_def)

lemma odd_payload_escapes:
  assumes "truthy message" and "\<forall>d. message \<noteq> JObj d"
  shows "parse_inbound_message (JObj [(''entry'', JArr [JObj [(''changes'', JArr [JObj [(''value'', JObj
      [(''metadata'', JObj [(''phone_number_id'', JStr phone)]), (''messages'', JArr [message])])]])]])])
    = Inl AttributeError"
  using assms
  by (cases message) (simp_all add: parse_inbound_message_def parse_body_def extract_text_def dict_index_def dget_default_def)

text \<open>An entry survives eviction as long as it is young enough, wherever it stands.\<close>

lemma evict_loop_keeps:
  "(i, t) \<in> set xs \<Longrightarrow> cutoff \<le> t \<Longrightarrow> (i, t) \<in> set (evict_loop cutoff xs)"
  by (induction cutoff xs rule: evict_loop.induct) auto

lemma is_duplicate_remembers:
  assumes "is_duplicate i t d = (False, d')" and "t' - dd_ttl_seconds d \<le> t"
  obtains d'' where "is_duplicate i t' d' = (True, d'')"
proof -
  have entry: "(i, t) \<in> set (dd_seen d')" and ttl: "dd_ttl_seconds d' = dd_ttl_seconds d"
    using assms(1) by (auto simp: is_duplicate_def Let_def update_new_append split: if_splits)
  from evict_loop_keeps [OF entry assms(2)] ttl have "i \<in> set (dkeys (dd_seen (evict_expired t' d')))"
    by (force simp: evict_expired_def)
  with that show thesis by (simp add: is_duplicate_def Let_def)
qed

text \<open>
  Meta's retries are silent. Once a delivery has produced an answer to the Customer, whether
  or not the answer went through, the same body delivered again within the dedupe lifetime is
  answered 200, sends nothing, and changes nothing but the dedupe store.
\<close>

theorem retried_delivery_is_silent:
  assumes "receive_webhook env (t, u) raw_body header s = (r, s1)"
    and "receive_webhook env (t', u') raw_body header s1 = (r', s2)"
    and "delivered env raw_body = Inr (Some parsed)" and "py_len (pm_text parsed) \<le> max_message_length"
    and "wh_sent s1 \<noteq> wh_sent s" and "t' - dd_ttl_seconds (il_dedupe (wh_layer s)) \<le> t"
  shows "r' = Inr (status_response 200) \<and> wh_sent s2 = wh_sent s1 \<and> wh_net s2 = wh_net s1
    \<and> (\<exists>d. wh_layer s2 = (wh_layer s1)\<lparr>il_dedupe := d\<rparr>)"
proof -
  obtain result where signed: "verify_signature (we_hmac_hex env) raw_body header (we_app_secret env) = Inr True"
    and first: "process (we_registry env) (inbound_of parsed) (t, u) (wh_layer s) = (Inr result, wh_layer s1)"
    and ok: "answer_payloads parsed result \<noteq> []"
    using assms(1) by (cases rule: webhook_cases) (use assms(3-5) in auto)
  have "\<not> was_duplicate (Inr result)"
    using ok by (auto simp: answer_payloads_def was_duplicate_def bare_response_def)
  with process_dedupe [OF first]
  have "is_duplicate (ir_message_id (inbound_of parsed)) t (il_dedupe (wh_layer s)) = (False, il_dedupe (wh_layer s1))"
    by simp
  then obtain d where d: "is_duplicate (ir_message_id (inbound_of parsed)) t' (il_dedupe (wh_layer s1)) = (True, d)"
    using assms(6) by (rule is_duplicate_remembers)
  show ?thesis
    using assms(2) assms(4) process_duplicate [OF d]
    by (auto simp: receive_webhook_eq signed assms(3) answer_delivery_def bindC_def on_layer_def zoom_def
        reply_to_def bare_response_def)
qed

subsection \<open>Witnesses\<close>

text \<open>One delivery: the yes to a pending Confirmation Request, with a checksum that concatenates.\<close>

definition demo_payload :: json where
  "demo_payload =
     JObj [(''entry'', JArr [JObj [(''changes'', JArr [JObj [(''value'', JObj
       [(''metadata'', JObj [(''phone_number_id'', JStr ''hotel'')]),
        (''contacts'', JArr [JObj [(''wa_id'', JStr ''1'')]]),
        (''messages'', JArr [JObj [(''from'', JStr ''1''), (''id'', JStr ''m1''), (''type'', JStr ''interactive''),
           (''interactive'', JObj [(''type'', JStr ''button_reply''),
              (''button_reply'', JObj [(''id'', JStr ''confirm_yes''), (''title'', JStr ''Yes'')])])]])])]])]])]"

definition demo_parsed :: parsed_message where
  "demo_parsed = \<lparr>pm_phone_number_id = ''hotel'', pm_customer_id = ''1'', pm_message_id = ''m1'', pm_text = ''Yes''\<rparr>"

definition demo_webhook :: "(sqlite_store, demo_world, nat) webhook_env" where
  "demo_webhook =
     \<lparr>we_registry = demo_registry, we_verify_token = ''verify'', we_app_secret = ''secret'', we_access_token = ''token'',
      we_hmac_hex = (\<lambda>k b. k @ ''-'' @ b), we_loads = (\<lambda>b. if b = ''body'' then Some demo_payload else None),
      we_post = (\<lambda>p n. (Inr (), n + 1))\<rparr>"

definition demo_hook_state :: "(sqlite_store, demo_world, nat) webhook_state" where
  "demo_hook_state = \<lparr>wh_layer = demo_layer 10, wh_net = 0, wh_sent = []\<rparr>"

abbreviation demo_delivery ::
  "time \<Rightarrow> (sqlite_store, demo_world, nat) webhook_state
     \<Rightarrow> http_response result \<times> (sqlite_store, demo_world, nat) webhook_state" where
  "demo_delivery t \<equiv> receive_webhook demo_webhook (t, t) ''body'' (Some ''sha256=secret-body'')"

lemma demo_delivered: "delivered demo_webhook ''body'' = Inr (Some demo_parsed)"
  by code_simp

lemma demo_sent:
  "wh_sent (snd (demo_delivery 0 demo_hook_state)) =
     [message_post ''hotel'' ''token'' (text_payload ''1'' (Some ''Booked''))]"
  by code_simp


lemma retried_delivery_is_silent_witness:
  "wh_sent (snd (demo_delivery 8 (snd (demo_delivery 0 demo_hook_state)))) =
     [message_post ''hotel'' ''token'' (text_payload ''1'' (Some ''Booked''))]"
proof -
  let ?x = "demo_delivery 0 demo_hook_state"
  let ?y = "demo_delivery 8 (snd ?x)"
  have "py_len (pm_text demo_parsed) \<le> max_message_length" by code_simp
  moreover have "wh_sent (snd ?x) \<noteq> wh_sent demo_hook_state"
    by (simp only: demo_sent) (simp add: demo_hook_state_def)
  moreover have "8 - dd_ttl_seconds (il_dedupe (wh_layer demo_hook_state)) \<le> 0"
    by (simp add: demo_hook_state_def demo_layer_def dedupe_init_def)
  ultimately have "wh_sent (snd ?y) = wh_sent (snd ?x)"
    using retried_delivery_is_silent [OF prod.collapse [of ?x, symmetric] prod.collapse [of ?y, symmetric] demo_delivered]
    by blast
  then show ?thesis by (simp only: demo_sent)
qed

end
