(* ===== verification/Json_Text.thy ===== *)
theory Json_Text
  imports Identifiers
begin

text \<open>
  \<open>json.loads\<close> of Python's standard library, on the values of \<open>Py_Values\<close>: the scanner
  of the \<open>json\<close> module, function by function, and the proof that it reads back what
  \<open>json.dumps\<close> writes. \<open>None\<close> is a \<open>JSONDecodeError\<close>; \<open>rf\<close> is Python's
  \<open>float()\<close> on a number token. The constants \<open>NaN\<close>, \<open>Infinity\<close> and \<open>-Infinity\<close>,
  which the module accepts beyond JSON, have no value of the model's type and are read as errors, and
  the interpreter's limits on nesting and on the length of an integer are left out.
\<close>

subsection \<open>Code points and their bytes\<close>

definition utf8_encode :: "nat \<Rightarrow> string" where
  "utf8_encode n =
     (if n < 128 then [char_of n]
      else if n < 2048 then [char_of (192 + n div 64), char_of (128 + n mod 64)]
      else if n < 65536 then
        [char_of (224 + n div 4096), char_of (128 + n div 64 mod 64), char_of (128 + n mod 64)]
      else [char_of (240 + n div 262144), char_of (128 + n div 4096 mod 64),
            char_of (128 + n div 64 mod 64), char_of (128 + n mod 64)])"

definition is_scalar :: "nat \<Rightarrow> bool" where
  "is_scalar n \<longleftrightarrow> n < 55296 \<or> (57344 \<le> n \<and> n < 1114112)"

text \<open>A list of bytes that is the UTF-8 of a Python string without lone surrogates.\<close>

definition utf8_valid :: "string \<Rightarrow> bool" where
  "utf8_valid s \<longleftrightarrow>
     list_all is_scalar (utf8_decode s) \<and> concat (map utf8_encode (utf8_decode s)) = s"

definition ascii_text :: "string \<Rightarrow> bool" where
  "ascii_text s \<longleftrightarrow> list_all (\<lambda>c. (of_char c :: nat) < 128) s"

lemma ascii_valid: "ascii_text s \<Longrightarrow> utf8_valid s"
  by (induction s) (simp_all add: ascii_text_def utf8_valid_def utf8_encode_def is_scalar_def Let_def)

subsection \<open>The scanner\<close>

definition is_json_space :: "char \<Rightarrow> bool" where
  "is_json_space c \<longleftrightarrow> c \<in> {CHR '' '', CHR 0x09, CHR 0x0A, CHR 0x0D}"

definition skip_space :: "string \<Rightarrow> string" where
  "skip_space s = dropWhile is_json_space s"

definition hex_value :: "char \<Rightarrow> nat option" where
  "hex_value c =
     (let n = (of_char c :: nat) in
      if 48 \<le> n \<and> n \<le> 57 then Some (n - 48)
      else if 97 \<le> n \<and> n \<le> 102 then Some (n - 87)
      else if 65 \<le> n \<and> n \<le> 70 then Some (n - 55)
      else None)"

fun scan_hex4 :: "string \<Rightarrow> (nat \<times> string) option" where
  "scan_hex4 (a # b # c # d # s) =
     (case (hex_value a, hex_value b, hex_value c, hex_value d) of
        (Some w, Some x, Some y, Some z) \<Rightarrow> Some (w * 4096 + x * 256 + y * 16 + z, s)
      | _ \<Rightarrow> None)"
| "scan_hex4 _ = None"

text \<open>After \<open>\\u\<close>: four digits, and a second escape when they are the first half of a pair.\<close>

fun low_surrogate :: "string \<Rightarrow> (nat \<times> string) option" where
  "low_surrogate (b # u # s) = (if b = CHR 0x5C \<and> u = CHR ''u'' then scan_hex4 s else None)"
| "low_surrogate _ = None"

definition scan_unicode :: "string \<Rightarrow> (nat \<times> string) option" where
  "scan_unicode s =
     (case scan_hex4 s of
        None \<Rightarrow> None
      | Some (hi, t) \<Rightarrow>
          if 55296 \<le> hi \<and> hi \<le> 56319 then
            (case low_surrogate t of
               Some (lo, u) \<Rightarrow>
                 if 56320 \<le> lo \<and> lo \<le> 57343
                 then Some (65536 + (hi - 55296) * 1024 + (lo - 56320), u) else Some (hi, t)
             | None \<Rightarrow> Some (hi, t))
          else Some (hi, t))"

definition escape_char :: "char \<Rightarrow> char option" where
  "escape_char c =
     map_of [(CHR 0x22, CHR 0x22), (CHR 0x5C, CHR 0x5C), (CHR ''/'', CHR ''/''), (CHR ''b'', CHR 0x08),
             (CHR ''f'', CHR 0x0C), (CHR ''n'', CHR 0x0A), (CHR ''r'', CHR 0x0D), (CHR ''t'', CHR 0x09)] c"

lemma scan_hex4_shorter: "scan_hex4 s = Some (n, t) \<Longrightarrow> length t < length s"
  by (induction s rule: scan_hex4.induct) (auto split: option.splits)

lemma low_surrogate_shorter: "low_surrogate s = Some (n, t) \<Longrightarrow> length t < length s"
  by (induction s rule: low_surrogate.induct) (auto split: if_splits dest: scan_hex4_shorter)

lemma scan_unicode_shorter: "scan_unicode s = Some (n, t) \<Longrightarrow> length t < length s"
  unfolding scan_unicode_def
  by (auto split: option.splits if_splits dest!: scan_hex4_shorter low_surrogate_shorter)

text \<open>\<open>scan_string\<close> is \<open>scanstring\<close>: the text after an opening quote, in strict mode.\<close>

function scan_string :: "string \<Rightarrow> (string \<times> string) option" where
  "scan_string [] = None"
| "scan_string (c # s) =
     (if c = CHR 0x22 then Some ([], s)
      else if c = CHR 0x5C then
        (case s of
           [] \<Rightarrow> None
         | e # t \<Rightarrow>
             if e = CHR ''u'' then
               (case scan_unicode t of
                  None \<Rightarrow> None
                | Some (n, u) \<Rightarrow> map_option (\<lambda>(x, v). (utf8_encode n @ x, v)) (scan_string u))
             else
               (case escape_char e of
                  None \<Rightarrow> None
                | Some d \<Rightarrow> map_option (\<lambda>(x, v). (d # x, v)) (scan_string t)))
      else if (of_char c :: nat) < 32 then None
      else map_option (\<lambda>(x, v). (c # x, v)) (scan_string s))"
  by pat_completeness auto
termination
  by (relation "measure length") (auto dest: scan_unicode_shorter)

lemma scan_string_shorter: "scan_string s = Some (x, t) \<Longrightarrow> length t < length s"
  by (induction s arbitrary: x t rule: scan_string.induct)
    (force split: if_splits list.splits option.splits dest: scan_unicode_shorter)+

subsection \<open>Numbers\<close>

definition digits_value :: "string \<Rightarrow> nat" where
  "digits_value ds = foldl (\<lambda>a c. a * 10 + ((of_char c :: nat) - 48)) 0 ds"

text \<open>\<open>(-?(?:0|[1-9][0-9]*))(\.[0-9]+)?([eE][-+]?[0-9]+)?\<close>, part by part: the token and the rest.\<close>

fun int_part :: "string \<Rightarrow> string" where
  "int_part [] = []"
| "int_part (c # s) = (if c = CHR ''0'' then [c] else takeWhile is_digit (c # s))"

fun frac_part :: "string \<Rightarrow> string" where
  "frac_part [] = []"
| "frac_part (c # s) = (if c = CHR ''.'' \<and> takeWhile is_digit s \<noteq> [] then c # takeWhile is_digit s else [])"

fun exp_sign :: "string \<Rightarrow> string" where
  "exp_sign [] = []"
| "exp_sign (c # s) = (if c = CHR ''-'' \<or> c = CHR ''+'' then [c] else [])"

fun exp_part :: "string \<Rightarrow> string" where
  "exp_part [] = []"
| "exp_part (c # s) =
     (let sg = exp_sign s; ds = takeWhile is_digit (drop (length sg) s)
      in if (c = CHR ''e'' \<or> c = CHR ''E'') \<and> ds \<noteq> [] then c # sg @ ds else [])"

definition scan_number :: "(string \<Rightarrow> real) \<Rightarrow> string \<Rightarrow> (json \<times> string) option" where
  "scan_number rf s =
     (let sg = (case s of c # _ \<Rightarrow> if c = CHR ''-'' then [c] else [] | [] \<Rightarrow> []);
          s1 = drop (length sg) s; ip = int_part s1;
          s2 = drop (length ip) s1; fp = frac_part s2;
          s3 = drop (length fp) s2; ep = exp_part s3
      in if ip = [] then None
         else if fp = [] \<and> ep = []
         then Some (JInt (if sg = [] then int (digits_value ip) else - int (digits_value ip)), s2)
         else Some (JFloat (rf (sg @ ip @ fp @ ep)), drop (length ep) s3))"

subsection \<open>Values\<close>

text \<open>
  \<open>scan_value\<close> is \<open>scan_once\<close>, \<open>scan_items\<close> and \<open>scan_pairs\<close> are the loops of
  \<open>JSONArray\<close> and \<open>JSONObject\<close> after the opening bracket. The tests of lengths are for the termination
  proof; \<open>scan_progress\<close> below shows that they never fail.
\<close>

definition scan_literal :: "string \<Rightarrow> json \<Rightarrow> string \<Rightarrow> (json \<times> string) option" where
  "scan_literal word v s = (if py_startswith s word then Some (v, drop (length word) s) else None)"

definition dict_of_pairs :: "(string \<times> json) list \<Rightarrow> json dict" where
  "dict_of_pairs ps = fold (\<lambda>(k, v). AList.update k v) ps []"

lemma skip_space_length: "length (skip_space s) \<le> length s"
  by (simp add: skip_space_def length_dropWhile_le)

text \<open>The key of a pair, up to the value; and what follows a value: the closing bracket or a comma.\<close>

definition scan_key :: "string \<Rightarrow> (string \<times> string) option" where
  "scan_key s =
     (case s of
        [] \<Rightarrow> None
      | q # s1 \<Rightarrow>
          if q \<noteq> CHR 0x22 then None
          else (case scan_string s1 of
            None \<Rightarrow> None
          | Some (k, s2) \<Rightarrow>
              (case skip_space s2 of
                 [] \<Rightarrow> None
               | d # s3 \<Rightarrow> if d = CHR '':'' then Some (k, skip_space s3) else None)))"

definition scan_separator :: "char \<Rightarrow> string \<Rightarrow> (bool \<times> string) option" where
  "scan_separator close s =
     (case skip_space s of
        [] \<Rightarrow> None
      | c # t \<Rightarrow> if c = close then Some (False, t) else if c = CHR '','' then Some (True, skip_space t) else None)"

lemma skip_space_ConsD: "skip_space s = c # t \<Longrightarrow> length t < length s"
  by (metis Suc_le_lessD length_Cons skip_space_length)

lemma scan_separator_shorter: "scan_separator close s = Some (more, t) \<Longrightarrow> length t < length s"
  unfolding scan_separator_def
  by (auto split: list.splits if_splits dest!: skip_space_ConsD intro: le_less_trans [OF skip_space_length])

lemma scan_key_shorter: "scan_key s = Some (k, t) \<Longrightarrow> length t < length s"
  unfolding scan_key_def
  by (fastforce split: list.splits if_splits option.splits dest!: skip_space_ConsD scan_string_shorter
      intro: le_less_trans [OF skip_space_length])

function scan_value :: "(string \<Rightarrow> real) \<Rightarrow> string \<Rightarrow> (json \<times> string) option"
  and scan_items :: "(string \<Rightarrow> real) \<Rightarrow> string \<Rightarrow> (json list \<times> string) option"
  and scan_pairs :: "(string \<Rightarrow> real) \<Rightarrow> string \<Rightarrow> ((string \<times> json) list \<times> string) option"
where
  "scan_value rf [] = None"
| "scan_value rf (c # s) =
     (if c = CHR 0x22 then map_option (\<lambda>(x, t). (JStr x, t)) (scan_string s)
      else if c = CHR 0x7B then
        (if py_startswith (skip_space s) [CHR 0x7D] then Some (JObj [], tl (skip_space s))
         else map_option (\<lambda>(ps, t). (JObj (dict_of_pairs ps), t)) (scan_pairs rf (skip_space s)))
      else if c = CHR 0x5B then
        (if py_startswith (skip_space s) [CHR 0x5D] then Some (JArr [], tl (skip_space s))
         else map_option (\<lambda>(xs, t). (JArr xs, t)) (scan_items rf (skip_space s)))
      else if c = CHR ''n'' then scan_literal ''null'' JNull (c # s)
      else if c = CHR ''t'' then scan_literal ''true'' (JBool True) (c # s)
      else if c = CHR ''f'' then scan_literal ''false'' (JBool False) (c # s)
      else scan_number rf (c # s))"
| "scan_items rf s =
     (case scan_value rf s of
        None \<Rightarrow> None
      | Some (v, t) \<Rightarrow>
          (case scan_separator (CHR 0x5D) t of
             None \<Rightarrow> None
           | Some (more, u) \<Rightarrow>
               if \<not> more then Some ([v], u)
               else if length u < length s then map_option (\<lambda>(vs, w). (v # vs, w)) (scan_items rf u)
               else None))"
| "scan_pairs rf s =
     (case scan_key s of
        None \<Rightarrow> None
      | Some (k, s1) \<Rightarrow>
          (case scan_value rf s1 of
             None \<Rightarrow> None
           | Some (v, t) \<Rightarrow>
               (case scan_separator (CHR 0x7D) t of
                  None \<Rightarrow> None
                | Some (more, u) \<Rightarrow>
                    if \<not> more then Some ([(k, v)], u)
                    else if length u < length s then map_option (\<lambda>(ps, w). ((k, v) # ps, w)) (scan_pairs rf u)
                    else None)))"
  by pat_completeness auto
termination
proof (relation "measure (\<lambda>x. case x of Inl (_, s) \<Rightarrow> 2 * length s
    | Inr (Inl (_, s)) \<Rightarrow> 2 * length s + 1 | Inr (Inr (_, s)) \<Rightarrow> 2 * length s + 1)")
qed (use skip_space_length in \<open>auto simp: le_imp_less_Suc dest!: scan_key_shorter\<close>)

declare scan_items.simps [simp del] scan_pairs.simps [simp del]

definition json_loads :: "(string \<Rightarrow> real) \<Rightarrow> string \<Rightarrow> json option" where
  "json_loads rf s =
     (case scan_value rf (skip_space s) of
        None \<Rightarrow> None
      | Some (v, t) \<Rightarrow> if skip_space t = [] then Some v else None)"

subsection \<open>Every scanner consumes input\<close>

lemma scan_number_shorter:
  assumes "scan_number rf s = Some (v, t)"
  shows "length t < length s"
proof -
  define sg where "sg = (case s of c # _ \<Rightarrow> if c = CHR ''-'' then [c] else [] | [] \<Rightarrow> [])"
  define ip where "ip = int_part (drop (length sg) s)"
  from assms have ip: "ip \<noteq> []" and rest: "length t \<le> length s - length ip"
    unfolding scan_number_def sg_def [symmetric] Let_def ip_def [symmetric]
    by (auto split: if_splits)
  from ip have "s \<noteq> []" unfolding ip_def by auto
  with ip rest show ?thesis by (cases s; cases ip) auto
qed

lemma scan_items_Some:
  assumes "scan_items rf s = Some (vs, t)"
  obtains v u more w where "scan_value rf s = Some (v, u)" "scan_separator (CHR 0x5D) u = Some (more, w)"
    and "more \<longrightarrow> length w < length s" "\<not> more \<longrightarrow> w = t \<and> vs = [v]"
    and "more \<longrightarrow> (\<exists>ws. scan_items rf w = Some (ws, t) \<and> vs = v # ws)"
  using assms by (subst (asm) scan_items.simps) (auto split: option.splits prod.splits if_splits)

lemma scan_pairs_Some:
  assumes "scan_pairs rf s = Some (ps, t)"
  obtains k s1 v u more w where "scan_key s = Some (k, s1)" "scan_value rf s1 = Some (v, u)"
    "scan_separator (CHR 0x7D) u = Some (more, w)"
    and "more \<longrightarrow> length w < length s" "\<not> more \<longrightarrow> w = t \<and> ps = [(k, v)]"
    and "more \<longrightarrow> (\<exists>qs. scan_pairs rf w = Some (qs, t) \<and> ps = (k, v) # qs)"
  using assms by (subst (asm) scan_pairs.simps) (auto split: option.splits prod.splits if_splits)

lemma scan_progress:
  "scan_value rf s = Some (v, t) \<Longrightarrow> length t < length s"
  "scan_items rf s = Some (vs, t) \<Longrightarrow> length t < length s"
  "scan_pairs rf s = Some (ps, t) \<Longrightarrow> length t < length s"
proof (induction rf s and rf s and rf s arbitrary: v t and vs t and ps t
    rule: scan_value_scan_items_scan_pairs.induct)
  case (1 rf)
  then show ?case by simp
next
  case (2 rf c s)
  note skip = skip_space_length [of s]
  have tl: "length (tl (skip_space s)) \<le> length s"
    using skip by simp
  show ?case
    using 2 skip tl
    by (auto simp: scan_literal_def startswith_iff dest: scan_string_shorter scan_number_shorter split: if_splits)
next
  case (3 rf s)
  from "3.prems" obtain x u more w where v: "scan_value rf s = Some (x, u)"
    and sep: "scan_separator (CHR 0x5D) u = Some (more, w)" and more: "more \<longrightarrow> length w < length s"
    "\<not> more \<longrightarrow> w = t \<and> vs = [x]" "more \<longrightarrow> (\<exists>ws. scan_items rf w = Some (ws, t) \<and> vs = x # ws)"
    by (rule scan_items_Some)
  with "3.IH"(1) [OF v] "3.IH"(2) [OF v refl sep refl] scan_separator_shorter [OF sep] show ?case by fastforce
next
  case (4 rf s)
  from "4.prems" obtain k s1 x u more w where key: "scan_key s = Some (k, s1)" and v: "scan_value rf s1 = Some (x, u)"
    and sep: "scan_separator (CHR 0x7D) u = Some (more, w)" and more: "more \<longrightarrow> length w < length s"
    "\<not> more \<longrightarrow> w = t \<and> ps = [(k, x)]" "more \<longrightarrow> (\<exists>qs. scan_pairs rf w = Some (qs, t) \<and> ps = (k, x) # qs)"
    by (rule scan_pairs_Some)
  with "4.IH"(1) [OF key refl v] "4.IH"(2) [OF key refl v refl sep refl] scan_separator_shorter [OF sep]
    scan_key_shorter [OF key]
  show ?case by fastforce
qed

subsection \<open>What is written is read back\<close>

lemma of_char_small [simp]: "n < 256 \<Longrightarrow> (of_char (char_of n :: char) :: nat) = n"
  by simp

lemma hex_value_digit: "n < 16 \<Longrightarrow> hex_value (hex_digit n) = Some n"
  by (simp add: hex_value_def hex_digit_def)

lemma hex4_digits:
  fixes n :: nat
  shows "n div 4096 * 4096 + n div 256 mod 16 * 256 + n div 16 mod 16 * 16 + n mod 16 = n"
proof -
  have "n div 16 = n div 256 * 16 + n div 16 mod 16" "n div 256 = n div 4096 * 16 + n div 256 mod 16"
    using div_mult_mod_eq [of "n div 16" 16] div_mult_mod_eq [of "n div 256" 16]
    by (simp_all add: div_mult2_eq [symmetric])
  moreover have "n = n div 16 * 16 + n mod 16" by simp
  ultimately show ?thesis by linarith
qed

lemma scan_hex4_written:
  assumes "n < 65536"
  shows "scan_hex4 (map hex_digit [n div 4096 mod 16, n div 256 mod 16, n div 16 mod 16, n mod 16] @ s) = Some (n, s)"
  using hex4_digits [of n] assms by (simp add: hex_value_digit)

lemma scan_unicode_basic:
  assumes "is_scalar n" and "n < 65536"
  shows "scan_unicode (drop 2 (json_hex4 n) @ s) = Some (n, s)"
  using scan_hex4_written [OF assms(2)] assms(1) by (auto simp: scan_unicode_def json_hex4_def is_scalar_def)

lemma scan_unicode_pair:
  assumes "65536 \<le> n" and "n < 1114112"
  shows "scan_unicode (drop 2 (json_hex4 (55296 + (n - 65536) div 1024) @ json_hex4 (56320 + (n - 65536) mod 1024)) @ s)
    = Some (n, s)"
proof -
  define hi lo where "hi = 55296 + (n - 65536) div 1024" and "lo = 56320 + (n - 65536) mod 1024"
  have bounds: "55296 \<le> hi" "hi \<le> 56319" "56320 \<le> lo" "lo \<le> 57343"
    using assms unfolding hi_def lo_def by auto
  have "scan_hex4 (drop 2 (json_hex4 hi) @ json_hex4 lo @ s) = Some (hi, json_hex4 lo @ s)"
    using scan_hex4_written [of hi] bounds by (simp add: json_hex4_def)
  moreover have "low_surrogate (json_hex4 lo @ s) = Some (lo, s)"
    using scan_hex4_written [of lo] bounds by (simp add: json_hex4_def)
  moreover have "65536 + (hi - 55296) * 1024 + (lo - 56320) = n"
    using assms by (simp add: hi_def lo_def)
  ultimately have "scan_unicode (drop 2 (json_hex4 hi) @ json_hex4 lo @ s) = Some (n, s)"
    using bounds by (simp add: scan_unicode_def)
  then show ?thesis by (simp add: hi_def lo_def json_hex4_def)
qed

lemma scan_string_unicode:
  "scan_unicode t = Some (n, u) \<Longrightarrow>
     scan_string (CHR 0x5C # CHR ''u'' # t) = map_option (\<lambda>(x, v). (utf8_encode n @ x, v)) (scan_string u)"
  by simp

lemma named_chars:
  "(char_of (34 :: nat) :: char) = CHR 0x22" "(char_of (92 :: nat) :: char) = CHR 0x5C"
  "(char_of (8 :: nat) :: char) = CHR 0x08" "(char_of (9 :: nat) :: char) = CHR 0x09"
  "(char_of (10 :: nat) :: char) = CHR 0x0A" "(char_of (12 :: nat) :: char) = CHR 0x0C"
  "(char_of (13 :: nat) :: char) = CHR 0x0D" "(char_of (48 :: nat) :: char) = CHR ''0''"
  by code_simp+

lemma scan_string_escape:
  assumes "is_scalar n"
  shows "scan_string (json_escape n @ s) = map_option (\<lambda>(x, t). (utf8_encode n @ x, t)) (scan_string s)"
proof -
  have hex: "json_escape n = (if n < 65536 then json_hex4 n
      else json_hex4 (55296 + (n - 65536) div 1024) @ json_hex4 (56320 + (n - 65536) mod 1024))"
    if "n \<notin> {34, 92, 10, 13, 9, 8, 12}" "\<not> (32 \<le> n \<and> n \<le> 126)"
    using that by (auto simp: json_escape_def)
  consider (named) "n \<in> {34, 92, 10, 13, 9, 8, 12}" | (plain) "32 \<le> n" "n \<le> 126" "n \<noteq> 34" "n \<noteq> 92"
    | (basic) "json_escape n = json_hex4 n" "n < 65536"
    | (pair) "json_escape n = json_hex4 (55296 + (n - 65536) div 1024) @ json_hex4 (56320 + (n - 65536) mod 1024)"
        "65536 \<le> n" "n < 1114112"
    using assms hex unfolding is_scalar_def
    by (cases "n \<in> {34, 92, 10, 13, 9, 8, 12}"; cases "32 \<le> n \<and> n \<le> 126"; cases "n < 65536") auto
  then show ?thesis
  proof cases
    case named
    then show ?thesis by (auto simp: json_escape_def escape_char_def utf8_encode_def named_chars)
  next
    case plain
    then have "json_escape n = [char_of n]" by (simp add: json_escape_def)
    moreover have "(of_char (char_of n :: char) :: nat) = n" using plain by (intro of_char_small) simp
    then have "(char_of n :: char) \<noteq> CHR 0x22" "(char_of n :: char) \<noteq> CHR 0x5C" "(of_char (char_of n :: char) :: nat) \<ge> 32"
      using plain by force+
    ultimately show ?thesis using plain by (simp add: utf8_encode_def)
  next
    case basic
    from scan_string_unicode [OF scan_unicode_basic [OF assms basic(2)], of s] basic(1)
    show ?thesis by (simp add: json_hex4_def)
  next
    case pair
    from scan_string_unicode [OF scan_unicode_pair [OF pair(2,3)], of s] pair(1)
    show ?thesis by (simp add: json_hex4_def)
  qed
qed

lemma scan_string_written:
  "list_all is_scalar ns \<Longrightarrow>
     scan_string (concat (map json_escape ns) @ CHR 0x22 # s) = Some (concat (map utf8_encode ns), s)"
  by (induction ns) (simp_all add: scan_string_escape del: scan_string.simps(2), simp)

lemma scan_json_string:
  assumes "utf8_valid x"
  shows "\<exists>t. json_string x = CHR 0x22 # t \<and> scan_string (t @ s) = Some (x, s)"
  using assms scan_string_written [of "utf8_decode x" s] by (simp add: utf8_valid_def json_string_def)

text \<open>Whole numbers.\<close>

definition number_ends :: "string \<Rightarrow> bool" where
  "number_ends s \<longleftrightarrow> s = [] \<or> hd s \<in> {CHR '','', CHR 0x5D, CHR 0x7D}"

lemma is_digit_digit: "(n :: nat) < 10 \<Longrightarrow> is_digit (char_of (48 + n))"
  by (simp add: is_digit_def)

lemma nat_digits_digits: "list_all is_digit (nat_digits n)"
  by (induction n rule: nat_digits.induct) (subst nat_digits.simps, auto simp: is_digit_digit)

lemma nat_digits_head: "nat_digits n \<noteq> [] \<and> (hd (nat_digits n) = CHR ''0'' \<longrightarrow> n = 0)"
proof (induction n rule: nat_digits.induct)
  case (1 n)
  have "n = 0" if "n < 10" "(char_of (48 + n) :: char) = CHR ''0''"
    using that of_char_small [of "48 + n"] by simp
  with 1 show ?case by (cases "n < 10") (auto simp: nat_digits.simps [of n])
qed

lemma digits_value_written: "digits_value (nat_digits n) = n"
  by (induction n rule: nat_digits.induct) (subst nat_digits.simps, auto simp: digits_value_def)

lemma int_part_written:
  assumes "number_ends s"
  shows "int_part (nat_digits n @ s) = nat_digits n"
proof (cases "n = 0")
  case True
  then show ?thesis by (simp add: nat_digits.simps [of 0] named_chars)
next
  case False
  then obtain c ds where c: "nat_digits n = c # ds" "c \<noteq> CHR ''0''"
    using nat_digits_head [of n] by (cases "nat_digits n") auto
  have "takeWhile is_digit s = []"
    using assms by (cases s) (auto simp: number_ends_def is_digit_def)
  moreover have "takeWhile is_digit (nat_digits n @ s) = nat_digits n @ takeWhile is_digit s"
    using nat_digits_digits by (intro takeWhile_append2) (auto simp: list_all_iff)
  ultimately show ?thesis using c by simp
qed

lemma scan_int_written:
  assumes "number_ends s"
  shows "scan_number rf (int_digits i @ s) = Some (JInt i, s)"
proof -
  have ends: "frac_part s = []" "exp_part s = []"
    using assms by (cases s; auto simp: number_ends_def Let_def)+
  have nonempty: "nat_digits n \<noteq> []" for n using nat_digits_head by blast
  show ?thesis
  proof (cases "i < 0")
    case True
    then show ?thesis
      by (simp add: scan_number_def int_digits_def Let_def int_part_written [OF assms] ends nonempty digits_value_written)
  next
    case False
    obtain c ds where c: "nat_digits (nat i) = c # ds" using nonempty by (cases "nat_digits (nat i)") auto
    with nat_digits_digits [of "nat i"] have "c \<noteq> CHR ''-''" by (auto simp: is_digit_def)
    then have "(case nat_digits (nat i) @ s of c # _ \<Rightarrow> if c = CHR ''-'' then [c] else [] | [] \<Rightarrow> []) = []"
      by (simp add: c)
    with False show ?thesis
      by (simp add: scan_number_def int_digits_def Let_def int_part_written [OF assms] ends nonempty digits_value_written)
  qed
qed

subsection \<open>Values read back\<close>

text \<open>
  The values that survive a round trip: texts that are valid UTF-8, dictionaries with distinct keys
  (as Python's have), no floats (whose texts are the interpreter's business).
\<close>

fun storable :: "json \<Rightarrow> bool"
  and storables :: "json list \<Rightarrow> bool"
  and storable_items :: "(string \<times> json) list \<Rightarrow> bool"
where
  "storable (JFloat r) = False"
| "storable (JStr s) = utf8_valid s"
| "storable (JArr xs) = storables xs"
| "storable (JObj d) = (distinct (map fst d) \<and> storable_items d)"
| "storable _ = True"
| "storables [] = True"
| "storables (x # xs) = (storable x \<and> storables xs)"
| "storable_items [] = True"
| "storable_items ((k, v) # d) = (utf8_valid k \<and> storable v \<and> storable_items d)"

lemma skip_space_ends: "number_ends s \<Longrightarrow> skip_space s = s"
  by (cases s) (auto simp: number_ends_def skip_space_def is_json_space_def)

lemma dict_of_pairs_distinct: "distinct (map fst ps) \<Longrightarrow> dict_of_pairs ps = ps"
proof -
  have "fold (\<lambda>(k, v). AList.update k v) ps acc = acc @ ps"
    if "distinct (map fst ps)" "set (map fst acc) \<inter> set (map fst ps) = {}" for acc
    using that
  proof (induction ps arbitrary: acc)
    case Nil
    then show ?case by simp
  next
    case (Cons p ps)
    obtain k v where p: "p = (k, v)" by force
    have "AList.update k v acc = acc @ [(k, v)]"
      using Cons.prems(2) by (intro update_new_append) (simp add: p)
    with Cons.IH [of "acc @ [(k, v)]"] Cons.prems show ?case by (auto simp: p)
  qed
  from this [of "[]"] show "distinct (map fst ps) \<Longrightarrow> dict_of_pairs ps = ps"
    by (simp add: dict_of_pairs_def)
qed

lemma scan_separator_written:
  "scan_separator close (close # s) = Some (False, s)"
  "close \<noteq> CHR '','' \<Longrightarrow> scan_separator close (CHR '','' # CHR '' '' # s) = Some (True, skip_space s)"
  if "close = CHR 0x5D \<or> close = CHR 0x7D" for close
  using that by (auto simp: scan_separator_def skip_space_def is_json_space_def)

lemma int_digits_head: "\<exists>c t. int_digits i = c # t \<and> (is_digit c \<or> c = CHR ''-'')"
proof -
  have "\<exists>c t. nat_digits n = c # t \<and> is_digit c" for n
    using nat_digits_head [of n] nat_digits_digits [of n] by (cases "nat_digits n") auto
  then show ?thesis by (metis (no_types) int_digits_def)
qed

lemma json_dumps_head:
  assumes "storable v"
  shows "\<exists>c t. json_dumps fr v = c # t \<and> skip_space (c # t @ s) = c # t @ s \<and> c \<noteq> CHR 0x5D \<and> c \<noteq> CHR 0x7D"
proof (cases v)
  case (JInt i)
  obtain c t where "int_digits i = c # t" "is_digit c \<or> c = CHR ''-''" using int_digits_head by blast
  moreover from this have "c \<noteq> CHR 0x5D" "c \<noteq> CHR 0x7D" "\<not> is_json_space c"
    by (auto simp: is_digit_def is_json_space_def)
  ultimately show ?thesis by (simp add: JInt skip_space_def)
qed (use assms in \<open>simp_all add: skip_space_def is_json_space_def json_string_def\<close>)

lemma scan_digit:
  assumes "is_digit c \<or> c = CHR ''-''"
  shows "scan_value rf (c # s) = scan_number rf (c # s)"
proof -
  have "c \<noteq> CHR 0x22 \<and> c \<noteq> CHR 0x7B \<and> c \<noteq> CHR 0x5B \<and> c \<noteq> CHR ''n'' \<and> c \<noteq> CHR ''t'' \<and> c \<noteq> CHR ''f''"
    using assms by (auto simp: is_digit_def)
  then show ?thesis by simp
qed

lemma scan_json_int: "number_ends s \<Longrightarrow> scan_value rf (int_digits i @ s) = Some (JInt i, s)"
  using int_digits_head [of i] scan_int_written [of s rf i] by (auto simp del: scan_value.simps simp: scan_digit)

lemma scan_key_written:
  assumes "utf8_valid k"
  shows "scan_key (json_string k @ CHR '':'' # CHR '' '' # s) = Some (k, skip_space s)"
proof -
  obtain t where "json_string k = CHR 0x22 # t" "scan_string (t @ CHR '':'' # CHR '' '' # s) = Some (k, CHR '':'' # CHR '' '' # s)"
    using scan_json_string [OF assms] by blast
  then show ?thesis by (simp add: scan_key_def skip_space_def is_json_space_def)
qed

text \<open>One step of each kind: an array, an object, an item of an array, a pair of an object.\<close>

lemma scan_array_written:
  assumes "storables xs"
    and "xs \<noteq> [] \<Longrightarrow> scan_items rf (py_join '', '' (json_dumps_list fr xs) @ CHR 0x5D # s) = Some (xs, s)"
  shows "scan_value rf (json_dumps fr (JArr xs) @ s) = Some (JArr xs, s)"
proof (cases xs)
  case Nil
  then show ?thesis by (simp add: skip_space_def is_json_space_def py_startswith_def)
next
  case (Cons x ys)
  let ?text = "py_join '', '' (json_dumps_list fr xs) @ CHR 0x5D # s"
  have "\<exists>t. ?text = json_dumps fr x @ t" using Cons by (cases ys) auto
  then have "skip_space ?text = ?text" "\<not> py_startswith ?text [CHR 0x5D]"
    using json_dumps_head [of x fr] assms(1) Cons by (force simp: py_startswith_def)+
  with assms(2) Cons show ?thesis by simp
qed

lemma scan_object_written:
  assumes "distinct (map fst d)"
    and "d \<noteq> [] \<Longrightarrow> scan_pairs rf (py_join '', '' (json_dumps_items fr d) @ CHR 0x7D # s) = Some (d, s)"
  shows "scan_value rf (json_dumps fr (JObj d) @ s) = Some (JObj d, s)"
proof (cases d)
  case Nil
  then show ?thesis by (simp add: skip_space_def is_json_space_def py_startswith_def)
next
  case (Cons kv ds)
  let ?text = "py_join '', '' (json_dumps_items fr d) @ CHR 0x7D # s"
  obtain t where t: "?text = CHR 0x22 # t"
    using Cons by (cases kv; cases ds) (auto simp: json_string_def)
  have "skip_space ?text = ?text" "\<not> py_startswith ?text [CHR 0x7D]"
    unfolding t by (simp_all add: py_startswith_def skip_space_def is_json_space_def)
  moreover have "scan_pairs rf ?text = Some (d, s)" using assms(2) Cons by simp
  ultimately show ?thesis using assms(1) by (simp add: dict_of_pairs_distinct)
qed

lemma scan_items_written:
  assumes "\<And>t. number_ends t \<Longrightarrow> scan_value rf (json_dumps fr x @ t) = Some (x, t)" and "storables xs"
    and "xs \<noteq> [] \<Longrightarrow> scan_items rf (py_join '', '' (json_dumps_list fr xs) @ CHR 0x5D # s) = Some (xs, s)"
  shows "scan_items rf (py_join '', '' (json_dumps_list fr (x # xs)) @ CHR 0x5D # s) = Some (x # xs, s)"
proof (cases xs)
  case Nil
  with assms(1) [of "CHR 0x5D # s"] show ?thesis
    by (subst scan_items.simps) (simp add: number_ends_def scan_separator_written)
next
  case (Cons y ys)
  let ?rest = "py_join '', '' (json_dumps_list fr xs) @ CHR 0x5D # s"
  have "scan_value rf (json_dumps fr x @ CHR '','' # CHR '' '' # ?rest) = Some (x, CHR '','' # CHR '' '' # ?rest)"
    by (rule assms(1)) (simp add: number_ends_def)
  moreover have "\<exists>t. ?rest = json_dumps fr y @ t" using Cons by (cases ys) auto
  then have "skip_space ?rest = ?rest"
    using json_dumps_head [of y fr] assms(2) Cons by force
  ultimately show ?thesis
    using Cons assms(3) by (subst scan_items.simps) (simp add: scan_separator_written)
qed

lemma scan_pairs_written:
  assumes "utf8_valid k" and "storable v"
    and "\<And>t. number_ends t \<Longrightarrow> scan_value rf (json_dumps fr v @ t) = Some (v, t)"
    and "d \<noteq> [] \<Longrightarrow> scan_pairs rf (py_join '', '' (json_dumps_items fr d) @ CHR 0x7D # s) = Some (d, s)"
  shows "scan_pairs rf (py_join '', '' (json_dumps_items fr ((k, v) # d)) @ CHR 0x7D # s) = Some ((k, v) # d, s)"
proof -
  have start: "skip_space (json_dumps fr v @ t) = json_dumps fr v @ t" for t
    using json_dumps_head [OF assms(2), of fr t] by auto
  note key = scan_key_written [OF assms(1)]
  show ?thesis
  proof (cases d)
    case Nil
    with assms(3) [of "CHR 0x7D # s"] show ?thesis
      by (subst scan_pairs.simps) (simp add: number_ends_def scan_separator_written key start)
  next
    case (Cons kv ds)
    obtain k' v' where kv: "kv = (k', v')" by force
    let ?rest = "py_join '', '' (json_dumps_items fr d) @ CHR 0x7D # s"
    have "scan_value rf (json_dumps fr v @ CHR '','' # CHR '' '' # ?rest) = Some (v, CHR '','' # CHR '' '' # ?rest)"
      by (rule assms(3)) (simp add: number_ends_def)
    moreover have "\<exists>t. ?rest = CHR 0x22 # t" using Cons kv by (cases ds) (auto simp: json_string_def)
    then have "skip_space ?rest = ?rest" by (auto simp: skip_space_def is_json_space_def)
    ultimately show ?thesis
      using Cons kv assms(4) by (subst scan_pairs.simps) (simp add: scan_separator_written key start)
  qed
qed

lemma scan_written:
  "storable v \<Longrightarrow> number_ends s \<Longrightarrow> scan_value rf (json_dumps fr v @ s) = Some (v, s)"
  "storables vs \<Longrightarrow> vs \<noteq> [] \<Longrightarrow>
     scan_items rf (py_join '', '' (json_dumps_list fr vs) @ CHR 0x5D # s) = Some (vs, s)"
  "storable_items d \<Longrightarrow> d \<noteq> [] \<Longrightarrow>
     scan_pairs rf (py_join '', '' (json_dumps_items fr d) @ CHR 0x7D # s) = Some (d, s)"
proof (induction fr v and fr vs and fr d arbitrary: s and s and s
    rule: json_dumps_json_dumps_list_json_dumps_items.induct)
  case (5 fr x)
  obtain t where "json_string x = CHR 0x22 # t" "scan_string (t @ s) = Some (x, s)"
    using scan_json_string 5 by (metis storable.simps(2))
  then show ?case by simp
next
  case (6 fr xs)
  then show ?case by (intro scan_array_written) simp_all
next
  case (7 fr d)
  then show ?case by (intro scan_object_written) simp_all
next
  case (9 fr x xs)
  then show ?case by (intro scan_items_written) simp_all
next
  case (11 fr k v d)
  then show ?case by (intro scan_pairs_written) simp_all
qed (simp_all add: scan_literal_def py_startswith_def scan_json_int)

lemma loads_dumps: "storable v \<Longrightarrow> json_loads rf (json_dumps fr v) = Some v"
  using scan_written(1) [of v "[]" rf fr] json_dumps_head [of v fr "[]"]
  by (auto simp: json_loads_def number_ends_def skip_space_def)

end
