(* ===== verification/Tool_Providers.thy ===== *)
theory Tool_Providers
  imports Crud_Tools Json_Text
begin

text \<open>
  The tools axis: the ToolProvider Protocol (\<open>tools/base.py\<close>) as a locale, the composite that
  tries providers in order (\<open>tools/composite_provider.py\<close>), the hotel's in-memory provider
  (\<open>tools/in_memory_provider.py\<close>) and the MCP provider (\<open>tools/mcp_provider.py\<close>). The
  provider of the generated CRUD Tools is in \<open>Crud_Tools\<close>, the menu's in \<open>Menu\<close>.
\<close>

subsection \<open>The Protocol\<close>

text \<open>
  What callers rely on: a provider raises \<open>UnknownToolError\<close> exactly for the names it does not
  know, and then it has changed nothing. What a provider knows may depend on its state (the
  tables of a repository), so the laws hold in the states of an invariant, which calls keep.
\<close>

definition not_unknown :: "exn \<Rightarrow> bool" where
  "not_unknown e \<longleftrightarrow> (\<forall>n. e \<noteq> UnknownToolError n)"

locale tool_provider =
  fixes call :: "string \<Rightarrow> json dict \<Rightarrow> ('w, json) cmd"
    and knows :: "'w \<Rightarrow> string \<Rightarrow> bool"
    and inv :: "'w \<Rightarrow> bool"
  assumes unknown: "inv s \<Longrightarrow> \<not> knows s name \<Longrightarrow> call name args s = (Inl (UnknownToolError name), s)"
    and known: "inv s \<Longrightarrow> knows s name \<Longrightarrow> call name args s = (Inl e, s') \<Longrightarrow> not_unknown e"
    and keeps: "inv s \<Longrightarrow> call name args s = (r, s') \<Longrightarrow> inv s'"
begin

lemma unknown_iff:
  assumes "inv s" and "call name args s = (r, s')"
  shows "(\<exists>n. r = Inl (UnknownToolError n)) \<longleftrightarrow> \<not> knows s name"
  using assms unknown [of s name args] known [of s name args] by (cases r) (auto simp: not_unknown_def)

end

subsection \<open>The composite\<close>

text \<open>\<open>try: return p.call(...) except UnknownToolError: continue\<close>\<close>

definition fallback ::
  "(string \<Rightarrow> json dict \<Rightarrow> ('w, json) cmd) \<Rightarrow> (string \<Rightarrow> json dict \<Rightarrow> ('w, json) cmd) \<Rightarrow>
   string \<Rightarrow> json dict \<Rightarrow> ('w, json) cmd" where
  "fallback p q name args = catch (p name args) (\<lambda>e.
     case e of UnknownToolError _ \<Rightarrow> q name args | _ \<Rightarrow> raise e)"

definition composite_init :: "'p list \<Rightarrow> 'p list result" where
  "composite_init providers = (if providers = [] then Inl ValueError else Inr providers)"

fun composite_call ::
  "(string \<Rightarrow> json dict \<Rightarrow> ('w, json) cmd) list \<Rightarrow> string \<Rightarrow> json dict \<Rightarrow> ('w, json) cmd" where
  "composite_call [] name args = raise IndexError"
| "composite_call [p] name args = p name args"
| "composite_call (p # q # ps) name args = fallback p (composite_call (q # ps)) name args"

text \<open>Two providers over the same states: trying one and then the other is a provider again.\<close>

locale provider_pair =
  first: tool_provider p kp inv + second: tool_provider q kq inv
  for p :: "string \<Rightarrow> json dict \<Rightarrow> ('w, json) cmd" and kp :: "'w \<Rightarrow> string \<Rightarrow> bool"
    and q :: "string \<Rightarrow> json dict \<Rightarrow> ('w, json) cmd" and kq :: "'w \<Rightarrow> string \<Rightarrow> bool"
    and inv :: "'w \<Rightarrow> bool"
begin

lemma fallback_first:
  assumes "inv s" and "kp s name"
  shows "fallback p q name args s = p name args s"
proof (cases "p name args s")
  case (Pair r s')
  then show ?thesis
    using first.known [OF assms, of args] by (cases r) (auto simp: fallback_def catch_def not_unknown_def split: exn.splits)
qed

lemma fallback_second:
  "inv s \<Longrightarrow> \<not> kp s name \<Longrightarrow> fallback p q name args s = q name args s"
  by (simp add: fallback_def catch_def first.unknown)

end

sublocale provider_pair \<subseteq> tool_provider "fallback p q" "\<lambda>s n. kp s n \<or> kq s n" inv
proof
  fix s name args
  assume "inv s" "\<not> (kp s name \<or> kq s name)"
  then show "fallback p q name args s = (Inl (UnknownToolError name), s)"
    by (simp add: fallback_second second.unknown)
next
  fix s name args e s'
  assume h: "inv s" "kp s name \<or> kq s name" "fallback p q name args s = (Inl e, s')"
  show "not_unknown e"
  proof (cases "kp s name")
    case True
    with h first.known show ?thesis by (simp add: fallback_first)
  next
    case False
    with h second.known show ?thesis by (simp add: fallback_second)
  qed
next
  fix s name args r s'
  assume h: "inv s" "fallback p q name args s = (r, s')"
  show "inv s'"
  proof (cases "kp s name")
    case True
    with h first.keeps show ?thesis by (simp add: fallback_first)
  next
    case False
    with h second.keeps show ?thesis by (simp add: fallback_second)
  qed
qed

subsection \<open>The hotel's provider\<close>

record room =
  rm_nightly_rate :: real
  rm_total_rooms :: int

text \<open>\<open>ht_uuid n\<close> is what the \<open>n\<close>-th call of \<open>str(uuid.uuid4())\<close> returns.\<close>

record hotel =
  ht_rooms :: "room dict"
  ht_bookings :: "json dict list"
  ht_uuid :: "nat \<Rightarrow> string"
  ht_uuid_count :: nat

definition hotel_init :: "(nat \<Rightarrow> string) \<Rightarrow> hotel" where
  "hotel_init uuids =
     \<lparr>ht_rooms = [(''standard'', \<lparr>rm_nightly_rate = 80, rm_total_rooms = 5\<rparr>),
                  (''deluxe'', \<lparr>rm_nightly_rate = 130, rm_total_rooms = 3\<rparr>),
                  (''suite'', \<lparr>rm_nightly_rate = 220, rm_total_rooms = 1\<rparr>)],
      ht_bookings = [], ht_uuid = uuids, ht_uuid_count = 0\<rparr>"

text \<open>\<open>self.rooms.get(room_type)\<close>: a list or a dictionary is not hashable.\<close>

fun rooms_get :: "room dict \<Rightarrow> json \<Rightarrow> room option result" where
  "rooms_get rooms (JStr s) = Inr (dget rooms s)"
| "rooms_get rooms (JArr _) = Inl TypeError"
| "rooms_get rooms (JObj _) = Inl TypeError"
| "rooms_get rooms _ = Inr None"

definition check_room_availability :: "(real \<Rightarrow> string) \<Rightarrow> json dict \<Rightarrow> (hotel, json) cmd" where
  "check_room_availability fr arguments =
     bindC (liftR (dict_index arguments ''room_type'')) (\<lambda>room_type.
     bindC (liftR (dict_index arguments ''check_in'')) (\<lambda>check_in.
     bindC (liftR (dict_index arguments ''check_out'')) (\<lambda>check_out.
     bindC (gets ht_rooms) (\<lambda>rooms.
     bindC (liftR (rooms_get rooms room_type)) (\<lambda>room.
     ret (case room of
       None \<Rightarrow> JObj [(''available'', JBool False), (''room_type'', room_type),
                     (''reason'', JStr (''No such room type: '' @ py_repr fr room_type))]
     | Some r \<Rightarrow> JObj [(''available'', JBool True), (''room_type'', room_type),
                     (''check_in'', check_in), (''check_out'', check_out),
                     (''nightly_rate'', JFloat (rm_nightly_rate r)),
                     (''rooms_available'', JInt (rm_total_rooms r))]))))))"

definition hotel_uuid :: "(hotel, string) cmd" where
  "hotel_uuid = (\<lambda>h. (Inr (ht_uuid h (ht_uuid_count h)), h\<lparr>ht_uuid_count := ht_uuid_count h + 1\<rparr>))"

definition book_room :: "(real \<Rightarrow> string) \<Rightarrow> json dict \<Rightarrow> (hotel, json) cmd" where
  "book_room fr arguments =
     bindC (liftR (dict_index arguments ''room_type'')) (\<lambda>room_type.
     bindC (liftR (dict_index arguments ''check_in'')) (\<lambda>check_in.
     bindC (liftR (dict_index arguments ''check_out'')) (\<lambda>check_out.
     bindC (liftR (dict_index arguments ''guest_name'')) (\<lambda>guest_name.
     bindC (gets ht_rooms) (\<lambda>rooms.
     bindC (liftR (rooms_get rooms room_type)) (\<lambda>room.
     case room of
       None \<Rightarrow> ret (failure_with (''No such room type: '' @ py_repr fr room_type))
     | Some r \<Rightarrow>
         bindC hotel_uuid (\<lambda>booking_id.
         let booking = [(''booking_id'', JStr booking_id), (''room_type'', room_type),
                        (''check_in'', check_in), (''check_out'', check_out),
                        (''guest_name'', guest_name), (''nightly_rate'', JFloat (rm_nightly_rate r))] in
         bindC (modify (\<lambda>h. h\<lparr>ht_bookings := ht_bookings h @ [booking]\<rparr>)) (\<lambda>_.
         ret (success_with booking)))))))))"

definition hotel_call :: "(real \<Rightarrow> string) \<Rightarrow> string \<Rightarrow> json dict \<Rightarrow> (hotel, json) cmd" where
  "hotel_call fr name arguments =
     (if name = ''check_room_availability'' then check_room_availability fr arguments
      else if name = ''book_room'' then book_room fr arguments
      else raise (UnknownToolError name))"

lemma raises_dict_index [raises_intros]: "raises_only not_unknown (liftR (dict_index d k))"
  by (rule raises_basic) (simp add: dict_index_Inl_iff not_unknown_def)

lemma raises_rooms_get [raises_intros]: "raises_only not_unknown (liftR (rooms_get rooms v))"
  by (rule raises_basic) (cases v; auto simp: not_unknown_def)

lemma raises_hotel_uuid [raises_intros]: "raises_only P hotel_uuid"
  by (simp add: raises_only_def hotel_uuid_def)

lemma raises_check_room: "raises_only not_unknown (check_room_availability fr args)"
  unfolding check_room_availability_def by (intro raises_intros)

lemma raises_book_room: "raises_only not_unknown (book_room fr args)"
  unfolding book_room_def Let_def by (intro raises_intros) (auto split: option.split intro!: raises_intros)

definition hotel_knows :: "hotel \<Rightarrow> string \<Rightarrow> bool" where
  "hotel_knows h name \<longleftrightarrow> name \<in> set [''check_room_availability'', ''book_room'']"

interpretation hotel: tool_provider "hotel_call fr" hotel_knows "\<lambda>_. True" for fr
proof
  fix s :: hotel and name args e s'
  assume "hotel_knows s name" and run: "hotel_call fr name args s = (Inl e, s')"
  then show "not_unknown e"
    using raises_onlyD [OF raises_check_room, of fr args s e s'] raises_onlyD [OF raises_book_room, of fr args s e s']
    by (auto simp: hotel_knows_def hotel_call_def split: if_splits)
qed (auto simp: hotel_knows_def hotel_call_def)

subsection \<open>The MCP provider\<close>

text \<open>
  A remote call (session, \<open>call_tool\<close>) is a command on whatever is outside the process; a
  failure of the transport is an exception of a library, never one of this program's.
  \<open>fp\<close> is Python's \<open>float()\<close> on a number of the answer's JSON text.
\<close>

datatype content_block = TextContent string | OtherContent

record call_tool_result =
  ct_structured :: "json option"
  ct_content :: "content_block list"
  ct_is_error :: bool

fun block_text :: "content_block \<Rightarrow> string" where
  "block_text (TextContent t) = t"
| "block_text OtherContent = []"

definition unwrap_result :: "(string \<Rightarrow> real) \<Rightarrow> call_tool_result \<Rightarrow> json" where
  "unwrap_result fp result =
     (let payload = (case ct_structured result of
        Some v \<Rightarrow> v
      | None \<Rightarrow>
          let text = concat (map block_text (ct_content result))
          in if text = [] then JNull
             else (case json_loads fp text of Some v \<Rightarrow> v | None \<Rightarrow> JStr text))
      in if ct_is_error result then JObj [(''success'', JBool False), (''error'', payload)]
         else (case payload of JObj d \<Rightarrow> JObj d | _ \<Rightarrow> JObj [(''result'', payload)]))"

type_synonym 'e mcp_client = "string \<Rightarrow> string \<Rightarrow> json dict \<Rightarrow> 'e \<Rightarrow> (string + call_tool_result) \<times> 'e"

definition call_over_mcp ::
  "'e mcp_client \<Rightarrow> (string \<Rightarrow> real) \<Rightarrow> string \<Rightarrow> string \<Rightarrow> json dict \<Rightarrow> ('e, json) cmd" where
  "call_over_mcp client fp endpoint name arguments = (\<lambda>w.
     case client endpoint name arguments w of
       (Inl failure, w') \<Rightarrow> (Inl (ExternalError failure), w')
     | (Inr result, w') \<Rightarrow> (Inr (unwrap_result fp result), w'))"

definition mcp_call ::
  "'e mcp_client \<Rightarrow> (string \<Rightarrow> real) \<Rightarrow> string dict \<Rightarrow> string \<Rightarrow> json dict \<Rightarrow> ('e, json) cmd" where
  "mcp_call client fp endpoints name arguments =
     (case dget endpoints name of
        None \<Rightarrow> raise (UnknownToolError name)
      | Some endpoint \<Rightarrow> call_over_mcp client fp endpoint name arguments)"

definition mcp_knows :: "string dict \<Rightarrow> 'e \<Rightarrow> string \<Rightarrow> bool" where
  "mcp_knows endpoints w name \<longleftrightarrow> dget endpoints name \<noteq> None"

interpretation mcp: tool_provider "mcp_call client fp endpoints" "mcp_knows endpoints" "\<lambda>_. True"
  for client fp endpoints
  by unfold_locales
    (auto simp: mcp_call_def mcp_knows_def call_over_mcp_def not_unknown_def split: prod.splits sum.splits)

subsection \<open>The provider of the generated Tools\<close>

definition crud_knows :: "entity_db \<Rightarrow> string \<Rightarrow> bool" where
  "crud_knows db name \<longleftrightarrow> (case catalogue db of Inl _ \<Rightarrow> False | Inr tds \<Rightarrow> crud_target tds name \<noteq> None)"

definition crud_inv :: "sql_engine \<Rightarrow> entity_db \<Rightarrow> bool" where
  "crud_inv eng db \<longleftrightarrow> numbers_only eng \<and> (\<exists>tds. repo_inv eng tds db)"

text \<open>Rows come and go, the catalogue stays.\<close>

definition keeps_catalogue :: "sql_engine \<Rightarrow> table_def list \<Rightarrow> (entity_db, 'a) cmd \<Rightarrow> bool" where
  "keeps_catalogue eng tds m \<longleftrightarrow> (\<forall>db r db'. repo_inv eng tds db \<longrightarrow> m db = (r, db') \<longrightarrow> repo_inv eng tds db')"

lemma keeps_catalogueD: "keeps_catalogue eng tds m \<Longrightarrow> repo_inv eng tds db \<Longrightarrow> m db = (r, db') \<Longrightarrow> repo_inv eng tds db'"
  unfolding keeps_catalogue_def by blast

lemma keeps_catalogue_bind:
  assumes "keeps_catalogue eng tds m" and "\<And>x. keeps_catalogue eng tds (f x)"
  shows "keeps_catalogue eng tds (bindC m f)"
  unfolding keeps_catalogue_def
proof (intro allI impI)
  fix db r db' assume inv: "repo_inv eng tds db" and run: "bindC m f db = (r, db')"
  obtain q db1 where m: "m db = (q, db1)" by fastforce
  have inv1: "repo_inv eng tds db1" by (rule keeps_catalogueD [OF assms(1) inv m])
  show "repo_inv eng tds db'"
  proof (cases q)
    case (Inl e)
    with run m inv1 show ?thesis by (simp add: bindC_def)
  next
    case (Inr x)
    with run m have "f x db1 = (r, db')" by (simp add: bindC_def)
    then show ?thesis by (rule keeps_catalogueD [OF assms(2) inv1])
  qed
qed

lemma keeps_catalogue_pure:
  "keeps_catalogue eng tds (ret x)" "keeps_catalogue eng tds (raise e)" "keeps_catalogue eng tds (liftR q)"
  by (simp_all add: keeps_catalogue_def)

lemma keeps_catalogue_upsert:
  assumes "numbers_only eng"
  shows "keeps_catalogue eng tds (upsert_row eng name row)"
  unfolding keeps_catalogue_def
proof (intro allI impI)
  fix db r db' assume inv: "repo_inv eng tds db" and run: "upsert_row eng name row db = (r, db')"
  from upsert_row_cases [OF inv assms run] repo_inv_same_tables [OF inv, of db'] show "repo_inv eng tds db'"
    by (auto simp: harmless_def upserted_def)
qed

lemma keeps_catalogue_delete: "keeps_catalogue eng tds (delete_row eng name i)"
  unfolding keeps_catalogue_def
proof (intro allI impI)
  fix db r db' assume inv: "repo_inv eng tds db" and run: "delete_row eng name i db = (r, db')"
  show "repo_inv eng tds db'"
  proof (cases "find_def name tds = None \<or> (\<exists>e. bind_value i = Inl e)")
    case True
    with delete_row_raises [OF inv True] run inv repo_inv_same_tables [OF inv, of db']
    show ?thesis by auto
  next
    case False
    then obtain td v where "find_def name tds = Some td" "bind_value i = Inr v"
      by (cases "bind_value i") auto
    with delete_row_run(2) [OF inv _ _ run] show ?thesis by blast
  qed
qed

lemma keeps_catalogue_get: "keeps_catalogue eng tds (get_row eng name i)"
  unfolding keeps_catalogue_def
proof (intro allI impI)
  fix db r db' assume inv: "repo_inv eng tds db" and run: "get_row eng name i db = (r, db')"
  show "repo_inv eng tds db'"
  proof (cases "find_def name tds")
    case None
    with require_table_run [of db tds name] inv run show ?thesis
      by (auto simp: get_row_def bindC_def repo_inv_def)
  next
    case (Some td)
    with get_row_run [OF inv Some, of i] run inv show ?thesis by simp
  qed
qed

lemma keeps_catalogue_list: "keeps_catalogue eng tds (list_rows name)"
  unfolding keeps_catalogue_def by (metis list_rows_state snd_conv)

lemmas keeps_catalogue_intros = keeps_catalogue_bind keeps_catalogue_pure keeps_catalogue_upsert
  keeps_catalogue_delete keeps_catalogue_get keeps_catalogue_list

lemma keeps_catalogue_update:
  assumes "numbers_only eng"
  shows "keeps_catalogue eng tds (crud_update eng fr name args)"
  unfolding crud_update_def
  by (intro keeps_catalogue_intros) (auto split: option.split intro!: keeps_catalogue_intros assms)

lemma keeps_entity_crud:
  assumes inv: "repo_inv eng tds db" and num: "numbers_only eng"
    and run: "entity_crud_call eng fr name args db = (r, db')"
  shows "repo_inv eng tds db'"
proof (cases "crud_target tds name")
  case None
  with crud_call_unknown [OF inv None, of fr args] run inv show ?thesis by simp
next
  case (Some vt)
  obtain verb td where vt: "vt = (verb, td)" by (cases vt)
  have "keeps_catalogue eng tds
    (if verb = ''list'' then bindC (list_rows (td_table_name td)) (\<lambda>rows. ret (JObj [(''rows'', JArr (map JObj rows))]))
     else if verb = ''create'' then bindC (upsert_row eng (td_table_name td) (dwithout ''id'' args)) (\<lambda>c. ret (success_with c))
     else if verb = ''update'' then crud_update eng fr (td_table_name td) args
     else crud_delete eng fr (td_table_name td) args)"
    using num by (auto simp: crud_delete_def intro!: keeps_catalogue_intros keeps_catalogue_update)
  then show ?thesis
    by (rule keeps_catalogueD [OF _ inv]) (use run crud_call_known(1) [OF inv Some [unfolded vt], of fr args] in simp)
qed

lemma not_unknown_basic [simp]:
  "not_unknown SqlOperationalError" "not_unknown SqlIntegrityError" "not_unknown AssertionError"
  "not_unknown (UnknownTableError n)" "not_unknown TypeError" "not_unknown ValidationError"
  "not_unknown ValueError" "not_unknown (KeyError n)"
  by (simp_all add: not_unknown_def)

lemma raises_bind_value [raises_intros]: "raises_only not_unknown (liftR (bind_value v))"
  by (rule raises_basic) (cases v; auto simp: not_unknown_def split: if_splits)

lemma raises_bind_values [raises_intros]: "raises_only not_unknown (liftR (mapMR bind_value vs))"
  using raises_bind_value by (fastforce intro!: raises_basic simp: raises_only_def dest!: mapMR_error)

lemma table_def_not_unknown: "table_def_from_row m = Inl e \<Longrightarrow> not_unknown e"
proof -
  assume "table_def_from_row m = Inl e"
  moreover have "not_unknown e'" if "parse_column v = Inl e'" for v e'
    using that by (auto simp: parse_column_def parse_column_type_def bindR_Inl_iff split: json.splits option.splits
        elim!: json_str.elims json_bool.elims)
  ultimately show ?thesis
    by (auto simp: table_def_from_row_def parse_id_type_def bindR_Inl_iff split: json.splits option.splits
        dest!: mapMR_error)
qed

lemma raises_require_table [raises_intros]: "raises_only not_unknown (require_table name)"
  unfolding raises_only_def require_table_def
  by (auto split: option.splits dest: table_def_not_unknown)

lemma raises_sql [raises_intros]:
  "raises_only not_unknown (the_table name)" "raises_only not_unknown (guard_sql b)"
  "raises_only not_unknown begin_transaction" "raises_only not_unknown sql_commit"
  "raises_only not_unknown fresh_uuid"
  by (auto simp: raises_only_def the_table_def guard_sql_def begin_transaction_def sql_commit_def fresh_uuid_def
      split: option.splits if_splits)

lemma raises_statements [raises_intros]:
  "raises_only not_unknown (sql_insert eng name columns values)"
  "raises_only not_unknown (sql_replace eng name columns i values)"
  "raises_only not_unknown (sql_select name columns)"
  "raises_only not_unknown (sql_select_id eng name columns i)"
  "raises_only not_unknown (sql_delete_id eng name i)"
  unfolding sql_insert_def sql_replace_def sql_select_def sql_select_id_def sql_delete_id_def Let_def
  by (intro raises_intros; simp)+

lemma raises_rows [raises_intros]:
  "raises_only not_unknown (list_rows name)" "raises_only not_unknown (get_row eng name i)"
  "raises_only not_unknown (delete_row eng name i)"
  unfolding list_rows_def get_row_def delete_row_def by (intro raises_intros)+

lemma raises_upsert [raises_intros]: "raises_only not_unknown (upsert_row eng name row)"
  unfolding upsert_row_def Let_def
  by (intro raises_intros) (auto split: option.split intro!: raises_intros)

lemma raises_crud_update: "raises_only not_unknown (crud_update eng fr name args)"
  unfolding crud_update_def by (intro raises_intros) (auto split: option.split intro!: raises_intros)

lemma raises_crud_delete: "raises_only not_unknown (crud_delete eng fr name args)"
  unfolding crud_delete_def by (intro raises_intros)

interpretation crud: tool_provider "entity_crud_call eng fr" crud_knows "crud_inv eng" for eng fr
proof
  fix s name args
  assume "crud_inv eng s" and not_known: "\<not> crud_knows s name"
  then obtain tds where inv: "repo_inv eng tds s" by (auto simp: crud_inv_def)
  with not_known have "crud_target tds name = None" 
    by (cases "crud_target tds name") (auto simp: crud_knows_def repo_inv_def)
  with inv show "entity_crud_call eng fr name args s = (Inl (UnknownToolError name), s)"
    by (rule crud_call_unknown)
next
  fix s name args e s'
  assume h: "crud_inv eng s" "crud_knows s name" "entity_crud_call eng fr name args s = (Inl e, s')"
  then obtain tds verb td where inv: "repo_inv eng tds s" and t: "crud_target tds name = Some (verb, td)"
    by (auto simp: crud_inv_def crud_knows_def repo_inv_def)
  have "raises_only not_unknown
    (if verb = ''list'' then bindC (list_rows (td_table_name td)) (\<lambda>rows. ret (JObj [(''rows'', JArr (map JObj rows))]))
     else if verb = ''create'' then bindC (upsert_row eng (td_table_name td) (dwithout ''id'' args)) (\<lambda>c. ret (success_with c))
     else if verb = ''update'' then crud_update eng fr (td_table_name td) args
     else crud_delete eng fr (td_table_name td) args)"
    by (intro raises_intros raises_crud_update raises_crud_delete)
  then show "not_unknown e"
    by (rule raises_onlyD) (use h(3) crud_call_known(1) [OF inv t, of fr args] in simp)
next
  fix s name args r s'
  assume "crud_inv eng s" "entity_crud_call eng fr name args s = (r, s')"
  then show "crud_inv eng s'"
    by (auto simp: crud_inv_def dest: keeps_entity_crud)
qed

end
