(* ===== verification/Menu.thy ===== *)
theory Menu
  imports Tool_Providers
begin

text \<open>
  The menu: \<open>menu/base.py\<close>, the adapter that keeps menu items as rows of a tool-linked table
  (\<open>entities/menu_repository_adapter.py\<close>), the Tool that answers price and stock questions
  (\<open>tools/kampuscrave_provider.py\<close>) and the choice of the table (\<open>tools/registry.py\<close>).
\<close>

record menu_item =
  mi_name :: string
  mi_category :: string
  mi_price :: real
  mi_stock_quantity :: int

text \<open>
  Building a \<open>MenuItem\<close> from a row's values is pydantic's lax validation: what each field
  type makes of a value, \<open>None\<close> where it refuses.
\<close>

record menu_validation =
  mv_str :: "json \<Rightarrow> string option"
  mv_float :: "json \<Rightarrow> real option"
  mv_int :: "json \<Rightarrow> int option"

definition make_menu_item :: "menu_validation \<Rightarrow> json \<Rightarrow> json \<Rightarrow> json \<Rightarrow> json \<Rightarrow> menu_item result" where
  "make_menu_item mv name category price stock =
     (case (mv_str mv name, mv_str mv category, mv_float mv price, mv_int mv stock) of
        (Some n, Some c, Some p, Some q) \<Rightarrow>
          Inr \<lparr>mi_name = n, mi_category = c, mi_price = p, mi_stock_quantity = q\<rparr>
      | _ \<Rightarrow> Inl ValidationError)"

definition item_from_row :: "menu_validation \<Rightarrow> json dict \<Rightarrow> menu_item result" where
  "item_from_row mv row =
     bindR (dict_index row ''name'') (\<lambda>name.
     bindR (dict_index row ''category'') (\<lambda>category.
     bindR (dict_index row ''price'') (\<lambda>price.
     bindR (dict_index row ''stock_quantity'') (\<lambda>stock.
     make_menu_item mv name category price stock))))"

definition row_from_item :: "menu_item \<Rightarrow> json dict" where
  "row_from_item item =
     [(''id'', JStr (mi_name item)), (''name'', JStr (mi_name item)), (''category'', JStr (mi_category item)),
      (''price'', JFloat (mi_price item)), (''stock_quantity'', JInt (mi_stock_quantity item))]"

subsection \<open>The adapter\<close>

definition menu_get_item ::
  "sql_engine \<Rightarrow> menu_validation \<Rightarrow> string \<Rightarrow> json \<Rightarrow> (entity_db, menu_item option) cmd" where
  "menu_get_item eng mv table_name name =
     bindC (get_row eng table_name name) (\<lambda>row.
     case row of
       None \<Rightarrow> ret None
     | Some r \<Rightarrow> bindC (liftR (item_from_row mv r)) (\<lambda>item. ret (Some item)))"

definition menu_list_items :: "menu_validation \<Rightarrow> string \<Rightarrow> (entity_db, menu_item list) cmd" where
  "menu_list_items mv table_name =
     bindC (list_rows table_name) (\<lambda>rows. liftR (mapMR (item_from_row mv) rows))"

fun menu_seed :: "sql_engine \<Rightarrow> string \<Rightarrow> menu_item list \<Rightarrow> (entity_db, unit) cmd" where
  "menu_seed eng table_name [] = ret ()"
| "menu_seed eng table_name (item # items) =
     bindC (upsert_row eng table_name (row_from_item item)) (\<lambda>_. menu_seed eng table_name items)"

definition menu_delete_item :: "sql_engine \<Rightarrow> string \<Rightarrow> json \<Rightarrow> (entity_db, bool) cmd" where
  "menu_delete_item eng table_name name = delete_row eng table_name name"

subsection \<open>The Tool\<close>

definition check_menu_item ::
  "sql_engine \<Rightarrow> menu_validation \<Rightarrow> (real \<Rightarrow> string) \<Rightarrow> string \<Rightarrow> json dict \<Rightarrow> (entity_db, json) cmd" where
  "check_menu_item eng mv fr table_name arguments =
     bindC (liftR (dict_index arguments ''item_name'')) (\<lambda>item_name.
     bindC (menu_get_item eng mv table_name item_name) (\<lambda>item.
     ret (case item of
       None \<Rightarrow> JObj [(''found'', JBool False), (''item_name'', item_name),
                     (''reason'', JStr (''No such menu item: '' @ py_repr fr item_name))]
     | Some i \<Rightarrow> JObj [(''found'', JBool True), (''item_name'', JStr (mi_name i)),
                     (''category'', JStr (mi_category i)), (''price'', JFloat (mi_price i)),
                     (''stock_quantity'', JInt (mi_stock_quantity i))])))"

definition kampuscrave_call ::
  "sql_engine \<Rightarrow> menu_validation \<Rightarrow> (real \<Rightarrow> string) \<Rightarrow> string \<Rightarrow> string \<Rightarrow> json dict \<Rightarrow> (entity_db, json) cmd" where
  "kampuscrave_call eng mv fr table_name name arguments =
     (if name = ''check_menu_item'' then check_menu_item eng mv fr table_name arguments
      else raise (UnknownToolError name))"

subsection \<open>Which table is the menu\<close>

definition default_menu_table :: table_def where
  "default_menu_table =
     \<lparr>td_table_name = ''menu_items'', td_display_name = ''Menu Items'',
      td_columns = [\<lparr>cd_name = ''name'', cd_type = ColText, cd_required = True\<rparr>,
                    \<lparr>cd_name = ''category'', cd_type = ColText, cd_required = True\<rparr>,
                    \<lparr>cd_name = ''price'', cd_type = ColNumber, cd_required = True\<rparr>,
                    \<lparr>cd_name = ''stock_quantity'', cd_type = ColNumber, cd_required = True\<rparr>],
      td_id_type = IdUuid, td_tool_linked = Some ''sqlite_menu''\<rparr>"

definition resolve_or_create_menu_table :: "sql_engine \<Rightarrow> (entity_db, string) cmd" where
  "resolve_or_create_menu_table eng =
     bindC list_tables (\<lambda>tables.
     case List.find (\<lambda>t. td_tool_linked t = Some ''sqlite_menu'') tables of
       Some t \<Rightarrow> ret (td_table_name t)
     | None \<Rightarrow>
         bindC (create_table eng default_menu_table) (\<lambda>_.
         ret (td_table_name default_menu_table)))"

subsection \<open>The Tool as a provider\<close>

lemma make_menu_item_error: "make_menu_item mv n c p q = Inl e \<Longrightarrow> e = ValidationError"
  by (cases "mv_str mv n"; cases "mv_str mv c"; cases "mv_float mv p"; cases "mv_int mv q")
    (simp_all add: make_menu_item_def)

lemma raises_item_from_row [raises_intros]: "raises_only not_unknown (liftR (item_from_row mv row))"
  by (rule raises_basic)
    (auto simp: item_from_row_def bindR_Inl_iff dict_index_Inl_iff dest: make_menu_item_error)

lemma raises_check_menu_item: "raises_only not_unknown (check_menu_item eng mv fr t args)"
  unfolding check_menu_item_def menu_get_item_def
  by (intro raises_intros) (auto split: option.split intro!: raises_intros)

lemma keeps_check_menu_item: "keeps_catalogue eng tds (check_menu_item eng mv fr t args)"
  unfolding check_menu_item_def menu_get_item_def
  by (intro keeps_catalogue_intros) (auto split: option.split intro!: keeps_catalogue_intros)

definition menu_knows :: "entity_db \<Rightarrow> string \<Rightarrow> bool" where
  "menu_knows db name \<longleftrightarrow> name = ''check_menu_item''"

interpretation menu: tool_provider "kampuscrave_call eng mv fr t" menu_knows "crud_inv eng" for eng mv fr t
proof
  fix s name args e s'
  assume "menu_knows s name" and run: "kampuscrave_call eng mv fr t name args s = (Inl e, s')"
  then have "check_menu_item eng mv fr t args s = (Inl e, s')"
    by (simp add: menu_knows_def kampuscrave_call_def)
  with raises_check_menu_item show "not_unknown e" by (rule raises_onlyD)
next
  fix s name args r s'
  assume inv: "crud_inv eng s" and run: "kampuscrave_call eng mv fr t name args s = (r, s')"
  then obtain tds where num: "numbers_only eng" and tds: "repo_inv eng tds s" by (auto simp: crud_inv_def)
  from run have "s' = s \<or> check_menu_item eng mv fr t args s = (r, s')"
    by (auto simp: kampuscrave_call_def split: if_splits)
  then have "repo_inv eng tds s'"
    using keeps_catalogueD [OF keeps_check_menu_item tds] tds by blast
  with num show "crud_inv eng s'" by (auto simp: crud_inv_def)
qed (simp add: menu_knows_def kampuscrave_call_def)

subsection \<open>What is seeded is what the Tool answers\<close>

text \<open>The documented lax conversions that a stored menu item meets.\<close>

definition menu_validation_ok :: "menu_validation \<Rightarrow> bool" where
  "menu_validation_ok mv \<longleftrightarrow> (\<forall>s. mv_str mv (JStr s) = Some s) \<and> (\<forall>r. mv_float mv (JFloat r) = Some r)
     \<and> (\<forall>n. mv_int mv (JFloat (of_int n)) = Some n)"

definition found_item :: "menu_item \<Rightarrow> json" where
  "found_item i = JObj [(''found'', JBool True), (''item_name'', JStr (mi_name i)),
     (''category'', JStr (mi_category i)), (''price'', JFloat (mi_price i)),
     (''stock_quantity'', JInt (mi_stock_quantity i))]"

lemma required_column:
  assumes "has_required_columns td" and "td_tool_linked td = Some ''sqlite_menu''"
    and "(n, ty) \<in> {(''name'', ColText), (''category'', ColText), (''price'', ColNumber), (''stock_quantity'', ColNumber)}"
  shows "\<exists>c \<in> set (td_columns td). cd_name c = n \<and> cd_type c = ty"
  using assms by (auto simp: has_required_columns_def tool_linked_required_def list_ex_iff)

lemma read_back_text: "cd_type c = ColText \<Longrightarrow> read_back eng c (JStr s) = Inr (JStr s)"
  by (simp add: read_back_def to_sql_value_def cell_of_def)

lemma read_back_number: "cd_type c = ColNumber \<Longrightarrow> read_back eng c (JFloat r) = Inr (JFloat r)"
  by (simp add: read_back_def to_sql_value_def cell_of_def)

lemma read_back_count:
  "cd_type c = ColNumber \<Longrightarrow> read_back eng c (JInt n) = Inr j \<longleftrightarrow> int64 n \<and> j = JFloat (of_int n)"
  by (auto simp: read_back_def to_sql_value_def cell_of_def split: if_splits)

lemma seed_one:
  assumes inv: "repo_inv eng tds db" and num: "numbers_only eng" and mv: "menu_validation_ok mv"
    and td: "find_def t tds = Some td" "td_tool_linked td = Some ''sqlite_menu''" "td_id_type td = IdUuid"
    and name: "mi_name item \<noteq> []"
    and run: "upsert_row eng t (row_from_item item) db = (Inr stored, db')"
  shows "item_from_row mv stored = Inr item" and "repo_inv eng tds db'"
    and "row_at tds db' t (SText nm) = (if nm = mi_name item then Some stored else row_at tds db t (SText nm))"
proof -
  have up: "upserted eng tds t (row_from_item item) db stored db'"
    using upsert_row_cases [OF inv num run] by auto
  have all: "item_from_row mv stored = Inr item \<and> repo_inv eng tds db'
    \<and> row_at tds db' t (SText nm) = (if nm = mi_name item then Some stored else row_at tds db t (SText nm))"
  proof (rule upsertedE [OF inv up])
    fix td' k
    assume td': "find_def t tds = Some td'"
      and cells: "list_all (\<lambda>c. dget stored (cd_name c) \<noteq> None
         \<and> read_back eng c (dget_default (row_from_item item) (cd_name c) JNull) = Inr (the (dget stored (cd_name c)))) (td_columns td')"
      and key: "key_for eng tds db t td' (dget_default (row_from_item item) ''id'' JNull) k"
      and inv': "repo_inv eng tds db'"
      and map: "\<And>other k'. row_at tds db' other k' = (if other = t \<and> k' = k then Some stored else row_at tds db other k')"
    have eq: "td' = td" using td' td(1) by simp
    have "has_required_columns td"
      by (rule found_tableE [OF inv td(1)]) (simp add: def_wf_def)
    note req = required_column [OF this td(2)]
    have cell: "\<exists>j. dget stored n = Some j \<and> (\<exists>c. cd_type c = ty \<and> read_back eng c (dget_default (row_from_item item) n JNull) = Inr j)"
      if "(n, ty) \<in> {(''name'', ColText), (''category'', ColText), (''price'', ColNumber), (''stock_quantity'', ColNumber)}" for n ty
      using req [OF that] cells by (fastforce simp: list_all_iff eq)
    have "dget stored ''name'' = Some (JStr (mi_name item))" "dget stored ''category'' = Some (JStr (mi_category item))"
      "dget stored ''price'' = Some (JFloat (mi_price item))"
      "dget stored ''stock_quantity'' = Some (JFloat (of_int (mi_stock_quantity item)))"
      using cell [of "''name''" ColText] cell [of "''category''" ColText] cell [of "''price''" ColNumber]
        cell [of "''stock_quantity''" ColNumber]
      by (auto simp: row_from_item_def dget_default_def read_back_text read_back_number read_back_count)
    then have "item_from_row mv stored = Inr item"
      using mv by (simp add: item_from_row_def dict_index_def make_menu_item_def menu_validation_ok_def)
    moreover have "k = SText (mi_name item)"
      using key name by (auto simp: key_for_def row_from_item_def dget_default_def key_of_def eq td(3))
    ultimately show ?thesis using inv' map by simp
  qed
  from all show "item_from_row mv stored = Inr item" and "repo_inv eng tds db'"
    and "row_at tds db' t (SText nm) = (if nm = mi_name item then Some stored else row_at tds db t (SText nm))"
    by auto
qed

lemma seed_all:
  assumes "repo_inv eng tds db" and "numbers_only eng" and "menu_validation_ok mv"
    and "find_def t tds = Some td" "td_tool_linked td = Some ''sqlite_menu''" "td_id_type td = IdUuid"
    and "distinct (map mi_name items)" and "[] \<notin> mi_name ` set items"
    and "menu_seed eng t items db = (Inr (), db')"
  shows "repo_inv eng tds db'
    \<and> (\<forall>item \<in> set items. \<exists>row. row_at tds db' t (SText (mi_name item)) = Some row \<and> item_from_row mv row = Inr item)
    \<and> (\<forall>nm. nm \<notin> mi_name ` set items \<longrightarrow> row_at tds db' t (SText nm) = row_at tds db t (SText nm))"
  using assms(1,7-)
proof (induction items arbitrary: db)
  case Nil
  then show ?case by simp
next
  case (Cons item items)
  from Cons.prems(4) obtain stored db1 where up: "upsert_row eng t (row_from_item item) db = (Inr stored, db1)"
    and rest: "menu_seed eng t items db1 = (Inr (), db')"
    by (auto elim: bindC_InrE)
  have name: "mi_name item \<noteq> []" using Cons.prems(3) by auto
  note one = seed_one [OF Cons.prems(1) assms(2-6) name up]
  have ih: "repo_inv eng tds db'"
    "\<And>i. i \<in> set items \<Longrightarrow> \<exists>row. row_at tds db' t (SText (mi_name i)) = Some row \<and> item_from_row mv row = Inr i"
    "\<And>nm. nm \<notin> mi_name ` set items \<Longrightarrow> row_at tds db' t (SText nm) = row_at tds db1 t (SText nm)"
    using Cons.IH [OF one(2) _ _ rest] Cons.prems(2,3) by auto
  have "mi_name item \<notin> mi_name ` set items" using Cons.prems(2) by simp
  then have "row_at tds db' t (SText (mi_name item)) = Some stored" using ih(3) one(3) by simp
  with ih one show ?case by auto
qed

text \<open>
  C40: a seeded menu is what the Tool answers. When a list of items with different, non-empty names
  has been seeded into a linked table with generated text ids, the Tool finds each of them by its
  name and answers its category, price and stock, and answers "not found" for a name under which
  no row was stored before and none was seeded; the Tool changes nothing.
\<close>

theorem seeded_menu_is_answered:
  assumes "repo_inv eng tds db" and "numbers_only eng" and "menu_validation_ok mv"
    and "find_def t tds = Some td" and "td_tool_linked td = Some ''sqlite_menu''" and "td_id_type td = IdUuid"
    and "distinct (map mi_name items)" and "[] \<notin> mi_name ` set items"
    and "menu_seed eng t items db = (Inr (), db')"
  shows "(\<forall>i \<in> set items. kampuscrave_call eng mv fr t ''check_menu_item'' [(''item_name'', JStr (mi_name i))] db'
           = (Inr (found_item i), db'))
    \<and> (row_at tds db t (SText nm) = None \<and> nm \<notin> mi_name ` set items \<longrightarrow>
         (\<exists>reason. kampuscrave_call eng mv fr t ''check_menu_item'' [(''item_name'', JStr nm)] db' =
           (Inr (JObj [(''found'', JBool False), (''item_name'', JStr nm), (''reason'', JStr reason)]), db')))"
proof -
  note all = seed_all [OF assms]
  have get: "get_row eng t (JStr n) db' = (Inr (row_at tds db' t (SText n)), db')" for n
    using get_row_run [OF _ assms(4), of eng db' "JStr n"] all assms(6) by (simp add: key_of_def)
  have call: "kampuscrave_call eng mv fr t ''check_menu_item'' [(''item_name'', JStr n)] =
      check_menu_item eng mv fr t [(''item_name'', JStr n)]" for n
    by (simp add: kampuscrave_call_def)
  show ?thesis
    unfolding call
    using all get by (force simp: check_menu_item_def menu_get_item_def bindC_def dict_index_def found_item_def)
qed

subsection \<open>Witnesses\<close>

definition demo_validation :: menu_validation where
  "demo_validation =
     \<lparr>mv_str = (\<lambda>v. case v of JStr s \<Rightarrow> Some s | _ \<Rightarrow> None),
      mv_float = (\<lambda>v. case v of JFloat r \<Rightarrow> Some r | JInt n \<Rightarrow> Some (of_int n) | _ \<Rightarrow> None),
      mv_int = (\<lambda>v. case v of JInt n \<Rightarrow> Some n
                  | JFloat r \<Rightarrow> if of_int \<lfloor>r\<rfloor> = r then Some \<lfloor>r\<rfloor> else None | _ \<Rightarrow> None)\<rparr>"

lemma demo_validation_ok: "menu_validation_ok demo_validation"
  by (simp add: menu_validation_ok_def demo_validation_def)

definition demo_menu_file :: entity_db where
  "demo_menu_file = snd (create_table demo_eng default_menu_table demo_file)"

lemma demo_menu_file_inv: "repo_inv demo_eng [default_menu_table] demo_menu_file"
proof -
  have a: "fst (create_table demo_eng default_menu_table demo_file) = Inr ()" by code_simp
  have "repo_inv demo_eng ([] @ [default_menu_table]) (snd (create_table demo_eng default_menu_table demo_file))"
    using create_table_cases [OF prod.collapse [symmetric], of demo_eng default_menu_table demo_file]
      repo_inv_created [OF repo_inv_open, of default_menu_table] a
    by (auto simp: demo_file_def)
  then show ?thesis by (simp add: demo_menu_file_def)
qed

definition demo_item :: menu_item where
  "demo_item = \<lparr>mi_name = ''Fries'', mi_category = ''sides'', mi_price = 5 / 2, mi_stock_quantity = 40\<rparr>"

lemma seeded_menu_is_answered_witness:
  "fst (kampuscrave_call demo_eng demo_validation (\<lambda>_. ''2.5'') ''menu_items'' ''check_menu_item''
     [(''item_name'', JStr ''Fries'')] (snd (menu_seed demo_eng ''menu_items'' [demo_item] demo_menu_file)))
   = Inr (found_item demo_item)"
proof -
  let ?seed = "menu_seed demo_eng ''menu_items'' [demo_item] demo_menu_file"
  have "fst ?seed = Inr ()" by code_simp
  then have run: "?seed = (Inr (), snd ?seed)" by (metis prod.collapse)
  have td: "find_def ''menu_items'' [default_menu_table] = Some default_menu_table"
    and link: "td_tool_linked default_menu_table = Some ''sqlite_menu''" and id: "td_id_type default_menu_table = IdUuid"
    by (simp_all add: find_def_def default_menu_table_def)
  have name: "mi_name demo_item = ''Fries''" by (simp add: demo_item_def)
  show ?thesis
    using seeded_menu_is_answered [OF demo_menu_file_inv demo_numbers demo_validation_ok td link id _ _ run]
    by (simp add: name)
qed

end
