(* ===== verification/Customers.thy ===== *)
theory Customers
  imports Prelude
begin

text \<open>
  The customer store (\<open>customers/sqlite_store.py\<close>): one row per customer, with the first and the
  last visit. \<open>cs_now n\<close> is what the \<open>n\<close>-th reading of the clock returns.
\<close>

record customer_row =
  cu_id :: string
  cu_first_seen :: time
  cu_last_seen :: time

record customer_store =
  cs_rows :: "customer_row list"
  cs_now :: "nat \<Rightarrow> time"
  cs_now_count :: nat

definition customers_init :: "(nat \<Rightarrow> time) \<Rightarrow> customer_store" where
  "customers_init now = \<lparr>cs_rows = [], cs_now = now, cs_now_count = 0\<rparr>"

definition customer_now :: "(customer_store, time) cmd" where
  "customer_now = (\<lambda>s. (Inr (cs_now s (cs_now_count s)), s\<lparr>cs_now_count := cs_now_count s + 1\<rparr>))"

definition record_visit :: "string \<Rightarrow> (customer_store, unit) cmd" where
  "record_visit customer_id =
     bindC customer_now (\<lambda>now.
     modify (\<lambda>s. s\<lparr>cs_rows :=
       (if list_ex (\<lambda>r. cu_id r = customer_id) (cs_rows s)
        then map (\<lambda>r. if cu_id r = customer_id then r\<lparr>cu_last_seen := now\<rparr> else r) (cs_rows s)
        else cs_rows s @ [\<lparr>cu_id = customer_id, cu_first_seen = now, cu_last_seen = now\<rparr>])\<rparr>))"

subsection \<open>The rows after a run of visits\<close>

definition visit_times :: "(nat \<Rightarrow> time) \<Rightarrow> string list \<Rightarrow> string \<Rightarrow> time list" where
  "visit_times now ids c = map now (filter (\<lambda>n. ids ! n = c) [0..<length ids])"

definition visits :: "string list \<Rightarrow> customer_store \<Rightarrow> customer_store" where
  "visits ids s = fold (\<lambda>c s. snd (record_visit c s)) ids s"

lemma visit_times_snoc:
  "visit_times now (ids @ [c]) d = visit_times now ids d @ (if c = d then [now (length ids)] else [])"
proof -
  have "filter (\<lambda>n. (ids @ [c]) ! n = d) [0..<length ids] = filter (\<lambda>n. ids ! n = d) [0..<length ids]"
    by (rule filter_cong) (auto simp: nth_append)
  then show ?thesis by (simp add: visit_times_def)
qed

lemma visits_snoc: "visits (ids @ [c]) s = snd (record_visit c (visits ids s))"
  by (simp add: visits_def)

definition row_for :: "string \<Rightarrow> customer_store \<Rightarrow> customer_row option" where
  "row_for c s = List.find (\<lambda>r. cu_id r = c) (cs_rows s)"

lemma row_for_record:
  "row_for d (snd (record_visit c s)) =
     (if c = d then Some (case row_for c s of
          None \<Rightarrow> \<lparr>cu_id = c, cu_first_seen = cs_now s (cs_now_count s), cu_last_seen = cs_now s (cs_now_count s)\<rparr>
        | Some r \<Rightarrow> r\<lparr>cu_last_seen := cs_now s (cs_now_count s)\<rparr>)
      else row_for d s)"
proof -
  let ?now = "cs_now s (cs_now_count s)"
  have "List.find (\<lambda>r. cu_id r = d) (map (\<lambda>r. if cu_id r = c then r\<lparr>cu_last_seen := ?now\<rparr> else r) rs) =
      (if c = d then map_option (\<lambda>r. r\<lparr>cu_last_seen := ?now\<rparr>) (List.find (\<lambda>r. cu_id r = d) rs)
       else List.find (\<lambda>r. cu_id r = d) rs)" for rs :: "customer_row list"
    by (induction rs) auto
  moreover have "list_ex (\<lambda>r. cu_id r = c) rs \<longleftrightarrow> List.find (\<lambda>r. cu_id r = c) rs \<noteq> None" for rs :: "customer_row list"
    by (induction rs) auto
  ultimately show ?thesis
    by (auto simp: row_for_def record_visit_def bindC_def customer_now_def find_append split: option.splits)
qed

text \<open>A customer has one row exactly when it has visited: its first and its last visit.\<close>

lemma visits_rows:
  "cs_now_count (visits ids (customers_init now)) = length ids \<and> cs_now (visits ids (customers_init now)) = now
   \<and> distinct (map cu_id (cs_rows (visits ids (customers_init now))))
   \<and> row_for c (visits ids (customers_init now)) = (case visit_times now ids c of
        [] \<Rightarrow> None
      | t # ts \<Rightarrow> Some \<lparr>cu_id = c, cu_first_seen = t, cu_last_seen = last (t # ts)\<rparr>)"
proof (induction ids arbitrary: c rule: rev_induct)
  case Nil
  then show ?case by (simp add: visits_def customers_init_def visit_times_def row_for_def)
next
  case (snoc d ids)
  let ?s = "visits ids (customers_init now)"
  have clock: "cs_now_count ?s = length ids" "cs_now ?s = now" and dist: "distinct (map cu_id (cs_rows ?s))"
    using snoc.IH [of c] by simp_all
  have "map cu_id (map (\<lambda>r. if cu_id r = d then r\<lparr>cu_last_seen := t\<rparr> else r) rs) = map cu_id rs" for t and rs :: "customer_row list"
    by (induction rs) auto
  then have "distinct (map cu_id (cs_rows (visits (ids @ [d]) (customers_init now))))"
    using dist by (auto simp: visits_snoc record_visit_def bindC_def customer_now_def list_ex_iff simp del: map_map)
  moreover have "row_for c (visits (ids @ [d]) (customers_init now)) = (case visit_times now (ids @ [d]) c of
        [] \<Rightarrow> None | t # ts \<Rightarrow> Some \<lparr>cu_id = c, cu_first_seen = t, cu_last_seen = last (t # ts)\<rparr>)"
    unfolding visits_snoc row_for_record clock visit_times_snoc
    using snoc.IH [of c] by (auto split: list.splits)
  ultimately show ?case
    using clock by (simp add: visits_snoc record_visit_def bindC_def customer_now_def)
qed

end
