(* ===== verification/Context_Files.thy ===== *)
theory Context_Files
  imports Config_Store Tool_Rail
begin

text \<open>
  Context documents from files (\<open>context/file_provider.py\<close>). Of \<open>Path.glob\<close> the model has
  patterns for names in the directory itself, with \<open>*\<close> and \<open>?\<close>, which is what the
  configurations use; a pattern with a slash, a bracket or \<open>**\<close> is not covered.
\<close>

fun fnmatch :: "string \<Rightarrow> string \<Rightarrow> bool" where
  "fnmatch [] s = (s = [])"
| "fnmatch (p # ps) [] = (p = CHR ''*'' \<and> fnmatch ps [])"
| "fnmatch (p # ps) (c # cs) =
     (if p = CHR ''*'' then fnmatch ps (c # cs) \<or> fnmatch (p # ps) cs
      else (p = CHR ''?'' \<or> p = c) \<and> fnmatch ps cs)"

definition child_name :: "string \<Rightarrow> string \<Rightarrow> string option" where
  "child_name directory path =
     (let prefix = directory @ ''/'' in
      if py_startswith path prefix \<and> CHR ''/'' \<notin> set (drop (length prefix) path) \<and> drop (length prefix) path \<noteq> []
      then Some (drop (length prefix) path) else None)"

text \<open>\<open>sorted(directory.glob(pattern))\<close>: files and directories, by name.\<close>

definition sorted_glob :: "string \<Rightarrow> string \<Rightarrow> disk \<Rightarrow> string list" where
  "sorted_glob directory pattern dk =
     sort (filter (\<lambda>path. case child_name directory path of None \<Rightarrow> False | Some n \<Rightarrow> fnmatch pattern n)
       (remdups (dkeys (dk_files dk) @ dk_dirs dk)))"

definition read_file :: "string \<Rightarrow> disk \<Rightarrow> string" where
  "read_file path dk = (case dget (dk_files dk) path of None \<Rightarrow> [] | Some text \<Rightarrow> text)"

definition document :: "string \<Rightarrow> disk \<Rightarrow> string \<Rightarrow> context_doc" where
  "document directory dk path =
     \<lparr>dc_name = (case child_name directory path of None \<Rightarrow> path | Some n \<Rightarrow> n), dc_content = read_file path dk\<rparr>"

definition load_path :: "string \<Rightarrow> disk \<Rightarrow> string \<Rightarrow> string list \<times> context_doc list \<Rightarrow> string list \<times> context_doc list" where
  "load_path directory dk path acc =
     (if \<not> is_file path dk \<or> path \<in> set (fst acc) then acc
      else (path # fst acc, snd acc @ [document directory dk path]))"

definition load_pattern :: "string \<Rightarrow> disk \<Rightarrow> string \<Rightarrow> string list \<times> context_doc list \<Rightarrow> string list \<times> context_doc list" where
  "load_pattern directory dk pattern acc = fold (load_path directory dk) (sorted_glob directory pattern dk) acc"

definition load_context :: "string \<Rightarrow> string list \<Rightarrow> (disk, context_doc list) cmd" where
  "load_context directory include_patterns = (\<lambda>dk.
     (if directory \<notin> set (dk_dirs dk) then Inl ContextDirectoryNotFoundError
      else Inr (snd (fold (load_pattern directory dk) include_patterns ([], []))), dk))"

subsection \<open>What is loaded\<close>

text \<open>The paths read so far and their documents, both without repetition.\<close>

definition loaded_rel :: "string \<Rightarrow> disk \<Rightarrow> string list \<times> context_doc list \<Rightarrow> bool" where
  "loaded_rel directory dk acc \<longleftrightarrow> distinct (fst acc) \<and> snd acc = map (document directory dk) (rev (fst acc))"

lemma load_path_rel: "loaded_rel directory dk acc \<Longrightarrow> loaded_rel directory dk (load_path directory dk path acc)"
  by (simp add: loaded_rel_def load_path_def)

lemma load_paths_rel: "loaded_rel directory dk acc \<Longrightarrow> loaded_rel directory dk (fold (load_path directory dk) paths acc)"
  by (induction paths arbitrary: acc) (simp_all add: load_path_rel)

lemma load_paths_seen:
  "set (fst (fold (load_path directory dk) paths acc)) = set (fst acc) \<union> {p \<in> set paths. is_file p dk}"
  by (induction paths arbitrary: acc) (auto simp: load_path_def)

lemma load_patterns_rel:
  "loaded_rel directory dk acc \<Longrightarrow> loaded_rel directory dk (fold (load_pattern directory dk) patterns acc)"
  by (induction patterns arbitrary: acc) (simp_all add: load_pattern_def load_paths_rel)

lemma load_patterns_seen:
  "set (fst (fold (load_pattern directory dk) patterns acc)) =
     set (fst acc) \<union> {p. is_file p dk \<and> (\<exists>pat \<in> set patterns. p \<in> set (sorted_glob directory pat dk))}"
  by (induction patterns arbitrary: acc) (auto simp: load_pattern_def load_paths_seen)

text \<open>Every matching file of the directory is loaded, once, under its name and with its text.\<close>

lemma context_documents:
  assumes "load_context directory patterns dk = (Inr docs, dk')"
  obtains paths where "distinct paths" and "dk' = dk"
    and "set paths = {p. is_file p dk \<and> (\<exists>pat \<in> set patterns. p \<in> set (sorted_glob directory pat dk))}"
    and "docs = map (document directory dk) paths"
proof -
  let ?acc = "fold (load_pattern directory dk) patterns ([], [])"
  have rel: "loaded_rel directory dk ?acc" by (rule load_patterns_rel) (simp add: loaded_rel_def)
  from assms have docs: "docs = snd ?acc" "dk' = dk" by (auto simp: load_context_def split: if_splits)
  show thesis
  proof (rule that [of "rev (fst ?acc)"])
    show "set (rev (fst ?acc)) = {p. is_file p dk \<and> (\<exists>pat \<in> set patterns. p \<in> set (sorted_glob directory pat dk))}"
      unfolding set_rev load_patterns_seen by simp
  qed (use rel docs in \<open>simp_all add: loaded_rel_def\<close>)
qed

end
