(* ===== verification/Base64.thy ===== *)
theory Base64
  imports Prelude
begin

text \<open>
  \<open>base64.b64encode\<close> and \<open>base64.b64decode\<close> of Python's standard library, on byte strings. A text
  that no encoding produces raises; Python also accepts some of those, which the program never has.
\<close>

definition b64_alphabet :: string where
  "b64_alphabet = ''ABCDEFGHIJKLMNOPQRSTUVWXYZabcdefghijklmnopqrstuvwxyz0123456789+/''"

definition b64_char :: "nat \<Rightarrow> char" where
  "b64_char n = b64_alphabet ! n"

definition b64_value :: "char \<Rightarrow> nat option" where
  "b64_value c = List.find (\<lambda>n. b64_char n = c) [0..<64]"

definition byte :: "char \<Rightarrow> nat" where
  "byte c = of_char c"

fun b64encode :: "string \<Rightarrow> string" where
  "b64encode [] = []"
| "b64encode [a] = [b64_char (byte a div 4), b64_char (byte a mod 4 * 16), CHR ''='', CHR ''='']"
| "b64encode [a, b] = [b64_char (byte a div 4), b64_char (byte a mod 4 * 16 + byte b div 16),
     b64_char (byte b mod 16 * 4), CHR ''='']"
| "b64encode (a # b # c # rest) = [b64_char (byte a div 4), b64_char (byte a mod 4 * 16 + byte b div 16),
     b64_char (byte b mod 16 * 4 + byte c div 64), b64_char (byte c mod 64)] @ b64encode rest"

definition b64_join :: "nat \<Rightarrow> nat \<Rightarrow> nat \<Rightarrow> nat \<Rightarrow> string" where
  "b64_join p q r s = [char_of (p * 4 + q div 16), char_of (q mod 16 * 16 + r div 4), char_of (r mod 4 * 64 + s)]"

fun b64decode :: "string \<Rightarrow> string result" where
  "b64decode [] = Inr []"
| "b64decode (x # y # z # u # rest) =
     (case (b64_value x, b64_value y, b64_value z, b64_value u) of
        (Some p, Some q, Some r, Some s) \<Rightarrow> mapR (\<lambda>bs. b64_join p q r s @ bs) (b64decode rest)
      | (Some p, Some q, Some r, None) \<Rightarrow>
          if u = CHR ''='' \<and> rest = [] then Inr (take 2 (b64_join p q r 0)) else Inl ValueError
      | (Some p, Some q, None, None) \<Rightarrow>
          if z = CHR ''='' \<and> u = CHR ''='' \<and> rest = [] then Inr (take 1 (b64_join p q 0 0)) else Inl ValueError
      | _ \<Rightarrow> Inl ValueError)"
| "b64decode _ = Inl ValueError"

lemma b64_value_char: "n < 64 \<Longrightarrow> b64_value (b64_char n) = Some n"
proof -
  have "list_all (\<lambda>n. b64_value (b64_char n) = Some n) [0..<64]" by code_simp
  then show "n < 64 \<Longrightarrow> b64_value (b64_char n) = Some n" by (simp add: list_all_iff)
qed

lemma b64_value_pad: "b64_value CHR ''='' = None"
  by code_simp

lemma byte_less: "byte c < 256"
  unfolding byte_def by (rule nat_of_char_less_256)

lemma byte_zero: "byte CHR 0x00 = 0"
  by code_simp

lemma char_of_byte [simp]: "char_of (byte c) = c"
  by (simp add: byte_def)

lemma b64_join_bytes:
  "b64_join (byte a div 4) (byte a mod 4 * 16 + byte b div 16) (byte b mod 16 * 4 + byte c div 64) (byte c mod 64) = [a, b, c]"
proof -
  have "byte b div 16 < 16" "byte c div 64 < 4" using byte_less [of b] byte_less [of c] by auto
  then have "byte a div 4 * 4 + (byte a mod 4 * 16 + byte b div 16) div 16 = byte a"
    and "(byte a mod 4 * 16 + byte b div 16) mod 16 * 16 + (byte b mod 16 * 4 + byte c div 64) div 4 = byte b"
    and "(byte b mod 16 * 4 + byte c div 64) mod 4 * 64 + byte c mod 64 = byte c"
    by simp_all
  then show ?thesis by (simp add: b64_join_def)
qed

lemma b64_digits:
  "byte a div 4 < 64" "byte a mod 4 * 16 < 64" "byte a mod 4 * 16 + byte b div 16 < 64"
  "byte b mod 16 * 4 < 64" "byte b mod 16 * 4 + byte c div 64 < 64" "byte c mod 64 < 64"
proof -
  have "byte b div 16 < 16" "byte c div 64 < 4" "byte a mod 4 < 4" "byte b mod 16 < 16" "byte a < 256"
    using byte_less [of a] byte_less [of b] byte_less [of c] by auto
  then show "byte a div 4 < 64" "byte a mod 4 * 16 < 64" "byte a mod 4 * 16 + byte b div 16 < 64"
    "byte b mod 16 * 4 < 64" "byte b mod 16 * 4 + byte c div 64 < 64" "byte c mod 64 < 64"
    by linarith+
qed

lemma b64_round_trip: "b64decode (b64encode s) = Inr s"
proof (induction s rule: b64encode.induct)
  case (2 a)
  show ?case
    using b64_join_bytes [of a "CHR 0x00" "CHR 0x00"]
    by (simp add: b64_value_char b64_digits b64_value_pad byte_zero b64_join_def)
next
  case (3 a b)
  show ?case
    using b64_join_bytes [of a b "CHR 0x00"]
    by (simp add: b64_value_char b64_digits b64_value_pad byte_zero b64_join_def)
next
  case (4 a b c rest)
  then show ?case by (simp add: b64_value_char b64_digits b64_join_bytes)
qed simp

end
