(* ===== verification/Llm_Providers.thy ===== *)
theory Llm_Providers
  imports Agent_Core Base64
begin

text \<open>
  The two LLM providers (\<open>llm/anthropic_provider.py\<close>, \<open>llm/google_provider.py\<close>): how a request
  of the Agent Core is put into the vendor's form and how the answer is read back. The vendors'
  clients are parameters, commands on an external world; what they take and give is modelled as
  far as the program builds it or reads it.
\<close>

subsection \<open>Anthropic\<close>

datatype anthropic_block =
    AnText string
  | AnToolUse string string "json dict"
  | AnOther string

definition an_tool :: "tool_spec \<Rightarrow> json" where
  "an_tool t = JObj [(''name'', JStr (ts_name t)), (''description'', JStr (ts_description t)),
     (''input_schema'', JObj (ts_input_schema t))]"

definition an_kwargs :: "string option \<Rightarrow> tool_spec list option \<Rightarrow> json dict" where
  "an_kwargs effort tools =
     (case nonempty effort of None \<Rightarrow> [] | Some e \<Rightarrow> [(''output_config'', JObj [(''effort'', JStr e)])])
     @ (case tools of Some (t # ts) \<Rightarrow> [(''tools'', JArr (map an_tool (t # ts)))] | _ \<Rightarrow> [])"

definition an_tool_use :: "json \<Rightarrow> json result" where
  "an_tool_use call =
     bindR (index_key call ''id'') (\<lambda>i.
     bindR (index_key call ''name'') (\<lambda>n.
     bindR (index_key call ''arguments'') (\<lambda>a.
     Inr (JObj [(''type'', JStr ''tool_use''), (''id'', i), (''name'', n), (''input'', a)]))))"

text \<open>Iterating over a value that is neither a list nor empty gives strings, or raises.\<close>

fun calls_of :: "json \<Rightarrow> json list result" where
  "calls_of (JArr calls) = Inr calls"
| "calls_of _ = Inl TypeError"

definition an_to_native_message :: "json dict \<Rightarrow> json dict result" where
  "an_to_native_message message =
     bindR (dict_index message ''role'') (\<lambda>role.
     if role = JStr ''tool'' then
       bindR (dict_index message ''tool_call_id'') (\<lambda>i.
       bindR (dict_index message ''content'') (\<lambda>c.
       Inr [(''role'', JStr ''user''),
            (''content'', JArr [JObj [(''type'', JStr ''tool_result''), (''tool_use_id'', i), (''content'', c)]])]))
     else if role = JStr ''assistant'' \<and> truthy (dget_default message ''tool_calls'' JNull) then
       let text = dget_default message ''content'' JNull;
           blocks = (if truthy text then [JObj [(''type'', JStr ''text''), (''text'', text)]] else [])
       in bindR (calls_of (dget_default message ''tool_calls'' JNull)) (\<lambda>calls.
          bindR (mapMR an_tool_use calls) (\<lambda>uses.
          Inr [(''role'', JStr ''assistant''), (''content'', JArr (blocks @ uses))]))
     else
       bindR (dict_index message ''content'') (\<lambda>c. Inr [(''role'', role), (''content'', c)]))"

fun an_text :: "anthropic_block list \<Rightarrow> string" where
  "an_text [] = []"
| "an_text (AnText t # bs) = t"
| "an_text (_ # bs) = an_text bs"

definition an_tool_calls :: "anthropic_block list \<Rightarrow> tool_call list" where
  "an_tool_calls bs = concat (map (\<lambda>b. case b of
      AnToolUse i n a \<Rightarrow> [\<lparr>tc_id = i, tc_name = n, tc_arguments = a, tc_provider_data = None\<rparr>] | _ \<Rightarrow> []) bs)"

definition an_generate ::
  "string \<Rightarrow> string option \<Rightarrow> (json dict \<Rightarrow> ('x, anthropic_block list) cmd) \<Rightarrow> gen_request \<Rightarrow> ('x, llm_response) cmd" where
  "an_generate model effort messages_create req =
     bindC (liftR (mapMR an_to_native_message (gr_messages req))) (\<lambda>messages.
     bindC (messages_create ([(''model'', JStr model), (''max_tokens'', JInt (gr_max_tokens req)),
               (''system'', JStr (gr_system req)), (''messages'', JArr (map JObj messages))]
               @ an_kwargs effort (gr_tools req))) (\<lambda>content.
     ret \<lparr>lr_text = an_text content, lr_tool_calls = an_tool_calls content\<rparr>))"

subsection \<open>Google\<close>

text \<open>What the client returns: parts with every field optional.\<close>

record g_function_call =
  gf_id :: "string option"
  gf_name :: "string option"
  gf_args :: "json dict option"

record g_part =
  gp_text :: "string option"
  gp_function_call :: "g_function_call option"
  gp_thought_signature :: "string option"

type_synonym g_candidate = "g_part list option option"

text \<open>What the program builds.\<close>

datatype g_out_part =
    OutText "string option"
  | OutCall "string option" "string option" "json dict option" "string option"
  | OutResponse "string option" "string option" "json dict"

record g_content =
  go_role :: string
  go_parts :: "g_out_part list"

record g_request =
  gq_model :: string
  gq_contents :: "g_content list"
  gq_system_instruction :: string
  gq_max_output_tokens :: int
  gq_tools :: "tool_spec list option"

record 'x g_state =
  gs_connected :: bool
  gs_uuid :: "nat \<Rightarrow> string"
  gs_uuid_count :: nat
  gs_world :: 'x

definition role_map :: "string dict" where
  "role_map = [(''user'', ''user''), (''assistant'', ''model'')]"

definition thought_signature_key :: string where
  "thought_signature_key = ''google_thought_signature_b64''"

definition pack_thought_signature :: "string option \<Rightarrow> json dict option" where
  "pack_thought_signature raw =
     (case raw of None \<Rightarrow> None | Some bytes \<Rightarrow> Some [(thought_signature_key, JStr (b64encode bytes))])"

text \<open>\<open>key in provider_data\<close> and \<open>provider_data[key]\<close> on an arbitrary value.\<close>

definition unpack_thought_signature :: "json \<Rightarrow> string option result" where
  "unpack_thought_signature provider_data =
     (if \<not> truthy provider_data then Inr None
      else case provider_data of
        JObj d \<Rightarrow> (case dget d thought_signature_key of
            None \<Rightarrow> Inr None
          | Some (JStr s) \<Rightarrow> mapR Some (b64decode s)
          | Some _ \<Rightarrow> Inl TypeError)
      | JArr xs \<Rightarrow> if JStr thought_signature_key \<in> set xs then Inl TypeError else Inr None
      | JStr s \<Rightarrow> if \<exists>n \<in> set [0..<length s]. py_startswith (drop n s) thought_signature_key
                  then Inl TypeError else Inr None
      | _ \<Rightarrow> Inl TypeError)"

text \<open>Optional fields of the vendor's types, checked by pydantic.\<close>

fun as_opt_str :: "json \<Rightarrow> string option result" where
  "as_opt_str JNull = Inr None"
| "as_opt_str (JStr s) = Inr (Some s)"
| "as_opt_str _ = Inl ValidationError"

fun as_opt_dict :: "json \<Rightarrow> json dict option result" where
  "as_opt_dict JNull = Inr None"
| "as_opt_dict (JObj d) = Inr (Some d)"
| "as_opt_dict _ = Inl ValidationError"

fun hashable :: "json \<Rightarrow> bool" where
  "hashable (JArr _) = False"
| "hashable (JObj _) = False"
| "hashable _ = True"

definition g_index_call :: "json \<Rightarrow> (json \<times> json) list \<Rightarrow> (json \<times> json) list result" where
  "g_index_call call call_names =
     bindR (index_key call ''name'') (\<lambda>n.
     bindR (index_key call ''id'') (\<lambda>i.
     if hashable i then Inr (AList.update i n call_names) else Inl TypeError))"

fun g_index_calls :: "json list \<Rightarrow> (json \<times> json) list \<Rightarrow> (json \<times> json) list result" where
  "g_index_calls [] call_names = Inr call_names"
| "g_index_calls (c # cs) call_names = bindR (g_index_call c call_names) (g_index_calls cs)"

fun g_call_names :: "json dict list \<Rightarrow> (json \<times> json) list \<Rightarrow> (json \<times> json) list result" where
  "g_call_names [] call_names = Inr call_names"
| "g_call_names (message # messages) call_names =
     bindR (if dget message ''role'' = Some (JStr ''assistant'')
            then let calls = dget_default message ''tool_calls'' JNull
                 in if truthy calls then bindR (calls_of calls) (\<lambda>cs. g_index_calls cs call_names)
                    else Inr call_names
            else Inr call_names) (g_call_names messages)"

definition g_call_part :: "json \<Rightarrow> g_out_part result" where
  "g_call_part call =
     bindR (index_key call ''id'') (\<lambda>i.
     bindR (index_key call ''name'') (\<lambda>n.
     bindR (index_key call ''arguments'') (\<lambda>a.
     bindR (as_opt_str i) (\<lambda>i.
     bindR (as_opt_str n) (\<lambda>n.
     bindR (as_opt_dict a) (\<lambda>a.
     bindR (get_default call ''provider_data'' JNull) (\<lambda>d.
     bindR (unpack_thought_signature d) (\<lambda>sig.
     Inr (OutCall i n a sig)))))))))"

definition g_to_native_content :: "json dict \<Rightarrow> (json \<times> json) list \<Rightarrow> g_content result" where
  "g_to_native_content message call_names =
     bindR (dict_index message ''role'') (\<lambda>role.
     if role = JStr ''tool'' then
       bindR (dict_index message ''tool_call_id'') (\<lambda>call_id.
       if \<not> hashable call_id then Inl TypeError
       else
       bindR (dict_index message ''content'') (\<lambda>c.
       bindR (as_opt_str call_id) (\<lambda>i.
       bindR (as_opt_str (dget_default call_names call_id (JStr []))) (\<lambda>n.
       Inr \<lparr>go_role = ''user'', go_parts = [OutResponse i n [(''output'', c)]]\<rparr>))))
     else if role = JStr ''assistant'' \<and> truthy (dget_default message ''tool_calls'' JNull) then
       let text = dget_default message ''content'' JNull in
       bindR (if truthy text then bindR (as_opt_str text) (\<lambda>t. Inr [OutText t]) else Inr []) (\<lambda>texts.
       bindR (calls_of (dget_default message ''tool_calls'' JNull)) (\<lambda>calls.
       bindR (mapMR g_call_part calls) (\<lambda>parts.
       Inr \<lparr>go_role = ''model'', go_parts = texts @ parts\<rparr>)))
     else
       bindR (case role of
                JStr r \<Rightarrow> dict_index role_map r
              | r \<Rightarrow> if hashable r then Inl (KeyError []) else Inl TypeError) (\<lambda>native_role.
       bindR (dict_index message ''content'') (\<lambda>c.
       bindR (as_opt_str c) (\<lambda>t.
       Inr \<lparr>go_role = native_role, go_parts = [OutText t]\<rparr>))))"

definition g_to_native_contents :: "json dict list \<Rightarrow> g_content list result" where
  "g_to_native_contents messages =
     bindR (g_call_names messages []) (\<lambda>call_names.
     mapMR (\<lambda>m. g_to_native_content m call_names) messages)"

definition g_text :: "g_part list \<Rightarrow> string" where
  "g_text parts = concat (map (\<lambda>p. case gp_text p of None \<Rightarrow> [] | Some t \<Rightarrow> t) parts)"

definition g_fresh_uuid :: "('x g_state, string) cmd" where
  "g_fresh_uuid = (\<lambda>s. (Inr (gs_uuid s (gs_uuid_count s)), s\<lparr>gs_uuid_count := gs_uuid_count s + 1\<rparr>))"

definition g_tool_call :: "g_function_call \<Rightarrow> string option \<Rightarrow> ('x g_state, tool_call) cmd" where
  "g_tool_call call signature =
     bindC (case nonempty (gf_id call) of Some i \<Rightarrow> ret i | None \<Rightarrow> g_fresh_uuid) (\<lambda>i.
     case gf_name call of
       None \<Rightarrow> raise ValidationError
     | Some n \<Rightarrow> ret \<lparr>tc_id = i, tc_name = n,
         tc_arguments = (case gf_args call of None \<Rightarrow> [] | Some a \<Rightarrow> a),
         tc_provider_data = pack_thought_signature signature\<rparr>)"

fun g_tool_calls :: "g_part list \<Rightarrow> ('x g_state, tool_call list) cmd" where
  "g_tool_calls [] = ret []"
| "g_tool_calls (p # parts) =
     (case gp_function_call p of
        None \<Rightarrow> g_tool_calls parts
      | Some call \<Rightarrow>
          bindC (g_tool_call call (gp_thought_signature p)) (\<lambda>tc.
          bindC (g_tool_calls parts) (\<lambda>tcs. ret (tc # tcs))))"

definition g_parts :: "g_candidate list option \<Rightarrow> g_part list" where
  "g_parts candidates =
     (case candidates of Some (Some (Some parts) # _) \<Rightarrow> parts | _ \<Rightarrow> [])"

definition g_on_world :: "('x, 'a) cmd \<Rightarrow> ('x g_state, 'a) cmd" where
  "g_on_world = zoom gs_world (\<lambda>x s. s\<lparr>gs_world := x\<rparr>)"

definition g_generate ::
  "string \<Rightarrow> ('x, unit) cmd \<Rightarrow> (g_request \<Rightarrow> ('x, g_candidate list option) cmd) \<Rightarrow> gen_request
     \<Rightarrow> ('x g_state, llm_response) cmd" where
  "g_generate model connect generate_content req =
     bindC (gets gs_connected) (\<lambda>connected.
     bindC (if connected then ret ()
            else bindC (g_on_world connect) (\<lambda>_. modify (\<lambda>s. s\<lparr>gs_connected := True\<rparr>))) (\<lambda>_.
     bindC (liftR (g_to_native_contents (gr_messages req))) (\<lambda>contents.
     bindC (g_on_world (generate_content
              \<lparr>gq_model = model, gq_contents = contents, gq_system_instruction = gr_system req,
               gq_max_output_tokens = gr_max_tokens req,
               gq_tools = (case gr_tools req of Some (t # ts) \<Rightarrow> Some (t # ts) | _ \<Rightarrow> None)\<rparr>)) (\<lambda>candidates.
     let parts = g_parts candidates in
     bindC (g_tool_calls parts) (\<lambda>tool_calls.
     ret \<lparr>lr_text = g_text parts, lr_tool_calls = tool_calls\<rparr>)))))"

subsection \<open>The registry\<close>

text \<open>\<open>build_llm_provider\<close> (\<open>llm/registry.py\<close>): which provider a configuration names.\<close>

datatype llm_provider =
    AnthropicLLMProvider string "string option"
  | GoogleLLMProvider string

definition llm_providers :: "(llm_config \<Rightarrow> llm_provider) dict" where
  "llm_providers =
     [(''anthropic'', \<lambda>cfg. AnthropicLLMProvider (lc_model cfg) (lc_effort cfg)),
      (''google'', \<lambda>cfg. GoogleLLMProvider (lc_model cfg))]"

definition build_llm_provider :: "llm_config \<Rightarrow> llm_provider result" where
  "build_llm_provider config =
     (case dget llm_providers (lc_provider config) of
        None \<Rightarrow> Inl (UnknownLLMProviderError (lc_provider config))
      | Some factory \<Rightarrow> Inr (factory config))"

subsection \<open>A Tool call and its result, sent back\<close>

lemma dump_tool_call_fields:
  "index_key (dump_tool_call tc) ''id'' = Inr (JStr (tc_id tc))"
  "index_key (dump_tool_call tc) ''name'' = Inr (JStr (tc_name tc))"
  "index_key (dump_tool_call tc) ''arguments'' = Inr (JObj (tc_arguments tc))"
  "get_default (dump_tool_call tc) ''provider_data'' JNull
     = Inr (case tc_provider_data tc of None \<Rightarrow> JNull | Some d \<Rightarrow> JObj d)"
  by (simp_all add: dump_tool_call_def dict_index_def dget_default_def)

lemma bindR_assoc: "bindR (bindR r f) g = bindR r (\<lambda>x. bindR (f x) g)"
  by (cases r) simp_all

lemma g_call_names_append:
  "g_call_names (xs @ ys) names = bindR (g_call_names xs names) (g_call_names ys)"
proof (induction xs arbitrary: names)
  case (Cons x xs)
  show ?case
    unfolding append_Cons g_call_names.simps Cons.IH by (rule bindR_assoc [symmetric])
qed simp

lemma unpack_pack:
  "unpack_thought_signature (case pack_thought_signature raw of None \<Rightarrow> JNull | Some d \<Rightarrow> JObj d) = Inr raw"
  by (cases raw) (simp_all add: pack_thought_signature_def unpack_thought_signature_def b64_round_trip)

lemma g_native_call_turn:
  assumes "tc_provider_data tc = pack_thought_signature sig"
  shows "g_to_native_content (tool_call_turn tc) names = Inr
    \<lparr>go_role = ''model'', go_parts = [OutCall (Some (tc_id tc)) (Some (tc_name tc)) (Some (tc_arguments tc)) sig]\<rparr>"
proof -
  have part: "g_call_part (dump_tool_call tc) =
      Inr (OutCall (Some (tc_id tc)) (Some (tc_name tc)) (Some (tc_arguments tc)) sig)"
    by (simp add: g_call_part_def dump_tool_call_fields assms unpack_pack)
  show ?thesis
    by (simp add: g_to_native_content_def tool_call_turn_def dict_index_def dget_default_def Let_def part)
qed

lemma g_native_result_turn:
  assumes "dget names (JStr i) = Some (JStr n)"
  shows "g_to_native_content (tool_result_turn i c) names = Inr
    \<lparr>go_role = ''user'', go_parts = [OutResponse (Some i) (Some n) [(''output'', JStr c)]]\<rparr>"
  using assms
  by (simp add: g_to_native_content_def tool_result_turn_def dict_index_def dget_default_def)

lemma g_names_of_turns:
  "g_call_names [tool_call_turn tc, tool_result_turn i c] names = Inr (AList.update (JStr (tc_id tc)) (JStr (tc_name tc)) names)"
  by (simp add: tool_call_turn_def tool_result_turn_def dget_default_def g_index_call_def dump_tool_call_fields Let_def)

lemma mapMR_append_Inr: "mapMR f (xs @ ys) = Inr zs \<Longrightarrow> \<exists>as bs. zs = as @ bs \<and> mapMR f xs = Inr as \<and> mapMR f ys = Inr bs"
proof (induction xs arbitrary: zs)
  case (Cons x xs)
  then obtain y ys' where "f x = Inr y" "mapMR f (xs @ ys) = Inr ys'" "zs = y # ys'"
    by (auto simp: bindR_Inr_iff mapR_Inr_iff)
  with Cons.IH [of ys'] show ?case by auto
qed simp

text \<open>
  C25: what Gemini sent comes back to it. Take a function call of a Gemini answer, with its opaque
  thought signature, turned into a Tool call; when the Agent Core continues any transcript with
  that call and its result and the transcript can be sent at all, its last two contents are a
  model turn with the very function call, identifier, name, arguments and signature bytes, and a
  user turn whose function response carries the same identifier and, looked up in the
  transcript, the call's name.
\<close>

theorem gemini_call_comes_back:
  assumes "g_tool_call call signature s = (Inr tc, s')"
    and "g_to_native_contents (continue_messages core history tc tool_result) = Inr contents"
  shows "\<exists>before name. contents = before
      @ [\<lparr>go_role = ''model'', go_parts = [OutCall (Some (tc_id tc)) (Some name) (Some (tc_arguments tc)) signature]\<rparr>,
         \<lparr>go_role = ''user'', go_parts = [OutResponse (Some (tc_id tc)) (Some name)
            [(''output'', JStr (json_dumps (ac_float_repr core) tool_result))]]\<rparr>]
    \<and> length before = length history \<and> gf_name call = Some name
    \<and> (gf_id call = Some i \<and> i \<noteq> [] \<longrightarrow> tc_id tc = i)
    \<and> tc_arguments tc = (case gf_args call of None \<Rightarrow> [] | Some a \<Rightarrow> a)"
proof -
  have tc: "tc_provider_data tc = pack_thought_signature signature" "gf_name call = Some (tc_name tc)"
    "gf_id call = Some i \<and> i \<noteq> [] \<longrightarrow> tc_id tc = i" "tc_arguments tc = (case gf_args call of None \<Rightarrow> [] | Some a \<Rightarrow> a)"
    using assms(1)
    by (auto simp: g_tool_call_def bindC_def g_fresh_uuid_def nonempty_def split: option.splits prod.splits if_splits)
  let ?c = "json_dumps (ac_float_repr core) tool_result"
  let ?turns = "[tool_call_turn tc, tool_result_turn (tc_id tc) ?c]"
  from assms(2) obtain names where names: "g_call_names (history @ ?turns) [] = Inr names"
    and all: "mapMR (\<lambda>m. g_to_native_content m names) (history @ ?turns) = Inr contents"
    by (auto simp: g_to_native_contents_def continue_messages_def bindR_Inr_iff)
  from names have name: "dget names (JStr (tc_id tc)) = Some (JStr (tc_name tc))"
    unfolding g_call_names_append by (auto simp: bindR_Inr_iff g_names_of_turns simp del: g_call_names.simps)
  have last: "mapMR (\<lambda>m. g_to_native_content m names) ?turns = Inr
      [\<lparr>go_role = ''model'', go_parts = [OutCall (Some (tc_id tc)) (Some (tc_name tc)) (Some (tc_arguments tc)) signature]\<rparr>,
       \<lparr>go_role = ''user'', go_parts = [OutResponse (Some (tc_id tc)) (Some (tc_name tc)) [(''output'', JStr ?c)]]\<rparr>]"
    by (simp add: g_native_call_turn [OF tc(1)] g_native_result_turn [OF name])
  from mapMR_append_Inr [OF all] last obtain before where "contents = before @ [
       \<lparr>go_role = ''model'', go_parts = [OutCall (Some (tc_id tc)) (Some (tc_name tc)) (Some (tc_arguments tc)) signature]\<rparr>,
       \<lparr>go_role = ''user'', go_parts = [OutResponse (Some (tc_id tc)) (Some (tc_name tc)) [(''output'', JStr ?c)]]\<rparr>]"
    and "length before = length history" by (auto dest: mapMR_Inr_length)
  with tc show ?thesis by blast
qed

subsection \<open>Witness\<close>

definition demo_gemini_call :: g_function_call where
  "demo_gemini_call = \<lparr>gf_id = Some ''c1'', gf_name = Some ''list_rooms'', gf_args = None\<rparr>"

definition demo_signature :: "string option" where
  "demo_signature = Some [CHR 0xFF, CHR 0x00, CHR 0x7A, CHR 0x10]"

definition demo_gemini_tool_call :: tool_call where
  "demo_gemini_tool_call = \<lparr>tc_id = ''c1'', tc_name = ''list_rooms'', tc_arguments = [],
     tc_provider_data = pack_thought_signature demo_signature\<rparr>"

definition demo_gemini_core :: "unit agent_core" where
  "demo_gemini_core =
     \<lparr>ac_config = \<lparr>bc_business_id = ''acme'', bc_display_name = ''Acme'', bc_enabled = True,
        bc_llm = default_llm_config, bc_context = default_context_config ''context'',
        bc_business_logic = \<lparr>bl_persona = [], bl_scope_instructions = [], bl_tone = None, bl_out_of_scope_response = None\<rparr>,
        bc_tools = [], bc_tool_provider = ''in_memory'', bc_storage = default_storage_config, bc_auth_type = ''none'',
        bc_frontend_adapters = default_frontend_adapters, bc_rails = default_rails_config\<rparr>,
      ac_generate = (\<lambda>_. ret \<lparr>lr_text = [], lr_tool_calls = []\<rparr>), ac_load = ret [], ac_float_repr = (\<lambda>_. [])\<rparr>"

lemma demo_gemini_sent:
  "\<not> isl (g_to_native_contents ([turn ''user'' ''hi''] @ [tool_call_turn demo_gemini_tool_call,
      tool_result_turn ''c1'' (json_dumps (\<lambda>_. []) (JObj []))]))"
  by code_simp

lemma gemini_call_comes_back_witness:
  "\<exists>contents. g_to_native_contents (continue_messages demo_gemini_core [turn ''user'' ''hi''] demo_gemini_tool_call (JObj [])) = Inr contents
     \<and> last (butlast contents) = \<lparr>go_role = ''model'', go_parts = [OutCall (Some ''c1'') (Some ''list_rooms'') (Some []) demo_signature]\<rparr>"
proof -
  have call: "g_tool_call demo_gemini_call demo_signature s = (Inr demo_gemini_tool_call, s)" for s :: "unit g_state"
    by (simp add: g_tool_call_def demo_gemini_call_def demo_gemini_tool_call_def nonempty_def bindC_def)
  have "json_dumps (ac_float_repr demo_gemini_core) (JObj []) = json_dumps (\<lambda>_. []) (JObj [])" by simp
  then have "\<not> isl (g_to_native_contents (continue_messages demo_gemini_core [turn ''user'' ''hi''] demo_gemini_tool_call (JObj [])))"
    using demo_gemini_sent by (simp only: continue_messages_def demo_gemini_tool_call_def tool_call.select_convs) simp
  then obtain contents where contents:
    "g_to_native_contents (continue_messages demo_gemini_core [turn ''user'' ''hi''] demo_gemini_tool_call (JObj [])) = Inr contents"
    by (metis sum.collapse(2))
  from gemini_call_comes_back [OF call this] contents show ?thesis
    by (auto simp: demo_gemini_call_def demo_gemini_tool_call_def butlast_append)
qed

end
