(* ===== verification/Nemo_Checker.thy ===== *)
theory Nemo_Checker
  imports Conversation
begin

text \<open>
  The rail checker over NeMo Guardrails (\<open>rails/nemo_checker.py\<close>): what it asks for and how it
  reads the answer. NeMo's \<open>generate\<close> is a parameter; \<open>fr\<close> renders floats.
\<close>

record activated_rail =
  ar_name :: string
  ar_decisions :: "string list"

record nemo_result =
  nr_response :: json
  nr_log :: "activated_rail list option"

type_synonym 'x nemo_generate = "json dict list \<Rightarrow> string \<Rightarrow> ('x, nemo_result) cmd"

definition placeholder_user_turn :: string where
  "placeholder_user_turn = ''(prior customer message, not re-checked here)''"

fun py_str :: "(real \<Rightarrow> string) \<Rightarrow> json \<Rightarrow> string" where
  "py_str fr (JStr s) = s"
| "py_str fr v = py_repr fr v"

definition nemo_extract_text :: "(real \<Rightarrow> string) \<Rightarrow> json \<Rightarrow> string" where
  "nemo_extract_text fr response =
     (case response of
        JArr (x # xs) \<Rightarrow>
          (case last (x # xs) of
             JObj d \<Rightarrow> py_str fr (dget_default d ''content'' (JStr []))
           | v \<Rightarrow> py_str fr v)
      | v \<Rightarrow> py_str fr v)"

definition nemo_to_verdict :: "(real \<Rightarrow> string) \<Rightarrow> nemo_result \<Rightarrow> rail_verdict" where
  "nemo_to_verdict fr result =
     (let text = nemo_extract_text fr (nr_response result);
          activated_rails = (case nr_log result of None \<Rightarrow> [] | Some rails \<Rightarrow> rails)
      in case List.find (\<lambda>rail. ''stop'' \<in> set (ar_decisions rail)) activated_rails of
           None \<Rightarrow> \<lparr>rv_allowed = True, rv_text = text, rv_activated_rail = None\<rparr>
         | Some rail \<Rightarrow> \<lparr>rv_allowed = False, rv_text = text, rv_activated_rail = Some (ar_name rail)\<rparr>)"

definition nemo_check_input :: "(real \<Rightarrow> string) \<Rightarrow> 'x nemo_generate \<Rightarrow> string \<Rightarrow> ('x, rail_verdict) cmd" where
  "nemo_check_input fr generate message =
     bindC (generate [turn ''user'' message] ''input'') (\<lambda>result. ret (nemo_to_verdict fr result))"

definition nemo_check_output :: "(real \<Rightarrow> string) \<Rightarrow> 'x nemo_generate \<Rightarrow> string \<Rightarrow> ('x, rail_verdict) cmd" where
  "nemo_check_output fr generate response_text =
     bindC (generate [turn ''user'' placeholder_user_turn, turn ''assistant'' response_text] ''output'') (\<lambda>result.
     ret (nemo_to_verdict fr result))"

text \<open>A message is blocked exactly when some activated rail decided to stop.\<close>

lemma nemo_blocks_iff:
  "rv_allowed (nemo_to_verdict fr result) \<longleftrightarrow>
     (\<forall>rails. nr_log result = Some rails \<longrightarrow> (\<forall>rail \<in> set rails. ''stop'' \<notin> set (ar_decisions rail)))"
  by (cases "nr_log result") (auto simp: nemo_to_verdict_def Let_def find_None_iff_all split: option.splits dest: find_SomeD)

end
