(* ===== verification/Business_Runtime.thy ===== *)
theory Business_Runtime
  imports Menu Customers Context_Files Llm_Providers Nemo_Checker
begin

text \<open>
  How a Business is put together: \<open>load_agent_core\<close> (\<open>agent_core.py\<close>),
  \<open>build_tool_provider\<close> (\<open>tools/registry.py\<close>) and \<open>load_conversation_runtime\<close>
  (\<open>conversation.py\<close>). The world of a Business's runtime is its files, the hotel provider's
  memory, the Business's database and customer table, the state of the Google client, and whatever
  is outside the process (the remote model, the rail checker, MCP servers).
\<close>

subsection \<open>The world and the libraries\<close>

record 'x world =
  wd_disk :: disk
  wd_hotel :: hotel
  wd_db :: entity_db
  wd_customers :: customer_store
  wd_google :: "'x g_state"

record 'x libraries =
  lib_io :: config_io
  lib_eng :: sql_engine
  lib_float_repr :: "real \<Rightarrow> string"
  lib_menu :: menu_validation
  lib_float_parse :: "string \<Rightarrow> real"
  lib_mcp :: "'x mcp_client"
  lib_anthropic :: "json dict \<Rightarrow> ('x, anthropic_block list) cmd"
  lib_google_connect :: "('x, unit) cmd"
  lib_google :: "g_request \<Rightarrow> ('x, g_candidate list option) cmd"
  lib_nemo_init :: "('x, unit) cmd"
  lib_nemo :: "'x nemo_generate"

definition in_disk :: "(disk, 'a) cmd \<Rightarrow> ('x world, 'a) cmd" where
  "in_disk = zoom wd_disk (\<lambda>d w. w\<lparr>wd_disk := d\<rparr>)"

definition in_hotel :: "(hotel, 'a) cmd \<Rightarrow> ('x world, 'a) cmd" where
  "in_hotel = zoom wd_hotel (\<lambda>h w. w\<lparr>wd_hotel := h\<rparr>)"

definition in_db :: "(entity_db, 'a) cmd \<Rightarrow> ('x world, 'a) cmd" where
  "in_db = zoom wd_db (\<lambda>db w. w\<lparr>wd_db := db\<rparr>)"

definition in_customers :: "(customer_store, 'a) cmd \<Rightarrow> ('x world, 'a) cmd" where
  "in_customers = zoom wd_customers (\<lambda>c w. w\<lparr>wd_customers := c\<rparr>)"

definition in_google :: "('x g_state, 'a) cmd \<Rightarrow> ('x world, 'a) cmd" where
  "in_google = zoom wd_google (\<lambda>g w. w\<lparr>wd_google := g\<rparr>)"

definition outside :: "('x, 'a) cmd \<Rightarrow> ('x world, 'a) cmd" where
  "outside m = in_google (g_on_world m)"

subsection \<open>The Agent Core\<close>

definition generate_with :: "'x libraries \<Rightarrow> llm_provider \<Rightarrow> gen_request \<Rightarrow> ('x world, llm_response) cmd" where
  "generate_with lib provider req =
     (case provider of
        AnthropicLLMProvider model effort \<Rightarrow> outside (an_generate model effort (lib_anthropic lib) req)
      | GoogleLLMProvider model \<Rightarrow> in_google (g_generate model (lib_google_connect lib) (lib_google lib) req))"

definition parent_dir :: "string \<Rightarrow> string" where
  "parent_dir path = butlast (rev (dropWhile (\<lambda>c. c \<noteq> CHR ''/'') (rev path)))"

definition load_agent_core :: "'x libraries \<Rightarrow> string \<Rightarrow> ('x world, 'x world agent_core) cmd" where
  "load_agent_core lib business_config_path =
     bindC (in_disk (load_business_config (lib_io lib) business_config_path)) (\<lambda>config.
     if \<not> bc_enabled config then raise (BusinessDisabledError (bc_business_id config))
     else
     bindC (liftR (build_llm_provider (bc_llm config))) (\<lambda>provider.
     ret \<lparr>ac_config = config, ac_generate = generate_with lib provider,
          ac_load = in_disk (load_context (parent_dir business_config_path @ ''/'' @ cc_directory (bc_context config))
                              (cc_include_patterns (bc_context config))),
          ac_float_repr = lib_float_repr lib\<rparr>))"

subsection \<open>The Tool providers\<close>

datatype base_provider =
    InMemoryToolProvider
  | KampusCraveToolProvider string

definition build_tool_provider :: "'x libraries \<Rightarrow> string \<Rightarrow> ('x world, base_provider) cmd" where
  "build_tool_provider lib provider_type =
     (if provider_type = ''in_memory'' then ret InMemoryToolProvider
      else if provider_type = ''sqlite_menu'' then
        bindC (in_db (resolve_or_create_menu_table (lib_eng lib))) (\<lambda>table_name. ret (KampusCraveToolProvider table_name))
      else raise (UnknownToolProviderError provider_type))"

definition base_call :: "'x libraries \<Rightarrow> base_provider \<Rightarrow> string \<Rightarrow> json dict \<Rightarrow> ('x world, json) cmd" where
  "base_call lib provider name arguments =
     (case provider of
        InMemoryToolProvider \<Rightarrow> in_hotel (hotel_call (lib_float_repr lib) name arguments)
      | KampusCraveToolProvider table_name \<Rightarrow>
          in_db (kampuscrave_call (lib_eng lib) (lib_menu lib) (lib_float_repr lib) table_name name arguments))"

definition crud_provider :: "'x libraries \<Rightarrow> string \<Rightarrow> json dict \<Rightarrow> ('x world, json) cmd" where
  "crud_provider lib name arguments = in_db (entity_crud_call (lib_eng lib) (lib_float_repr lib) name arguments)"

definition mcp_provider :: "'x libraries \<Rightarrow> string dict \<Rightarrow> string \<Rightarrow> json dict \<Rightarrow> ('x world, json) cmd" where
  "mcp_provider lib endpoints name arguments = outside (mcp_call (lib_mcp lib) (lib_float_parse lib) endpoints name arguments)"

definition mcp_endpoints :: "tool_config list \<Rightarrow> string dict" where
  "mcp_endpoints tools =
     fold (\<lambda>t d. case nonempty (tl_mcp_endpoint t) of None \<Rightarrow> d | Some u \<Rightarrow> AList.update (tl_name t) u d) tools []"

definition business_providers ::
  "'x libraries \<Rightarrow> base_provider \<Rightarrow> tool_config list \<Rightarrow> (string \<Rightarrow> json dict \<Rightarrow> ('x world, json) cmd) list" where
  "business_providers lib base tools = [base_call lib base, crud_provider lib, mcp_provider lib (mcp_endpoints tools)]"

subsection \<open>The Conversation Runtime\<close>

definition load_conversation_runtime ::
  "'x libraries \<Rightarrow> string \<Rightarrow> ('x world, (sqlite_store, 'x world) runtime) cmd" where
  "load_conversation_runtime lib business_config_path =
     bindC (load_agent_core lib business_config_path) (\<lambda>core.
     bindC (outside (lib_nemo_init lib)) (\<lambda>_.
     bindC (build_tool_provider lib (bc_tool_provider (ac_config core))) (\<lambda>base.
     bindC (liftR (composite_init (business_providers lib base (bc_tools (ac_config core))))) (\<lambda>providers.
     ret \<lparr>rt_core = core, rt_tool_call = composite_call providers, rt_session = sqlite_ops,
          rt_check_input = (\<lambda>m. outside (nemo_check_input (lib_float_repr lib) (lib_nemo lib) m)),
          rt_check_output = (\<lambda>t. outside (nemo_check_output (lib_float_repr lib) (lib_nemo lib) t)),
          rt_record_visit = (\<lambda>c. in_customers (record_visit c))\<rparr>))))"

subsection \<open>Dispatch\<close>

context provider_pair
begin

lemma fallback_is_provider: "tool_provider (fallback p q) (\<lambda>s n. kp s n \<or> kq s n) inv"
  by (rule tool_provider_axioms)

end

text \<open>A provider that works on a part of a larger state is a provider on the whole.\<close>

locale provider_in_part = tool_provider call knows inv
  for call :: "string \<Rightarrow> json dict \<Rightarrow> ('a, json) cmd" and knows and inv +
  fixes get :: "'w \<Rightarrow> 'a" and put :: "'a \<Rightarrow> 'w \<Rightarrow> 'w" and whole :: "'w \<Rightarrow> bool"
  assumes part: "whole w \<Longrightarrow> inv (get w)"
    and put_part: "whole w \<Longrightarrow> inv a \<Longrightarrow> whole (put a w)"
    and put_get: "put (get w) w = w"

sublocale provider_in_part \<subseteq> lifted: tool_provider "\<lambda>name args. zoom get put (call name args)" "\<lambda>w. knows (get w)" whole
proof
  fix s name args
  assume "whole s" "\<not> knows (get s) name"
  then show "zoom get put (call name args) s = (Inl (UnknownToolError name), s)"
    by (simp add: zoom_def unknown part put_get)
next
  fix s name args e s'
  assume "whole s" "knows (get s) name" "zoom get put (call name args) s = (Inl e, s')"
  then show "not_unknown e"
    using known [OF part] by (auto simp: zoom_def split: prod.splits)
next
  fix s name args r s'
  assume "whole s" "zoom get put (call name args) s = (r, s')"
  then show "whole s'"
    using keeps [OF part] put_part by (auto simp: zoom_def split: prod.splits)
qed

text \<open>The invariant of the world: the Business's database has a catalogue.\<close>

definition world_inv :: "'x libraries \<Rightarrow> 'x world \<Rightarrow> bool" where
  "world_inv lib w \<longleftrightarrow> crud_inv (lib_eng lib) (wd_db w)"

interpretation hotel_part: provider_in_part "hotel_call fr" hotel_knows "\<lambda>_. True"
    wd_hotel "\<lambda>h w. w\<lparr>wd_hotel := h\<rparr>" "world_inv lib" for fr lib
  by unfold_locales (simp_all add: world_inv_def)

interpretation menu_part: provider_in_part "kampuscrave_call (lib_eng lib) mv fr t" menu_knows "crud_inv (lib_eng lib)"
    wd_db "\<lambda>db w. w\<lparr>wd_db := db\<rparr>" "world_inv lib" for lib mv fr t
  by unfold_locales (simp_all add: world_inv_def)

interpretation crud_part: provider_in_part "entity_crud_call (lib_eng lib) fr" crud_knows "crud_inv (lib_eng lib)"
    wd_db "\<lambda>db w. w\<lparr>wd_db := db\<rparr>" "world_inv lib" for lib fr
  by unfold_locales (simp_all add: world_inv_def)

interpretation mcp_part: provider_in_part "mcp_call client fp endpoints" "mcp_knows endpoints" "\<lambda>_. True"
    "\<lambda>w. gs_world (wd_google w)" "\<lambda>x w. w\<lparr>wd_google := (wd_google w)\<lparr>gs_world := x\<rparr>\<rparr>" "world_inv lib"
  for client fp endpoints lib
  by unfold_locales (simp_all add: world_inv_def)

definition base_knows :: "base_provider \<Rightarrow> string \<Rightarrow> bool" where
  "base_knows base name \<longleftrightarrow> (case base of
     InMemoryToolProvider \<Rightarrow> name \<in> set [''check_room_availability'', ''book_room'']
   | KampusCraveToolProvider _ \<Rightarrow> name = ''check_menu_item'')"

lemma outside_zoom: "outside m = zoom (\<lambda>w. gs_world (wd_google w)) (\<lambda>x w. w\<lparr>wd_google := (wd_google w)\<lparr>gs_world := x\<rparr>\<rparr>) m"
  by (rule ext) (simp add: outside_def in_google_def g_on_world_def zoom_def split: prod.splits)

lemma base_provider:
  fixes lib :: "'x libraries"
  shows "tool_provider (base_call lib base) (\<lambda>w. base_knows base) (world_inv lib)"
proof (cases base)
  case InMemoryToolProvider
  have "base_call lib base = (\<lambda>name args. zoom wd_hotel (\<lambda>h w. w\<lparr>wd_hotel := h\<rparr>) (hotel_call (lib_float_repr lib) name args))"
    by (simp add: base_call_def InMemoryToolProvider in_hotel_def fun_eq_iff)
  moreover have "(\<lambda>w :: 'x world. base_knows base) = (\<lambda>w. hotel_knows (wd_hotel w))"
    by (simp add: base_knows_def InMemoryToolProvider hotel_knows_def fun_eq_iff)
  ultimately show ?thesis using hotel_part.lifted.tool_provider_axioms by simp
next
  case (KampusCraveToolProvider t)
  have "base_call lib base = (\<lambda>name args. zoom wd_db (\<lambda>db w. w\<lparr>wd_db := db\<rparr>)
      (kampuscrave_call (lib_eng lib) (lib_menu lib) (lib_float_repr lib) t name args))"
    by (simp add: base_call_def KampusCraveToolProvider in_db_def fun_eq_iff)
  moreover have "(\<lambda>w :: 'x world. base_knows base) = (\<lambda>w. menu_knows (wd_db w))"
    by (simp add: base_knows_def KampusCraveToolProvider menu_knows_def fun_eq_iff)
  ultimately show ?thesis using menu_part.lifted.tool_provider_axioms by simp
qed

interpretation local_remote: provider_pair
    "\<lambda>name args. zoom wd_db (\<lambda>db w. w\<lparr>wd_db := db\<rparr>) (entity_crud_call (lib_eng lib) fr name args)" "\<lambda>w. crud_knows (wd_db w)"
    "\<lambda>name args. zoom (\<lambda>w. gs_world (wd_google w)) (\<lambda>x w. w\<lparr>wd_google := (wd_google w)\<lparr>gs_world := x\<rparr>\<rparr>)
       (mcp_call client fp endpoints name args)" "\<lambda>w. mcp_knows endpoints (gs_world (wd_google w))"
    "world_inv lib" for lib fr client fp endpoints
  by (rule provider_pair.intro crud_part.lifted.tool_provider_axioms mcp_part.lifted.tool_provider_axioms)+

lemma composite_one: "composite_call [p] = p"
  by (rule ext)+ simp

lemma composite_more: "composite_call (p # q # ps) = fallback p (composite_call (q # ps))"
  by (rule ext)+ simp

lemma crud_then_mcp:
  fixes lib :: "'x libraries"
  shows "composite_call [crud_provider lib, mcp_provider lib endpoints] =
    fallback (\<lambda>name args. zoom wd_db (\<lambda>db w. w\<lparr>wd_db := db\<rparr>) (entity_crud_call (lib_eng lib) (lib_float_repr lib) name args))
      (\<lambda>name args. zoom (\<lambda>w. gs_world (wd_google w)) (\<lambda>x w. w\<lparr>wd_google := (wd_google w)\<lparr>gs_world := x\<rparr>\<rparr>)
         (mcp_call (lib_mcp lib) (lib_float_parse lib) endpoints name args))"
  unfolding composite_more composite_one crud_provider_def mcp_provider_def in_db_def outside_zoom ..

lemma all_providers:
  fixes lib :: "'x libraries"
  shows "provider_pair (base_call lib base) (\<lambda>w. base_knows base)
     (composite_call [crud_provider lib, mcp_provider lib endpoints])
     (\<lambda>w name. crud_knows (wd_db w) name \<or> mcp_knows endpoints (gs_world (wd_google w)) name) (world_inv lib)"
  unfolding crud_then_mcp
  by (rule provider_pair.intro base_provider local_remote.tool_provider_axioms)+

lemma dispatch:
  fixes lib :: "'x libraries"
  assumes "world_inv lib w"
  shows "composite_call (business_providers lib base tools) name args w =
    (if base_knows base name then base_call lib base name args w
     else if crud_knows (wd_db w) name then crud_provider lib name args w
     else if dget (mcp_endpoints tools) name \<noteq> None then mcp_provider lib (mcp_endpoints tools) name args w
     else (Inl (UnknownToolError name), w))"
proof -
  let ?m = "mcp_endpoints tools"
  note pair = all_providers [of lib base ?m]
  note last = provider_pair.fallback_first [OF local_remote.provider_pair_axioms assms]
    provider_pair.fallback_second [OF local_remote.provider_pair_axioms assms]
  have call: "composite_call (business_providers lib base tools) name args w =
      fallback (base_call lib base) (composite_call [crud_provider lib, mcp_provider lib ?m]) name args w"
    by (simp add: business_providers_def)
  have crud: "crud_provider lib name args w = zoom wd_db (\<lambda>db w. w\<lparr>wd_db := db\<rparr>)
      (entity_crud_call (lib_eng lib) (lib_float_repr lib) name args) w"
    by (simp add: crud_provider_def in_db_def)
  have mcp: "mcp_provider lib ?m name args w = zoom (\<lambda>w. gs_world (wd_google w))
      (\<lambda>x w. w\<lparr>wd_google := (wd_google w)\<lparr>gs_world := x\<rparr>\<rparr>) (mcp_call (lib_mcp lib) (lib_float_parse lib) ?m name args) w"
    by (simp add: mcp_provider_def outside_zoom)
  have none: "mcp_provider lib ?m name args w = (Inl (UnknownToolError name), w)" if "dget ?m name = None"
    using that by (simp add: mcp zoom_def mcp_call_def)
  show ?thesis
  proof (cases "base_knows base name")
    case True
    with provider_pair.fallback_first [OF pair assms] show ?thesis by (simp add: call)
  next
    case False
    then have rest: "composite_call (business_providers lib base tools) name args w =
        composite_call [crud_provider lib, mcp_provider lib ?m] name args w"
      using provider_pair.fallback_second [OF pair assms] by (simp add: call)
    show ?thesis
    proof (cases "crud_knows (wd_db w) name")
      case True
      then show ?thesis using False unfolding rest crud_then_mcp crud by (simp add: last(1))
    next
      case no: False
      then have "composite_call [crud_provider lib, mcp_provider lib ?m] name args w = mcp_provider lib ?m name args w"
        unfolding crud_then_mcp mcp by (simp add: last(2))
      with no False none show ?thesis unfolding rest by auto
    qed
  qed
qed

text \<open>What a loaded runtime dispatches to.\<close>

definition base_of :: "business_config \<Rightarrow> base_provider \<Rightarrow> bool" where
  "base_of config base \<longleftrightarrow> bc_tool_provider config = ''in_memory'' \<and> base = InMemoryToolProvider
     \<or> bc_tool_provider config = ''sqlite_menu'' \<and> (\<exists>t. base = KampusCraveToolProvider t)"

lemma build_tool_provider_base:
  assumes "build_tool_provider lib (bc_tool_provider config) w = (Inr base, w')"
  shows "base_of config base"
  using assms
  by (auto simp: build_tool_provider_def base_of_def bindC_def split: if_splits prod.splits sum.splits)

lemma loaded_runtime:
  assumes "load_conversation_runtime lib path w = (Inr rt, w')"
  obtains base where "base_of (ac_config (rt_core rt)) base" and "bc_enabled (ac_config (rt_core rt))"
    and "rt_tool_call rt = composite_call (business_providers lib base (bc_tools (ac_config (rt_core rt))))"
proof -
  from assms obtain core w1 w2 base w3 where core: "load_agent_core lib path w = (Inr core, w1)"
    and base: "build_tool_provider lib (bc_tool_provider (ac_config core)) w2 = (Inr base, w3)"
    and rt: "rt_core rt = core" "rt_tool_call rt = composite_call (business_providers lib base (bc_tools (ac_config core)))"
    unfolding load_conversation_runtime_def
    by (auto elim!: bindC_InrE simp: composite_init_def business_providers_def)
  have "bc_enabled (ac_config core)"
    using core unfolding load_agent_core_def
    by (auto elim!: bindC_InrE split: if_splits)
  with build_tool_provider_base [OF base] rt that show thesis by metis
qed

text \<open>
  C27: Tool dispatch. The runtime loaded for a Business belongs to an enabled configuration, and in
  every state in which the Business's database has a catalogue a Tool call is decided by the name
  alone: the provider the configuration names gets its own Tools, else the generated Tools of an
  unlinked table go to the database, else a Tool configured with an endpoint goes to the MCP server,
  else it is unknown and nothing has happened. Providers never mask one another's results or errors,
  and after any call, failed or not, the database has a catalogue again.
\<close>

theorem loaded_runtime_dispatches:
  assumes "load_conversation_runtime lib path w0 = (Inr rt, w1)" and "world_inv lib w"
  shows "bc_enabled (ac_config (rt_core rt)) \<and>
    (\<exists>base. base_of (ac_config (rt_core rt)) base \<and>
      (\<forall>name args. rt_tool_call rt name args w =
         (if base_knows base name then base_call lib base name args w
          else if crud_knows (wd_db w) name then crud_provider lib name args w
          else if dget (mcp_endpoints (bc_tools (ac_config (rt_core rt)))) name \<noteq> None
          then mcp_provider lib (mcp_endpoints (bc_tools (ac_config (rt_core rt)))) name args w
          else (Inl (UnknownToolError name), w))
       \<and> world_inv lib (snd (rt_tool_call rt name args w))))"
proof -
  obtain base where base: "base_of (ac_config (rt_core rt)) base" and enabled: "bc_enabled (ac_config (rt_core rt))"
    and call: "rt_tool_call rt = composite_call (business_providers lib base (bc_tools (ac_config (rt_core rt))))"
    using loaded_runtime [OF assms(1)] .
  let ?m = "mcp_endpoints (bc_tools (ac_config (rt_core rt)))"
  have provider: "tool_provider (fallback (base_call lib base) (composite_call [crud_provider lib, mcp_provider lib ?m]))
      (\<lambda>w name. base_knows base name \<or> crud_knows (wd_db w) name \<or> mcp_knows ?m (gs_world (wd_google w)) name) (world_inv lib)"
    by (rule provider_pair.fallback_is_provider [OF all_providers])
  have keeps: "world_inv lib (snd (rt_tool_call rt name args w))" for name args
    unfolding call business_providers_def composite_more [of "base_call lib base"]
    by (rule tool_provider.keeps [OF provider assms(2) prod.collapse [symmetric]])
  show ?thesis
    by (rule conjI [OF enabled], rule exI [of _ base], rule conjI [OF base], intro allI conjI keeps)
      (unfold call, rule dispatch [OF assms(2)])
qed

subsection \<open>Witness\<close>

definition demo_libraries :: "unit libraries" where
  "demo_libraries =
     \<lparr>lib_io = demo_config_io, lib_eng = demo_eng, lib_float_repr = (\<lambda>_. []), lib_menu = demo_validation,
      lib_float_parse = (\<lambda>_. 0), lib_mcp = (\<lambda>_ _ _ x. (Inl ''offline'', x)), lib_anthropic = (\<lambda>_. ret []),
      lib_google_connect = ret (), lib_google = (\<lambda>_. ret None), lib_nemo_init = ret (),
      lib_nemo = (\<lambda>_ _. ret \<lparr>nr_response = JStr [], nr_log = None\<rparr>)\<rparr>"

definition demo_world :: "unit world" where
  "demo_world =
     \<lparr>wd_disk = demo_disk, wd_hotel = hotel_init (\<lambda>n. nat_digits n), wd_db = demo_repo,
      wd_customers = customers_init (\<lambda>_. 0),
      wd_google = \<lparr>gs_connected = False, gs_uuid = (\<lambda>n. nat_digits n), gs_uuid_count = 0, gs_world = ()\<rparr>\<rparr>"

lemma demo_world_loads:
  "fst (load_business_config demo_config_io ''acme/business.yaml'' demo_disk) = Inr demo_business"
  "bc_enabled demo_business" "bc_tool_provider demo_business = ''in_memory''" "bc_tools demo_business = []"
  "build_llm_provider (bc_llm demo_business) = Inr (GoogleLLMProvider ''gemini-flash-lite-latest'')"
  by code_simp+

lemma runtime_loads:
  assumes "load_business_config (lib_io lib) path (wd_disk w) = (Inr config, wd_disk w)" and "bc_enabled config"
    and "build_llm_provider (bc_llm config) = Inr provider" and "bc_tool_provider config = ''in_memory''"
    and "lib_nemo_init lib = ret ()"
  shows "\<exists>rt w'. load_conversation_runtime lib path w = (Inr rt, w') \<and> ac_config (rt_core rt) = config"
  using assms
  by (simp add: load_conversation_runtime_def load_agent_core_def bindC_def in_disk_def zoom_def outside_def
      in_google_def g_on_world_def build_tool_provider_def composite_init_def business_providers_def)

lemma demo_runtime_loads: "\<exists>rt w. load_conversation_runtime demo_libraries ''acme/business.yaml'' demo_world = (Inr rt, w)
    \<and> ac_config (rt_core rt) = demo_business"
proof (rule runtime_loads)
  show "load_business_config (lib_io demo_libraries) ''acme/business.yaml'' (wd_disk demo_world)
      = (Inr demo_business, wd_disk demo_world)"
    using demo_world_loads(1) load_keeps_disk by (simp add: demo_libraries_def demo_world_def) (metis prod.collapse)
qed (simp_all add: demo_world_loads demo_libraries_def)

lemma loaded_runtime_dispatches_witness:
  "\<exists>rt w. load_conversation_runtime demo_libraries ''acme/business.yaml'' demo_world = (Inr rt, w)
     \<and> rt_tool_call rt ''no_such_tool'' [] demo_world = (Inl (UnknownToolError ''no_such_tool''), demo_world)"
proof -
  obtain rt w where run: "load_conversation_runtime demo_libraries ''acme/business.yaml'' demo_world = (Inr rt, w)"
    and config: "ac_config (rt_core rt) = demo_business" using demo_runtime_loads by blast
  have inv: "world_inv demo_libraries demo_world"
    using demo_repo_inv demo_numbers by (auto simp: world_inv_def demo_libraries_def demo_world_def crud_inv_def)
  have "parse_tool_name ''no_such_tool'' = None" by code_simp
  then have none: "\<not> crud_knows (wd_db demo_world) ''no_such_tool''"
    by (simp add: crud_knows_def crud_target_def split: sum.split)
  from loaded_runtime_dispatches [OF run inv] obtain base where base: "base_of demo_business base"
    and call: "rt_tool_call rt ''no_such_tool'' [] demo_world =
       (if base_knows base ''no_such_tool'' then base_call demo_libraries base ''no_such_tool'' [] demo_world
        else if crud_knows (wd_db demo_world) ''no_such_tool'' then crud_provider demo_libraries ''no_such_tool'' [] demo_world
        else if dget (mcp_endpoints (bc_tools demo_business)) ''no_such_tool'' \<noteq> None
        then mcp_provider demo_libraries (mcp_endpoints (bc_tools demo_business)) ''no_such_tool'' [] demo_world
        else (Inl (UnknownToolError ''no_such_tool''), demo_world))"
    unfolding config by blast
  have "\<not> base_knows base ''no_such_tool''"
    using base by (auto simp: base_of_def base_knows_def demo_world_loads)
  with call none run show ?thesis by (auto simp: demo_world_loads mcp_endpoints_def)
qed

end
