(* ===== verification/Whatsapp_Registry.thy ===== *)
theory Whatsapp_Registry
  imports Business_Runtime
begin

text \<open>
  The index of Businesses by phone number (\<open>interfaces/whatsapp/registry.py\<close>) and its deferred
  loading (\<open>interfaces/whatsapp/app.py\<close>). As in the code, what loads a runtime is an argument;
  it works on a state \<open>'s\<close> of which \<open>files\<close> is the disk.
\<close>

subsection \<open>The scan\<close>

text \<open>\<open>sorted(businesses_dir.glob("*/business.yaml"))\<close>: paths compare part by part.\<close>

definition business_yaml_paths :: "string \<Rightarrow> disk \<Rightarrow> string list" where
  "business_yaml_paths businesses_dir dk =
     filter (\<lambda>path. path_exists path dk)
       (map (\<lambda>name. businesses_dir @ ''/'' @ name @ ''/business.yaml'')
         (sort (remdups (List.map_filter (child_name businesses_dir) (dk_dirs dk)))))"

definition whatsapp_enabled :: "frontend_adapter_config \<Rightarrow> bool" where
  "whatsapp_enabled adapter \<longleftrightarrow> \<not> (fa_type adapter \<noteq> ''whatsapp'' \<or> \<not> fa_enabled adapter)"

fun claim_adapters ::
  "(string \<Rightarrow> ('s, 'rt) cmd) \<Rightarrow> string \<Rightarrow> frontend_adapter_config list \<Rightarrow> 'rt dict \<Rightarrow> ('s, 'rt dict) cmd" where
  "claim_adapters runtime_loader path [] registry = ret registry"
| "claim_adapters runtime_loader path (adapter # adapters) registry =
     (if \<not> whatsapp_enabled adapter then claim_adapters runtime_loader path adapters registry
      else case nonempty (fa_phone_number_id adapter) of
        None \<Rightarrow> claim_adapters runtime_loader path adapters registry
      | Some phone \<Rightarrow>
          if dget registry phone \<noteq> None then claim_adapters runtime_loader path adapters registry
          else bindC (catch (bindC (runtime_loader path) (\<lambda>rt. ret (AList.update phone rt registry))) (\<lambda>_. ret registry))
                 (claim_adapters runtime_loader path adapters))"

definition read_config :: "config_io \<Rightarrow> ('s \<Rightarrow> disk) \<Rightarrow> string \<Rightarrow> ('s, business_config) cmd" where
  "read_config io files path = (\<lambda>s. (fst (load_business_config io path (files s)), s))"

fun scan_businesses ::
  "config_io \<Rightarrow> ('s \<Rightarrow> disk) \<Rightarrow> (string \<Rightarrow> ('s, 'rt) cmd) \<Rightarrow> string list \<Rightarrow> 'rt dict \<Rightarrow> ('s, 'rt dict) cmd" where
  "scan_businesses io files runtime_loader [] registry = ret registry"
| "scan_businesses io files runtime_loader (path # paths) registry =
     bindC (catch (bindC (read_config io files path) (\<lambda>config. ret (Some config)))
              (\<lambda>e. if e = BusinessConfigError then ret None else raise e)) (\<lambda>config.
     case config of
       None \<Rightarrow> scan_businesses io files runtime_loader paths registry
     | Some c \<Rightarrow>
         if \<not> bc_enabled c then scan_businesses io files runtime_loader paths registry
         else bindC (claim_adapters runtime_loader path (bc_frontend_adapters c) registry)
                (scan_businesses io files runtime_loader paths))"

definition build_business_registry ::
  "config_io \<Rightarrow> ('s \<Rightarrow> disk) \<Rightarrow> (string \<Rightarrow> ('s, 'rt) cmd) \<Rightarrow> string \<Rightarrow> ('s, 'rt dict) cmd" where
  "build_business_registry io files runtime_loader businesses_dir =
     bindC (gets (\<lambda>s. business_yaml_paths businesses_dir (files s))) (\<lambda>paths.
     scan_businesses io files runtime_loader paths [])"

text \<open>The task started at startup: the new entries are merged into the registry the layer holds.\<close>

definition populate_business_registry ::
  "config_io \<Rightarrow> ('s \<Rightarrow> disk) \<Rightarrow> (string \<Rightarrow> ('s, 'rt) cmd) \<Rightarrow> string \<Rightarrow> 'rt dict \<Rightarrow> ('s, 'rt dict) cmd" where
  "populate_business_registry io files runtime_loader businesses_dir registry =
     catch (bindC (build_business_registry io files runtime_loader businesses_dir) (\<lambda>loaded. ret (dmerge registry loaded)))
       (\<lambda>_. ret registry)"

subsection \<open>Specification\<close>

text \<open>
  Who claims which phone number: the enabled WhatsApp adapters of the enabled, readable
  configurations, in the order of the scan, each with its configuration's path. A phone number is
  routed to the first claimant that loads; \<open>can path r\<close> says that loading \<open>path\<close> may end in \<open>r\<close>.
\<close>

definition phones :: "frontend_adapter_config list \<Rightarrow> string list" where
  "phones adapters = List.map_filter (\<lambda>a. nonempty (fa_phone_number_id a)) (filter whatsapp_enabled adapters)"

definition claims_of :: "config_io \<Rightarrow> disk \<Rightarrow> string \<Rightarrow> (string \<times> string) list" where
  "claims_of io dk path = (case fst (load_business_config io path dk) of
     Inl _ \<Rightarrow> []
   | Inr c \<Rightarrow> if bc_enabled c then map (\<lambda>phone. (phone, path)) (phones (bc_frontend_adapters c)) else [])"

definition claims :: "config_io \<Rightarrow> disk \<Rightarrow> string \<Rightarrow> (string \<times> string) list" where
  "claims io dk businesses_dir = concat (map (claims_of io dk) (business_yaml_paths businesses_dir dk))"

definition routed ::
  "(string \<Rightarrow> 'rt result \<Rightarrow> bool) \<Rightarrow> (string \<times> string) list \<Rightarrow> string \<Rightarrow> 'rt option \<Rightarrow> bool" where
  "routed can cs phone target = (case target of
     None \<Rightarrow> \<forall>path. (phone, path) \<in> set cs \<longrightarrow> (\<exists>e. can path (Inl e))
   | Some rt \<Rightarrow> \<exists>before path after. cs = before @ (phone, path) # after \<and> can path (Inr rt)
       \<and> (\<forall>earlier. (phone, earlier) \<in> set before \<longrightarrow> (\<exists>e. can earlier (Inl e))))"

lemma routed_nothing: "routed can [] phone None"
  by (simp add: routed_def)

lemma routed_more:
  assumes "routed can cs phone (Some rt)"
  shows "routed can (cs @ ds) phone (Some rt)"
proof -
  from assms obtain before path after where "cs = before @ (phone, path) # after" "can path (Inr rt)"
    "\<forall>earlier. (phone, earlier) \<in> set before \<longrightarrow> (\<exists>e. can earlier (Inl e))"
    by (auto simp: routed_def)
  then show ?thesis
    by (simp add: routed_def) (rule exI [of _ before], rule exI [of _ path], simp)
qed

lemma routed_other: "routed can cs phone target \<Longrightarrow> fst c \<noteq> phone \<Longrightarrow> routed can (cs @ [c]) phone target"
  by (cases target) (auto simp: routed_more, auto simp: routed_def)

lemma routed_failed: "routed can cs phone None \<Longrightarrow> can path (Inl e) \<Longrightarrow> routed can (cs @ [(p, path)]) phone None"
  by (auto simp: routed_def)

lemma routed_loaded: "routed can cs phone None \<Longrightarrow> can path (Inr rt) \<Longrightarrow> routed can (cs @ [(phone, path)]) phone (Some rt)"
  by (auto simp: routed_def)

lemma routed_taken:
  assumes "\<forall>phone. routed P cs phone (dget registry phone)" and "dget registry p \<noteq> None"
  shows "\<forall>phone. routed P (cs @ [(p, path)]) phone (dget registry phone)"
proof
  fix phone
  show "routed P (cs @ [(p, path)]) phone (dget registry phone)"
    using assms(1) [THEN spec, of phone] assms(2) routed_more routed_other [of P cs phone _ "(p, path)"]
    by (cases "phone = p") auto
qed

lemma routed_tried:
  assumes "\<forall>phone. routed P cs phone (dget registry phone)" and "dget registry p = None" and "P path r"
  shows "\<forall>phone. routed P (cs @ [(p, path)]) phone
    (dget (case r of Inl _ \<Rightarrow> registry | Inr rt \<Rightarrow> AList.update p rt registry) phone)"
proof
  fix phone
  show "routed P (cs @ [(p, path)]) phone (dget (case r of Inl _ \<Rightarrow> registry | Inr rt \<Rightarrow> AList.update p rt registry) phone)"
  proof (cases "phone = p")
    case True
    with assms assms(1) [THEN spec, of p] show ?thesis
      by (cases r) (simp_all add: routed_failed routed_loaded update_conv)
  next
    case False
    with assms(1) [THEN spec, of phone] have "routed P (cs @ [(p, path)]) phone (dget registry phone)"
      by (simp add: routed_other)
    with False show ?thesis by (cases r) (simp_all add: update_conv)
  qed
qed

text \<open>The contract of a loader: it leaves the files alone.\<close>

locale runtime_loader =
  fixes load :: "string \<Rightarrow> ('s, 'rt) cmd" and files :: "'s \<Rightarrow> disk"
  assumes keeps_files: "files (snd (load path s)) = files s"
begin

definition can :: "disk \<Rightarrow> string \<Rightarrow> 'rt result \<Rightarrow> bool" where
  "can dk path r \<longleftrightarrow> (\<exists>s. files s = dk \<and> fst (load path s) = r)"

lemma load_run:
  assumes "load path s = (r, s')"
  shows "files s' = files s" and "can (files s) path r"
  using keeps_files [of path s] assms by (auto simp: can_def intro!: exI [of _ s])

lemma claim_step:
  assumes inv: "\<forall>phone. routed (can (files s)) cs phone (dget registry phone)"
  obtains registry1 s1 ps
  where "claim_adapters load path (adapter # adapters) registry s = claim_adapters load path adapters registry1 s1"
    and "files s1 = files s"
    and "\<forall>phone. routed (can (files s)) (cs @ map (\<lambda>p. (p, path)) ps) phone (dget registry1 phone)"
    and "phones (adapter # adapters) = ps @ phones adapters"
proof (cases "whatsapp_enabled adapter \<and> nonempty (fa_phone_number_id adapter) \<noteq> None")
  case False
  with inv show ?thesis by (intro that [of registry s "[]"]) (auto simp: phones_def List.map_filter_def)
next
  case True
  then obtain p where p: "whatsapp_enabled adapter" "nonempty (fa_phone_number_id adapter) = Some p" by auto
  then have ph: "phones (adapter # adapters) = [p] @ phones adapters"
    by (simp add: phones_def List.map_filter_def)
  show ?thesis
  proof (cases "dget registry p")
    case (Some rt)
    with p show ?thesis
      by (intro that [of registry s "[p]", OF _ _ _ ph]) (simp_all add: routed_taken [OF inv])
  next
    case free: None
    obtain r s1 where load: "load path s = (r, s1)" by fastforce
    define registry1 where "registry1 = (case r of Inl _ \<Rightarrow> registry | Inr rt \<Rightarrow> AList.update p rt registry)"
    have "\<forall>phone. routed (can (files s)) (cs @ [(p, path)]) phone (dget registry1 phone)"
      unfolding registry1_def by (rule routed_tried [OF inv free load_run(2) [OF load]])
    with p free load load_run(1) [OF load] show ?thesis
      by (intro that [of registry1 s1 "[p]", OF _ _ _ ph])
        (simp_all add: bindC_def catch_def registry1_def split: sum.split)
  qed
qed

lemma claim_adapters_run:
  assumes "\<forall>phone. routed (can (files s)) cs phone (dget registry phone)"
  obtains registry' s' where "claim_adapters load path adapters registry s = (Inr registry', s')"
    and "files s' = files s"
    and "\<forall>phone. routed (can (files s)) (cs @ map (\<lambda>p. (p, path)) (phones adapters)) phone (dget registry' phone)"
  using assms
proof (induction adapters arbitrary: cs registry s thesis)
  case Nil
  show ?case by (rule Nil(1) [of registry s]) (simp_all add: phones_def List.map_filter_def Nil(2))
next
  case (Cons adapter adapters)
  obtain registry1 s1 ps
    where step: "claim_adapters load path (adapter # adapters) registry s = claim_adapters load path adapters registry1 s1"
      and keep: "files s1 = files s"
      and d1: "\<forall>phone. routed (can (files s)) (cs @ map (\<lambda>p. (p, path)) ps) phone (dget registry1 phone)"
      and ps: "phones (adapter # adapters) = ps @ phones adapters"
    by (rule claim_step [OF Cons.prems(2)])
  obtain registry' s' where run: "claim_adapters load path adapters registry1 s1 = (Inr registry', s')" "files s' = files s1"
    and d: "\<forall>phone. routed (can (files s1)) ((cs @ map (\<lambda>p. (p, path)) ps) @ map (\<lambda>p. (p, path)) (phones adapters))
      phone (dget registry' phone)"
    by (rule Cons.IH [where s = s1, OF _ d1 [folded keep]])
  show ?case
    by (rule Cons.prems(1) [OF step [THEN trans, OF run(1)] run(2) [THEN trans, OF keep]]) (use d keep ps in simp)
qed

lemma scan_step:
  assumes inv: "\<forall>phone. routed (can (files s)) cs phone (dget registry phone)"
  obtains registry1 s1
  where "scan_businesses io files load (path # paths) registry s = scan_businesses io files load paths registry1 s1"
    and "files s1 = files s"
    and "\<forall>phone. routed (can (files s)) (cs @ claims_of io (files s) path) phone (dget registry1 phone)"
proof (cases "fst (load_business_config io path (files s))")
  case (Inl e)
  then have "e = BusinessConfigError" by (metis load_raises prod.collapse)
  with Inl inv show ?thesis
    by (intro that [of registry s]) (simp_all add: bindC_def catch_def read_config_def claims_of_def)
next
  case (Inr c)
  show ?thesis
  proof (cases "bc_enabled c")
    case False
    with Inr inv show ?thesis
      by (intro that [of registry s]) (simp_all add: bindC_def catch_def read_config_def claims_of_def)
  next
    case True
    obtain registry1 s1 where run: "claim_adapters load path (bc_frontend_adapters c) registry s = (Inr registry1, s1)"
      and keep: "files s1 = files s"
      and d: "\<forall>phone. routed (can (files s)) (cs @ map (\<lambda>p. (p, path)) (phones (bc_frontend_adapters c))) phone (dget registry1 phone)"
      by (rule claim_adapters_run [OF inv])
    show ?thesis
      by (rule that [OF _ keep]) (use Inr True run d in \<open>simp_all add: bindC_def catch_def read_config_def claims_of_def\<close>)
  qed
qed

lemma scan_run:
  assumes "\<forall>phone. routed (can (files s)) cs phone (dget registry phone)"
  obtains registry' s' where "scan_businesses io files load paths registry s = (Inr registry', s')"
    and "files s' = files s"
    and "\<forall>phone. routed (can (files s)) (cs @ concat (map (claims_of io (files s)) paths)) phone (dget registry' phone)"
  using assms
proof (induction paths arbitrary: cs registry s thesis)
  case Nil
  show ?case by (rule Nil(1) [of registry s]) (simp_all add: Nil(2))
next
  case (Cons path paths)
  obtain registry1 s1
    where step: "scan_businesses io files load (path # paths) registry s = scan_businesses io files load paths registry1 s1"
      and keep: "files s1 = files s"
      and d1: "\<forall>phone. routed (can (files s)) (cs @ claims_of io (files s) path) phone (dget registry1 phone)"
    by (rule scan_step [OF Cons.prems(2)])
  obtain registry' s' where run: "scan_businesses io files load paths registry1 s1 = (Inr registry', s')" "files s' = files s1"
    and d: "\<forall>phone. routed (can (files s1)) ((cs @ claims_of io (files s) path)
      @ concat (map (claims_of io (files s1)) paths)) phone (dget registry' phone)"
    by (rule Cons.IH [where s = s1, OF _ d1 [folded keep]]) (simp add: keep)
  show ?case
    by (rule Cons.prems(1) [OF step [THEN trans, OF run(1)] run(2) [THEN trans, OF keep]]) (use d keep in simp)
qed

lemma registry_run:
  obtains registry s' where "build_business_registry io files load businesses_dir s = (Inr registry, s')"
    and "files s' = files s"
    and "\<And>phone. routed (can (files s)) (claims io (files s) businesses_dir) phone (dget registry phone)"
proof -
  have "\<forall>phone. routed (can (files s)) [] phone (dget [] phone)" by (simp add: routed_nothing)
  then obtain registry s' where "scan_businesses io files load (business_yaml_paths businesses_dir (files s)) [] s = (Inr registry, s')"
    "files s' = files s" "\<forall>phone. routed (can (files s))
       ([] @ concat (map (claims_of io (files s)) (business_yaml_paths businesses_dir (files s)))) phone (dget registry phone)"
    by (rule scan_run) (rule that)
  then show thesis
    by (intro that [of registry s']) (simp_all add: build_business_registry_def bindC_def claims_def)
qed

end

subsection \<open>The loader of the program\<close>

text \<open>
  The files are shared by all Businesses; everything else of a Business's world (its database, its
  customers, its providers) is its own.
\<close>

type_synonym 'x platform = "disk \<times> (string \<Rightarrow> 'x world)"

definition load_business :: "'x libraries \<Rightarrow> string \<Rightarrow> ('x platform, (sqlite_store, 'x world) runtime) cmd" where
  "load_business lib path = (\<lambda>(dk, worlds).
     case load_conversation_runtime lib path ((worlds path)\<lparr>wd_disk := dk\<rparr>) of
       (r, w) \<Rightarrow> (r, (wd_disk w, worlds(path := w))))"

definition keeps_disk :: "('x world, 'a) cmd \<Rightarrow> bool" where
  "keeps_disk m \<longleftrightarrow> (\<forall>w. wd_disk (snd (m w)) = wd_disk w)"

lemma keeps_disk_bindC: "keeps_disk m \<Longrightarrow> (\<And>x. keeps_disk (f x)) \<Longrightarrow> keeps_disk (bindC m f)"
  by (auto simp: keeps_disk_def bindC_def split: prod.splits sum.splits) (metis snd_conv)+

lemma keeps_disk_parts:
  "keeps_disk (ret x)" "keeps_disk (raise e)" "keeps_disk (liftR r)" "keeps_disk (in_db mdb)" "keeps_disk (outside mx)"
  "(\<And>dk. snd (mdk dk) = dk) \<Longrightarrow> keeps_disk (in_disk mdk)"
  by (auto simp: keeps_disk_def in_db_def outside_def in_google_def in_disk_def zoom_def split: prod.splits)
    (metis snd_conv)

lemma load_conversation_runtime_keeps_disk: "keeps_disk (load_conversation_runtime lib path)"
  unfolding load_conversation_runtime_def load_agent_core_def build_tool_provider_def
  by (intro keeps_disk_bindC) (auto intro!: keeps_disk_bindC keeps_disk_parts split: sum.split
      dest: load_keeps_disk intro: load_keeps_disk [OF prod.collapse [symmetric]])

lemma load_business_keeps_files: "fst (snd (load_business lib path s)) = fst s"
  using load_conversation_runtime_keeps_disk [of lib path]
  by (cases s) (simp add: load_business_def keeps_disk_def case_prod_beta)

interpretation businesses: runtime_loader "load_business lib" fst for lib
  by unfold_locales (rule load_business_keeps_files)

text \<open>
  C21: the registry isolates its Businesses. Built with the program's loader, the registry is
  always delivered, leaves the files as they are, and routes every phone number to the first of
  its claimants, in the order of the scan, whose runtime loaded; each claimant before it is one
  whose loading can fail on these files, and a number nobody is routed for has only such claimants.
  A Business whose configuration does not load, or that is disabled, claims nothing and stops nobody.
\<close>

theorem registry_routes_first_loaded:
  "\<exists>registry worlds. build_business_registry io fst (load_business lib) businesses_dir (dk, ws) = (Inr registry, (dk, worlds))
     \<and> (\<forall>phone. routed (\<lambda>path r. \<exists>ws'. fst (load_business lib path (dk, ws')) = r)
           (claims io dk businesses_dir) phone (dget registry phone))"
proof -
  obtain registry s' where "build_business_registry io fst (load_business lib) businesses_dir (dk, ws) = (Inr registry, s')"
    and "fst s' = fst (dk, ws)"
    and routes: "\<And>phone. routed (businesses.can lib (fst (dk, ws))) (claims io (fst (dk, ws)) businesses_dir) phone (dget registry phone)"
    by (rule businesses.registry_run [where s = "(dk, ws)" and lib = lib and io = io and businesses_dir = businesses_dir]) (rule that)
  moreover have "businesses.can lib dk = (\<lambda>path r. \<exists>ws'. fst (load_business lib path (dk, ws')) = r)"
    by (auto simp: businesses.can_def fun_eq_iff)
  ultimately show ?thesis by (cases s') auto
qed

text \<open>The deferred load never fails, and keeps what it does not replace.\<close>

lemma populate_registry:
  obtains loaded worlds where
    "populate_business_registry io fst (load_business lib) businesses_dir registry (dk, ws) = (Inr (dmerge registry loaded), (dk, worlds))"
    and "build_business_registry io fst (load_business lib) businesses_dir (dk, ws) = (Inr loaded, (dk, worlds))"
proof -
  obtain loaded s' where "build_business_registry io fst (load_business lib) businesses_dir (dk, ws) = (Inr loaded, s')"
    and "fst s' = fst (dk, ws)"
    by (rule businesses.registry_run [where s = "(dk, ws)" and lib = lib and io = io and businesses_dir = businesses_dir])
  then show thesis
    by (intro that [of loaded "snd s'"]) (auto simp: populate_business_registry_def catch_def bindC_def)
qed

end
