(* ===== verification/Deployment.thy ===== *)
theory Deployment
  imports Whatsapp Whatsapp_Registry
begin

text \<open>
  The WhatsApp process as a whole (\<open>create_app\<close> in \<open>interfaces/whatsapp/app.py\<close>): its settings, its
  initial state, and the runs it can make. The registry the Interface Layer holds starts empty and is
  filled by the deferred load; while it serves, the Businesses' own states may change under it
  (owners edit tables, other processes share the files), which a step of its own allows for.
\<close>

subsection \<open>Starting\<close>

record cors_settings =
  co_allow_origins :: "string list"
  co_allow_credentials :: bool
  co_allow_methods :: "string list"
  co_allow_headers :: "string list"

text \<open>What \<open>create_app\<close> finds around it: number parsing, HMAC, the JSON parser, the network, the files.\<close>

record ('x, 'h) surroundings =
  su_int :: "string \<Rightarrow> int result"
  su_float :: "string \<Rightarrow> time result"
  su_hmac_hex :: "string \<Rightarrow> string \<Rightarrow> string"
  su_loads :: "string \<Rightarrow> json option"
  su_post :: "http_post \<Rightarrow> ('h, unit) cmd"
  su_net :: 'h
  su_platform :: "'x platform"
  su_conv :: "string \<Rightarrow> (sqlite_store, 'x world) conv_state"

record ('x, 'h) application =
  pl_env :: "(sqlite_store, 'x world, 'h) webhook_env"
  pl_hook :: "(sqlite_store, 'x world, 'h) webhook_state"
  pl_platform :: "'x platform"
  pl_cors :: cors_settings
  pl_businesses_dir :: string
  pl_admin_db :: string

fun split_on :: "char \<Rightarrow> string \<Rightarrow> string list" where
  "split_on c [] = [[]]"
| "split_on c (x # xs) = (if x = c then [] # split_on c xs
     else case split_on c xs of [] \<Rightarrow> [[x]] | part # parts \<Rightarrow> (x # part) # parts)"

definition admin_origins :: "string dict \<Rightarrow> string list" where
  "admin_origins environ =
     filter (\<lambda>origin. origin \<noteq> [])
       (map py_strip (split_on CHR '','' (dget_default environ ''ADMIN_CORS_ORIGINS'' ''http://localhost:5173'')))"

definition admin_cors :: "string dict \<Rightarrow> cors_settings" where
  "admin_cors environ =
     \<lparr>co_allow_origins = admin_origins environ, co_allow_credentials = False,
      co_allow_methods = [''GET'', ''POST'', ''PATCH'', ''DELETE''],
      co_allow_headers = [''Authorization'', ''Content-Type'']\<rparr>"

definition health :: "string dict" where
  "health = [(''status'', ''ok'')]"

definition create_app :: "('x, 'h) surroundings \<Rightarrow> string dict \<Rightarrow> ('x, 'h) application result" where
  "create_app su environ =
     bindR (su_int su (dget_default environ ''RATE_LIMIT_PER_MINUTE'' ''20'')) (\<lambda>max_per_minute.
     bindR (su_float su (dget_default environ ''DEDUPE_TTL_SECONDS'' ''86400'')) (\<lambda>ttl_seconds.
     bindR (dict_index environ ''WHATSAPP_VERIFY_TOKEN'') (\<lambda>verify_token.
     bindR (dict_index environ ''WHATSAPP_APP_SECRET'') (\<lambda>app_secret.
     bindR (dict_index environ ''WHATSAPP_ACCESS_TOKEN'') (\<lambda>access_token.
     Inr \<lparr>pl_env = \<lparr>we_registry = [], we_verify_token = verify_token, we_app_secret = app_secret,
                     we_access_token = access_token, we_hmac_hex = su_hmac_hex su, we_loads = su_loads su,
                     we_post = su_post su\<rparr>,
          pl_hook = \<lparr>wh_layer = \<lparr>il_dedupe = dedupe_init ttl_seconds,
                                 il_limiter = limiter_init max_per_minute (lm_idle_ttl_seconds default_limiter),
                                 il_conv = su_conv su\<rparr>,
                     wh_net = su_net su, wh_sent = []\<rparr>,
          pl_platform = su_platform su, pl_cors = admin_cors environ,
          pl_businesses_dir = dget_default environ ''BUSINESSES_DIR'' ''businesses'',
          pl_admin_db = dget_default environ ''SESSION_DB_DIR'' ''data'' @ ''/admin.sqlite3''\<rparr>)))))"

subsection \<open>Running\<close>

text \<open>A delivery with its outcome and what it sent; the deferred load; a change from outside.\<close>

datatype app_event =
    Deliver "time \<times> time" string "string option" "http_response result" "http_post list"
  | RegistryLoaded
  | Elsewhere

definition with_conv ::
  "(string \<Rightarrow> (sqlite_store, 'x world) conv_state) \<Rightarrow> (sqlite_store, 'x world, 'h) webhook_state
     \<Rightarrow> (sqlite_store, 'x world, 'h) webhook_state" where
  "with_conv conv h = h\<lparr>wh_layer := (wh_layer h)\<lparr>il_conv := conv\<rparr>\<rparr>"

inductive app_step ::
  "config_io \<Rightarrow> 'x libraries \<Rightarrow> ('x, 'h) application \<Rightarrow> app_event \<Rightarrow> ('x, 'h) application \<Rightarrow> bool"
  for io lib where
  deliver: "receive_webhook (pl_env a) clock body header (pl_hook a) = (r, h) \<Longrightarrow>
     app_step io lib a (Deliver clock body header r (drop (length (wh_sent (pl_hook a))) (wh_sent h))) (a\<lparr>pl_hook := h\<rparr>)"
| loaded: "populate_business_registry io fst (load_business lib) (pl_businesses_dir a) (we_registry (pl_env a)) (pl_platform a)
       = (Inr registry, platform) \<Longrightarrow>
     app_step io lib a RegistryLoaded (a\<lparr>pl_env := (pl_env a)\<lparr>we_registry := registry\<rparr>, pl_platform := platform,
       pl_hook := with_conv conv (pl_hook a)\<rparr>)"
| elsewhere: "app_step io lib a Elsewhere (a\<lparr>pl_platform := platform, pl_hook := with_conv conv (pl_hook a)\<rparr>)"

inductive app_run ::
  "config_io \<Rightarrow> 'x libraries \<Rightarrow> ('x, 'h) application \<Rightarrow> app_event list \<Rightarrow> ('x, 'h) application \<Rightarrow> bool"
  for io lib a0 where
  start: "app_run io lib a0 [] a0"
| step: "app_run io lib a0 evs a \<Longrightarrow> app_step io lib a ev b \<Longrightarrow> app_run io lib a0 (evs @ [ev]) b"

fun posts_of :: "app_event \<Rightarrow> http_post list" where
  "posts_of (Deliver clock body header r posts) = posts"
| "posts_of _ = []"

definition delivery_times :: "app_event list \<Rightarrow> time list" where
  "delivery_times evs = List.map_filter (\<lambda>ev. case ev of Deliver clock _ _ _ _ \<Rightarrow> Some (fst clock) | _ \<Rightarrow> None) evs"

text \<open>
  The over-long notice a delivery owes: a signed delivery of a message beyond the length bound.
\<close>

definition notice_due :: "('ss, 'w, 'h) webhook_env \<Rightarrow> app_event \<Rightarrow> http_post option" where
  "notice_due env ev = (case ev of
     Deliver clock body header r posts \<Rightarrow>
       (if verify_signature (we_hmac_hex env) body header (we_app_secret env) = Inr True
        then (case delivered env body of
            Inr (Some parsed) \<Rightarrow>
              if max_message_length < py_len (pm_text parsed)
              then Some (message_post (pm_phone_number_id parsed) (we_access_token env)
                           (text_payload (pm_customer_id parsed) (Some too_long_text)))
              else None
          | _ \<Rightarrow> None)
        else None)
   | _ \<Rightarrow> None)"

text \<open>
  The message within the length bound that a delivery answered, with the time it was handled.
\<close>

definition answered :: "('ss, 'w, 'h) webhook_env \<Rightarrow> app_event \<Rightarrow> (string \<times> time) option" where
  "answered env ev = (case ev of
     Deliver clock body header r posts \<Rightarrow>
       (case delivered env body of
          Inr (Some parsed) \<Rightarrow>
            if posts \<noteq> [] \<and> py_len (pm_text parsed) \<le> max_message_length then Some (pm_message_id parsed, fst clock) else None
        | _ \<Rightarrow> None)
   | _ \<Rightarrow> None)"

definition answers :: "('ss, 'w, 'h) webhook_env \<Rightarrow> app_event list \<Rightarrow> (string \<times> time) list" where
  "answers env evs = List.map_filter (answered env) evs"

subsection \<open>One delivery\<close>

lemma receive_sent:
  assumes "receive_webhook env clock body header s = (r, s')"
  obtains posts where "wh_sent s' = wh_sent s @ posts"
  using assms by (cases rule: webhook_cases) auto

lemma receive_limiter:
  assumes "receive_webhook env clock body header s = (r, s')" and "lm_inv (il_limiter (wh_layer s))"
  shows "lm_inv (il_limiter (wh_layer s'))"
proof -
  have "lm_inv (il_limiter l')" if "process reg q clock (wh_layer s) = (res, l')" for reg q res l'
    using process_limiter [of reg q "fst clock" "snd clock" "wh_layer s" res l'] that assms(2) allow_keeps_inv
    by (auto split: if_splits)
  with assms show ?thesis by (cases rule: webhook_cases) auto
qed

lemma answered_silent [simp]: "answered env (Deliver clock body header r []) = None"
  by (simp add: answered_def split: sum.split option.split)

lemma delivered_registry [simp]: "delivered (env\<lparr>we_registry := registry\<rparr>) body = delivered env body"
  by (simp add: delivered_def)

text \<open>What a delivery does to the dedupe store, and whether it counts as answered.\<close>

lemma receive_dedupe:
  assumes "receive_webhook env (t, u) body header s = (r, s')"
    and "wh_sent s' = wh_sent s @ posts"
  obtains (untouched) "il_dedupe (wh_layer s') = il_dedupe (wh_layer s)"
      "answered env (Deliver (t, u) body header r posts) = None"
  | (offered) i dup where "is_duplicate i t (il_dedupe (wh_layer s)) = (dup, il_dedupe (wh_layer s'))"
      "answered env (Deliver (t, u) body header r posts) \<in> (if dup then {None} else {None, Some (i, t)})"
  using assms(1)
proof (cases rule: webhook_cases)
  case (too_long parsed m)
  with assms(2) show ?thesis by (intro untouched) (simp_all add: answered_def)
next
  case (crashed parsed e)
  with assms(2) process_dedupe [OF crashed(4)] show ?thesis
    by (intro offered) (simp_all add: answered_def inbound_of_def)
next
  case (processed parsed result m)
  from process_dedupe [OF processed(4)] have dup: "is_duplicate (pm_message_id parsed) t (il_dedupe (wh_layer s)) =
      (was_duplicate (Inr result), il_dedupe (wh_layer s'))"
    by (simp add: inbound_of_def)
  have "was_duplicate (Inr result) \<Longrightarrow> posts = []"
    using processed(5,7) assms(2) by (simp add: was_duplicate_def bare_response_def answer_payloads_def)
  then show ?thesis
    using processed(2,3) by (intro offered [OF dup]) (simp add: answered_def)
qed (use assms(2) untouched in simp_all)

text \<open>What a delivery sends: the notice it owes, or at most one answer.\<close>

lemma receive_posts:
  assumes "receive_webhook env clock body header s = (r, s')" and "wh_sent s' = wh_sent s @ posts"
  shows "case notice_due env (Deliver clock body header r posts) of
      Some p \<Rightarrow> posts = [p]
    | None \<Rightarrow> posts = [] \<or> length posts = 1 \<and> answered env (Deliver clock body header r posts) \<noteq> None"
  using assms(1)
proof (cases rule: webhook_cases)
  case (processed parsed result posts')
  with assms(2) have "posts = map (message_post (pm_phone_number_id parsed) (we_access_token env)) (answer_payloads parsed result)"
    by simp
  then have "length posts \<le> 1" by (simp add: answer_payloads_def)
  with processed(1-3) show ?thesis by (cases posts) (simp_all add: notice_due_def answered_def)
qed (use assms(2) in \<open>simp_all add: notice_due_def answered_def\<close>)

subsection \<open>Invariants of a run\<close>

lemma app_step_env:
  assumes "app_step io lib a ev b"
  obtains registry where "pl_env b = (pl_env a)\<lparr>we_registry := registry\<rparr>"
  using assms by cases (auto intro: that [of "we_registry (pl_env a)"] that)

lemma app_run_env:
  assumes "app_run io lib a0 evs a"
  obtains registry where "pl_env a = (pl_env a0)\<lparr>we_registry := registry\<rparr>"
  using assms
proof (induction arbitrary: thesis)
  case start
  show ?case by (rule start [of "we_registry (pl_env a0)"]) simp
next
  case (step evs a ev b)
  from step.IH obtain registry where "pl_env a = (pl_env a0)\<lparr>we_registry := registry\<rparr>" by blast
  moreover obtain registry' where "pl_env b = (pl_env a)\<lparr>we_registry := registry'\<rparr>"
    using step.hyps(2) by (rule app_step_env)
  ultimately show ?case by (intro step.prems [of registry']) simp
qed

lemma answered_registry [simp]: "answered (env\<lparr>we_registry := registry\<rparr>) ev = answered env ev"
  by (cases ev) (simp_all add: answered_def)

lemma notice_registry [simp]: "notice_due (env\<lparr>we_registry := registry\<rparr>) ev = notice_due env ev"
  by (cases ev) (simp_all add: notice_due_def split: sum.split option.split)

text \<open>What an event of a run sent.\<close>

definition posts_due :: "('ss, 'w, 'h) webhook_env \<Rightarrow> app_event \<Rightarrow> bool" where
  "posts_due env ev \<longleftrightarrow> (case notice_due env ev of
      Some p \<Rightarrow> posts_of ev = [p]
    | None \<Rightarrow> posts_of ev = [] \<or> length (posts_of ev) = 1 \<and> answered env ev \<noteq> None)"

lemma app_step_posts:
  assumes "app_step io lib a ev b"
  shows "posts_due (pl_env a) ev"
  using assms
proof cases
  case (deliver clock body header r h)
  obtain posts where "wh_sent h = wh_sent (pl_hook a) @ posts" by (rule receive_sent [OF deliver(3)])
  with receive_posts [OF deliver(3)] deliver(1) show ?thesis by (simp add: posts_due_def split: option.splits)
qed (simp_all add: posts_due_def notice_due_def)

lemma app_run_posts: "app_run io lib a0 evs a \<Longrightarrow> ev \<in> set evs \<Longrightarrow> posts_due (pl_env a0) ev"
proof (induction rule: app_run.induct)
  case (step evs a ev' b)
  obtain registry where "pl_env a = (pl_env a0)\<lparr>we_registry := registry\<rparr>"
    using step.hyps(1) by (rule app_run_env)
  with app_step_posts [OF step.hyps(2)] have "posts_due (pl_env a0) ev'" by (simp add: posts_due_def split: option.splits)
  with step show ?case by auto
qed simp

lemma app_step_sent:
  assumes "app_step io lib a ev b"
  shows "wh_sent (pl_hook b) = wh_sent (pl_hook a) @ posts_of ev"
  using assms
proof cases
  case (deliver clock body header r h)
  obtain posts where "wh_sent h = wh_sent (pl_hook a) @ posts" by (rule receive_sent [OF deliver(3)])
  with deliver(1,2) show ?thesis by simp
qed (simp_all add: with_conv_def)

lemma app_run_sent: "app_run io lib a0 evs a \<Longrightarrow> wh_sent (pl_hook a) = wh_sent (pl_hook a0) @ concat (map posts_of evs)"
  by (induction rule: app_run.induct) (simp_all add: app_step_sent)

lemma app_run_limiter:
  assumes "app_run io lib a0 evs a" and "lm_inv (il_limiter (wh_layer (pl_hook a0)))"
  shows "lm_inv (il_limiter (wh_layer (pl_hook a)))"
  using assms
proof induction
  case (step evs a ev b)
  from step.hyps(2) step.IH [OF step.prems] show ?case
    by cases (auto simp: with_conv_def dest: receive_limiter)
qed simp

definition spaced :: "time \<Rightarrow> (string \<times> time) list \<Rightarrow> bool" where
  "spaced ttl xs \<longleftrightarrow> sorted_wrt (\<lambda>(i, t) (j, u). i = j \<longrightarrow> ttl < u - t) xs"

text \<open>
  The dedupe store of a running application: it holds the young part of a log of accepted deliveries,
  in which every answered one is, at the time it was handled.
\<close>

definition deduped :: "time \<Rightarrow> time list \<Rightarrow> (string \<times> time) list \<Rightarrow> dedupe_store \<Rightarrow> bool" where
  "deduped ttl before accepted d \<longleftrightarrow> dd_ttl_seconds d = ttl \<and> spaced ttl accepted \<and>
     (\<exists>now hist. dedupe_rel now hist d \<and> set accepted \<subseteq> set hist \<and> (now \<in> set before \<or> hist = [] \<and> dd_seen d = []))"

lemma deduped_start: "deduped ttl [] [] (dedupe_init ttl)"
  by (auto simp: deduped_def spaced_def dedupe_init_def dedupe_rel_def)

lemma deduped_offer:
  assumes "deduped ttl before accepted d" and "0 \<le> ttl" and "\<forall>x \<in> set before. x \<le> t"
    and offer: "is_duplicate i t d = (dup, d')" and more: "new = [] \<or> \<not> dup \<and> new = [(i, t)]"
  shows "deduped ttl (before @ [t]) (accepted @ new) d'"
proof -
  obtain now hist where rel: "dedupe_rel now hist d" and sub: "set accepted \<subseteq> set hist"
    and now: "now \<in> set before \<or> hist = [] \<and> dd_seen d = []" and ttl: "dd_ttl_seconds d = ttl" and old: "spaced ttl accepted"
    using assms(1) by (auto simp: deduped_def)
  obtain now' where rel': "dedupe_rel now' hist d" and "now' \<le> t"
    using now rel assms(3) by (cases "now \<in> set before") (auto simp: dedupe_rel_def)
  note step = is_duplicate_step [OF rel' \<open>now' \<le> t\<close> _ offer] 
  have "spaced ttl (accepted @ new)"
  proof (cases "new = []")
    case False
    then have "\<not> seen_within ttl hist i t" and new: "new = [(i, t)]" using step(1) more ttl assms(2) by auto
    then have "\<forall>(j, u) \<in> set accepted. j = i \<longrightarrow> ttl < t - u"
      using sub by (fastforce simp: seen_within_def list_ex_iff)
    then show ?thesis using old new by (fastforce simp: spaced_def sorted_wrt_append)
  qed (use old in simp)
  moreover have "set (accepted @ new) \<subseteq> set (if dup then hist else hist @ [(i, t)])"
    using sub more by auto
  ultimately show ?thesis
    using step(2,3) ttl assms(2) unfolding deduped_def by (intro conjI exI [of _ t] exI) auto
qed

lemma deduped_later: "deduped ttl before accepted d \<Longrightarrow> deduped ttl (before @ later) accepted d"
  by (auto simp: deduped_def)

lemma deliver_deduped:
  assumes inv: "deduped ttl before accepted (il_dedupe (wh_layer h0))" and "0 \<le> ttl" and "\<forall>x \<in> set before. x \<le> t"
    and run: "receive_webhook env (t, u) body header h0 = (r, h)" and "wh_sent h = wh_sent h0 @ posts"
    and new: "new = (case answered env (Deliver (t, u) body header r posts) of None \<Rightarrow> [] | Some x \<Rightarrow> [x])"
  shows "deduped ttl (before @ [t]) (accepted @ new) (il_dedupe (wh_layer h))"
  using assms(4,5)
proof (cases rule: receive_dedupe)
  case untouched
  with inv show ?thesis by (simp add: new deduped_later)
next
  case (offered i dup)
  then have "new = [] \<or> \<not> dup \<and> new = [(i, t)]" unfolding new by (auto split: if_splits)
  from deduped_offer [OF inv assms(2,3) offered(1) this] show ?thesis .
qed

lemma app_run_deduped:
  assumes "app_run io lib a0 evs a" and "il_dedupe (wh_layer (pl_hook a0)) = dedupe_init ttl" and "0 \<le> ttl"
    and "sorted (delivery_times evs)"
  shows "deduped ttl (delivery_times evs) (answers (pl_env a0) evs) (il_dedupe (wh_layer (pl_hook a)))"
  using assms
proof induction
  case start
  then show ?case by (simp add: delivery_times_def answers_def List.map_filter_def deduped_start)
next
  case (step evs a ev b)
  have times: "delivery_times (evs @ [ev]) = delivery_times evs @ delivery_times [ev]"
    and ans: "answers (pl_env a0) (evs @ [ev]) = answers (pl_env a0) evs @ answers (pl_env a0) [ev]"
    by (simp_all add: delivery_times_def answers_def List.map_filter_def)
  have sorted: "sorted (delivery_times evs)" "\<forall>x \<in> set (delivery_times evs). \<forall>y \<in> set (delivery_times [ev]). x \<le> y"
    using step.prems(3) by (simp_all add: times sorted_append)
  note IH = step.IH [OF step.prems(1,2) sorted(1)]
  obtain registry where env: "pl_env a = (pl_env a0)\<lparr>we_registry := registry\<rparr>"
    using step.hyps(1) by (rule app_run_env)
  have new: "answers (pl_env a0) [ev] = (case answered (pl_env a) ev of None \<Rightarrow> [] | Some x \<Rightarrow> [x])"
    by (simp add: answers_def List.map_filter_def env answered_def split: option.split app_event.split)
  show ?case
    using step.hyps(2)
  proof cases
    case (deliver clock body header r h)
    obtain t u where clock: "clock = (t, u)" by (cases clock)
    obtain posts where posts: "wh_sent h = wh_sent (pl_hook a) @ posts" by (rule receive_sent [OF deliver(3)])
    have ev: "ev = Deliver (t, u) body header r posts" using deliver(1) posts clock by simp
    have t: "delivery_times [ev] = [t]" and before: "\<forall>x \<in> set (delivery_times evs). x \<le> t"
      using sorted(2) by (simp_all add: ev delivery_times_def List.map_filter_def)
    from deliver_deduped [OF IH step.prems(2) before deliver(3) [unfolded clock] posts new [unfolded ev]] deliver(2)
    show ?thesis unfolding times ans t by (simp add: ev)
  next
    case (loaded registry platform conv)
    with IH new show ?thesis unfolding times ans
      by (simp add: delivery_times_def List.map_filter_def answered_def with_conv_def)
  next
    case (elsewhere platform conv)
    with IH new show ?thesis unfolding times ans
      by (simp add: delivery_times_def List.map_filter_def answered_def with_conv_def)
  qed
qed

subsection \<open>What holds of every run\<close>

lemma create_app_start:
  assumes "create_app su environ = Inr a0"
  obtains ttl where "su_float su (dget_default environ ''DEDUPE_TTL_SECONDS'' ''86400'') = Inr ttl"
    and "il_dedupe (wh_layer (pl_hook a0)) = dedupe_init ttl"
    and "lm_inv (il_limiter (wh_layer (pl_hook a0)))" and "wh_sent (pl_hook a0) = []"
  using assms
  by (auto simp: create_app_def bindR_Inr_iff lm_inv_def limiter_init_def)

text \<open>
  C7: a message within the length bound is answered at most once within the dedupe lifetime,
  whatever else the process does. In every run of the application from its start, under a clock that
  never goes back, with deliveries signed or not, in any order, repeated any number of times, while
  the registry is being loaded and the Businesses change underneath: two deliveries of messages with
  the same id that each had an answer sent are more than the lifetime the environment sets apart.
  Over-long messages are outside this: every signed delivery of one, a retry included, sends its
  sender the same over-long notice, because the router sends it before dedupe and the rate limit.
  Nothing else is sent: a delivery sends its notice, one answer, or nothing, and what was sent
  altogether is what the deliveries sent, in order.
\<close>

theorem answered_at_most_once:
  assumes "create_app su environ = Inr a0" and "app_run io lib a0 evs a"
    and "su_float su (dget_default environ ''DEDUPE_TTL_SECONDS'' ''86400'') = Inr ttl" and "0 \<le> ttl"
    and "sorted (delivery_times evs)"
  shows "sorted_wrt (\<lambda>(i, t) (j, u). i = j \<longrightarrow> ttl < u - t) (answers (pl_env a0) evs)
    \<and> (\<forall>ev \<in> set evs. case notice_due (pl_env a0) ev of
          Some p \<Rightarrow> posts_of ev = [p]
        | None \<Rightarrow> posts_of ev = [] \<or> length (posts_of ev) = 1 \<and> answered (pl_env a0) ev \<noteq> None)
    \<and> wh_sent (pl_hook a) = concat (map posts_of evs)"
proof -
  obtain ttl' where start: "su_float su (dget_default environ ''DEDUPE_TTL_SECONDS'' ''86400'') = Inr ttl'"
    "il_dedupe (wh_layer (pl_hook a0)) = dedupe_init ttl'" "wh_sent (pl_hook a0) = []"
    using assms(1) by (rule create_app_start)
  have "deduped ttl (delivery_times evs) (answers (pl_env a0) evs) (il_dedupe (wh_layer (pl_hook a)))"
    by (rule app_run_deduped [OF assms(2) _ assms(4,5)]) (use start(1,2) assms(3) in simp)
  then show ?thesis
    using app_run_sent [OF assms(2)] app_run_posts [OF assms(2)] start(3)
    by (auto simp: deduped_def spaced_def posts_due_def)
qed

text \<open>A fresh request within the budget reaches its Business's runtime.\<close>

lemma process_fresh:
  assumes "lm_inv (il_limiter l)" and "ir_message_id q \<notin> set (dkeys (dd_seen (il_dedupe l)))"
    and "int (length (in_window u (dget_default (lm_timestamps (il_limiter l)) (ir_rate_limit_key q) [])))
           < lm_max_per_minute (il_limiter l)"
    and "dget reg (ir_business_key q) = Some rt"
    and "handle_message rt (ir_session_key q) (ir_message_text q) (il_conv l (ir_business_key q)) = (Inr reply, c)"
  obtains l' where "process reg q (t, u) l = (Inr \<lparr>or_status = StatusOk, or_text = Some reply,
        or_awaiting_confirmation = (so_get_pending (rt_session rt) (cv_session c) (ir_session_key q) \<noteq> None)\<rparr>, l')"
    and "il_conv l' = (il_conv l)(ir_business_key q := c)"
proof -
  obtain lim where allowed: "allow (ir_rate_limit_key q) u (il_limiter l) = (Inr True, lim)"
    using assms(1,3) allow_run by fastforce
  have "set (evict_loop cutoff xs) \<subseteq> set xs" for cutoff and xs :: "(string \<times> time) list"
    by (induction cutoff xs rule: evict_loop.induct) auto
  then have "ir_message_id q \<notin> set (dkeys (dd_seen (evict_expired t (il_dedupe l))))"
    using assms(2) by (auto simp: evict_expired_def)
  then obtain d where fresh: "is_duplicate (ir_message_id q) t (il_dedupe l) = (False, d)"
    by (simp add: is_duplicate_def Let_def)
  show thesis
    by (rule that [OF process_handled [OF fresh allowed assms(4,5), unfolded mapR_simps]]) simp
qed

text \<open>
  C8: a fresh message is answered. In every state the application can reach, a signed, readable
  message within the length bound whose id the dedupe store does not hold and whose sender is
  within the budget, to a phone number the registry knows, is handled by that Business's runtime
  right away: if the runtime replies, exactly one message goes out, the reply to the sender, with
  buttons exactly when a confirmation is awaited, and the Business is left in the state the
  runtime left.
\<close>

theorem fresh_message_is_answered:
  assumes "create_app su environ = Inr a0" and "app_run io lib a0 evs a"
    and "verify_signature (we_hmac_hex (pl_env a)) body header (we_app_secret (pl_env a)) = Inr True"
    and "delivered (pl_env a) body = Inr (Some parsed)" and "py_len (pm_text parsed) \<le> max_message_length"
    and "pm_message_id parsed \<notin> set (dkeys (dd_seen (il_dedupe (wh_layer (pl_hook a)))))"
    and "int (length (in_window u (dget_default (lm_timestamps (il_limiter (wh_layer (pl_hook a))))
           (whatsapp_key (pm_customer_id parsed)) []))) < lm_max_per_minute (il_limiter (wh_layer (pl_hook a)))"
    and "dget (we_registry (pl_env a)) (pm_phone_number_id parsed) = Some rt"
    and "handle_message rt (whatsapp_key (pm_customer_id parsed)) (pm_text parsed)
           (il_conv (wh_layer (pl_hook a)) (pm_phone_number_id parsed)) = (Inr reply, c)"
  shows "\<exists>r h. receive_webhook (pl_env a) (t, u) body header (pl_hook a) = (r, h)
    \<and> wh_sent h = wh_sent (pl_hook a) @ [message_post (pm_phone_number_id parsed) (we_access_token (pl_env a))
        ((if so_get_pending (rt_session rt) (cv_session c) (whatsapp_key (pm_customer_id parsed)) \<noteq> None
          then buttons_payload else text_payload) (pm_customer_id parsed) (Some reply))]
    \<and> il_conv (wh_layer h) = (il_conv (wh_layer (pl_hook a)))(pm_phone_number_id parsed := c)"
proof -
  let ?l = "wh_layer (pl_hook a)"
  obtain ttl :: time where "lm_inv (il_limiter (wh_layer (pl_hook a0)))"
    using assms(1) by (rule create_app_start)
  then have "lm_inv (il_limiter ?l)" using app_run_limiter [OF assms(2)] by blast
  then obtain l' where handled: "process (we_registry (pl_env a)) (inbound_of parsed) (t, u) ?l =
      (Inr \<lparr>or_status = StatusOk, or_text = Some reply, or_awaiting_confirmation =
         (so_get_pending (rt_session rt) (cv_session c) (whatsapp_key (pm_customer_id parsed)) \<noteq> None)\<rparr>, l')"
    and conv: "il_conv l' = (il_conv ?l)(pm_phone_number_id parsed := c)"
    by (rule process_fresh [where q = "inbound_of parsed" and u = u and t = t and reg = "we_registry (pl_env a)"
          and rt = rt and reply = reply and c = c]) (use assms(6-9) in \<open>simp_all add: inbound_of_def\<close>)
  obtain r h where r: "receive_webhook (pl_env a) (t, u) body header (pl_hook a) = (r, h)" by fastforce
  then show ?thesis
  proof (cases rule: webhook_cases)
    case (processed p res m)
    then have "p = parsed" using assms(4) by simp
    with processed(4) handled have "res = \<lparr>or_status = StatusOk, or_text = Some reply, or_awaiting_confirmation =
         (so_get_pending (rt_session rt) (cv_session c) (whatsapp_key (pm_customer_id parsed)) \<noteq> None)\<rparr>"
      and "wh_layer h = l'"
      by simp_all
    with processed(5,7) \<open>p = parsed\<close> r conv show ?thesis by (simp add: answer_payloads_def)
  qed (use assms(3-5) handled in auto)
qed

subsection \<open>Witnesses\<close>

text \<open>One Business on WhatsApp whose Input Rail refuses everything, loaded after the start.\<close>

definition shop :: business_config where
  "shop = demo_business\<lparr>bc_frontend_adapters := [\<lparr>fa_type = ''whatsapp'', fa_enabled = True, fa_phone_number_id = Some ''15''\<rparr>]\<rparr>"

definition shop_io :: config_io where
  "shop_io = \<lparr>io_load = (\<lambda>t. Some (JObj [])), io_dump = (\<lambda>raw. []), io_validate = (\<lambda>raw. Some shop)\<rparr>"

definition shop_lib :: "unit libraries" where
  "shop_lib = demo_libraries\<lparr>lib_io := shop_io,
     lib_nemo := (\<lambda>_ _. ret \<lparr>nr_response = JStr ''no'', nr_log = Some [\<lparr>ar_name = ''r'', ar_decisions = [''stop'']\<rparr>]\<rparr>)\<rparr>"

definition shop_disk :: disk where
  "shop_disk = \<lparr>dk_files = [(''businesses/acme/business.yaml'', ''S'')], dk_dirs = [''businesses'', ''businesses/acme'']\<rparr>"

definition shop_environ :: "string dict" where
  "shop_environ = [(''WHATSAPP_VERIFY_TOKEN'', ''v''), (''WHATSAPP_APP_SECRET'', ''secret''), (''WHATSAPP_ACCESS_TOKEN'', ''token'')]"

definition shop_payload :: json where
  "shop_payload =
     JObj [(''entry'', JArr [JObj [(''changes'', JArr [JObj [(''value'', JObj
       [(''metadata'', JObj [(''phone_number_id'', JStr ''15'')]),
        (''messages'', JArr [JObj [(''from'', JStr ''1''), (''id'', JStr ''m1''), (''type'', JStr ''text''),
           (''text'', JObj [(''body'', JStr ''hi'')])]])])]])]])]"

definition shop_conv :: "string \<Rightarrow> (sqlite_store, unit world) conv_state" where
  "shop_conv = (\<lambda>_. \<lparr>cv_session = demo_sqlite, cv_world = demo_world, cv_trace = []\<rparr>)"

definition shop_su :: "(unit, nat) surroundings" where
  "shop_su = \<lparr>su_int = (\<lambda>_. Inr 20), su_float = (\<lambda>_. Inr 86400), su_hmac_hex = (\<lambda>k b. k @ ''-'' @ b),
     su_loads = (\<lambda>b. Some shop_payload), su_post = (\<lambda>p n. (Inr (), n + 1)), su_net = 0,
     su_platform = (shop_disk, \<lambda>_. demo_world), su_conv = shop_conv\<rparr>"

definition shop_start :: "(unit, nat) application" where
  "shop_start =
     \<lparr>pl_env = \<lparr>we_registry = [], we_verify_token = ''v'', we_app_secret = ''secret'', we_access_token = ''token'',
               we_hmac_hex = su_hmac_hex shop_su, we_loads = su_loads shop_su, we_post = su_post shop_su\<rparr>,
      pl_hook = \<lparr>wh_layer = \<lparr>il_dedupe = dedupe_init 86400, il_limiter = limiter_init 20 3600, il_conv = shop_conv\<rparr>,
                 wh_net = 0, wh_sent = []\<rparr>,
      pl_platform = (shop_disk, \<lambda>_. demo_world), pl_cors = admin_cors shop_environ,
      pl_businesses_dir = ''businesses'', pl_admin_db = ''data/admin.sqlite3''\<rparr>"

lemma shop_starts: "create_app shop_su shop_environ = Inr shop_start"
  by (simp add: create_app_def shop_su_def shop_environ_def shop_start_def dict_index_def dget_default_def
      default_limiter_def limiter_init_def)

lemma shop_runtime:
  "\<exists>rt w. load_business shop_lib ''businesses/acme/business.yaml'' (shop_disk, \<lambda>_. demo_world) = (Inr rt, w)
    \<and> rt_config rt = shop \<and> rt_session rt = sqlite_ops
    \<and> rt_check_input rt = (\<lambda>m. outside (nemo_check_input (lib_float_repr shop_lib) (lib_nemo shop_lib) m))
    \<and> rt_record_visit rt = (\<lambda>c. in_customers (record_visit c))"
proof -
  have load: "load_business_config shop_io ''businesses/acme/business.yaml'' shop_disk = (Inr shop, shop_disk)"
    by (simp add: load_business_config_def shop_io_def shop_disk_def)
  have shop: "bc_enabled shop" "bc_tool_provider shop = ''in_memory''" "bc_tools shop = []"
    "build_llm_provider (bc_llm shop) = Inr (GoogleLLMProvider ''gemini-flash-lite-latest'')"
    by code_simp+
  show ?thesis
    by (simp add: load_business_def load_conversation_runtime_def load_agent_core_def bindC_def in_disk_def zoom_def
        shop_lib_def demo_libraries_def load shop outside_def in_google_def g_on_world_def build_tool_provider_def
        composite_init_def business_providers_def)
qed

text \<open>The Business's registry entry after the deferred load.\<close>

lemma shop_loads:
  "\<exists>rt platform. populate_business_registry shop_io fst (load_business shop_lib) ''businesses'' [] (shop_disk, \<lambda>_. demo_world)
       = (Inr [(''15'', rt)], platform)
    \<and> rt_config rt = shop \<and> rt_session rt = sqlite_ops
    \<and> rt_check_input rt = (\<lambda>m. outside (nemo_check_input (lib_float_repr shop_lib) (lib_nemo shop_lib) m))
    \<and> rt_record_visit rt = (\<lambda>c. in_customers (record_visit c))"
proof -
  obtain rt w where rt: "load_business shop_lib ''businesses/acme/business.yaml'' (shop_disk, \<lambda>_. demo_world) = (Inr rt, w)"
    "rt_config rt = shop \<and> rt_session rt = sqlite_ops
    \<and> rt_check_input rt = (\<lambda>m. outside (nemo_check_input (lib_float_repr shop_lib) (lib_nemo shop_lib) m))
    \<and> rt_record_visit rt = (\<lambda>c. in_customers (record_visit c))"
    using shop_runtime by blast
  have paths: "business_yaml_paths ''businesses'' shop_disk = [''businesses/acme/business.yaml'']"
    and adapter: "whatsapp_enabled \<lparr>fa_type = ''whatsapp'', fa_enabled = True, fa_phone_number_id = Some ''15''\<rparr>"
    and on: "bc_enabled shop" and phone: "nonempty (Some ''15'') = Some ''15''"
    and adapters: "bc_frontend_adapters shop = [\<lparr>fa_type = ''whatsapp'', fa_enabled = True, fa_phone_number_id = Some ''15''\<rparr>]"
    by code_simp+
  have load: "load_business_config shop_io ''businesses/acme/business.yaml'' shop_disk = (Inr shop, shop_disk)"
    by (simp add: load_business_config_def shop_io_def shop_disk_def)
  have "populate_business_registry shop_io fst (load_business shop_lib) ''businesses'' [] (shop_disk, \<lambda>_. demo_world)
      = (Inr [(''15'', rt)], w)"
    by (simp add: populate_business_registry_def build_business_registry_def bindC_def catch_def paths
        read_config_def load on adapters adapter phone rt(1) dmerge_def)
  with rt(2) show ?thesis by blast
qed

definition shop_header :: string where
  "shop_header = ''sha256=secret-body''"

lemma shop_signed: "verify_signature (we_hmac_hex (pl_env shop_start)) ''body'' (Some shop_header) ''secret'' = Inr True"
  by code_simp

definition shop_parsed :: parsed_message where
  "shop_parsed = \<lparr>pm_phone_number_id = ''15'', pm_customer_id = ''1'', pm_message_id = ''m1'', pm_text = ''hi''\<rparr>"

lemma shop_delivered: "delivered (pl_env shop_start) ''body'' = Inr (Some shop_parsed)"
  by code_simp

lemma answered_at_most_once_witness:
  "\<exists>evs a. app_run shop_io shop_lib shop_start evs a \<and> delivery_times evs = [0, 5]
     \<and> sorted_wrt (\<lambda>(i, t) (j, u). i = j \<longrightarrow> 86400 < u - t) (answers (pl_env shop_start) evs)"
proof -
  obtain registry platform where "populate_business_registry shop_io fst (load_business shop_lib)
      (pl_businesses_dir shop_start) (we_registry (pl_env shop_start)) (pl_platform shop_start) = (Inr registry, platform)"
    using shop_loads by (auto simp: shop_start_def)
  from app_step.loaded [OF this] app_run.start obtain a where
    "app_run shop_io shop_lib shop_start ([] @ [RegistryLoaded]) a" by (metis app_run.step)
  moreover have deliver: "\<exists>r posts b. app_step shop_io lib a (Deliver clock body header r posts) b"
    for lib :: "unit libraries" and a :: "(unit, nat) application" and clock body header
    by (metis app_step.deliver prod.collapse)
  ultimately obtain r posts b where one: "app_run shop_io shop_lib shop_start
      (([] @ [RegistryLoaded]) @ [Deliver (0, 0) ''body'' (Some shop_header) r posts]) b"
    by (metis app_run.step)
  then obtain r' posts' c where run: "app_run shop_io shop_lib shop_start
      ((([] @ [RegistryLoaded]) @ [Deliver (0, 0) ''body'' (Some shop_header) r posts])
        @ [Deliver (5, 5) ''body'' (Some shop_header) r' posts']) c"
    using deliver by (metis app_run.step)
  let ?evs = "(([] @ [RegistryLoaded]) @ [Deliver (0, 0) ''body'' (Some shop_header) r posts])
        @ [Deliver (5, 5) ''body'' (Some shop_header) r' posts']"
  have times: "delivery_times ?evs = [0, 5]" by (simp add: delivery_times_def List.map_filter_def)
  from answered_at_most_once [OF shop_starts run, of 86400] times
  have "sorted_wrt (\<lambda>(i, t) (j, u). i = j \<longrightarrow> 86400 < u - t) (answers (pl_env shop_start) ?evs)"
    by (simp add: shop_su_def)
  with run times show ?thesis by blast
qed

lemma fresh_message_is_answered_witness:
  "\<exists>a rt c r h. app_run shop_io shop_lib shop_start [RegistryLoaded] a
     \<and> dget (we_registry (pl_env a)) ''15'' = Some rt
     \<and> handle_message rt ''whatsapp:1'' ''hi'' (shop_conv ''15'') = (Inr ''no'', c)
     \<and> receive_webhook (pl_env a) (7, 7) ''body'' (Some shop_header) (pl_hook a) = (r, h)
     \<and> wh_sent h = [message_post ''15'' ''token''
         ((if so_get_pending (rt_session rt) (cv_session c) ''whatsapp:1'' \<noteq> None then buttons_payload else text_payload)
           ''1'' (Some ''no''))]"
proof -
  obtain rt platform where load: "populate_business_registry shop_io fst (load_business shop_lib)
      (pl_businesses_dir shop_start) (we_registry (pl_env shop_start)) (pl_platform shop_start) = (Inr [(''15'', rt)], platform)"
    and rt: "rt_config rt = shop" "rt_session rt = sqlite_ops"
      "rt_check_input rt = (\<lambda>m. outside (nemo_check_input (lib_float_repr shop_lib) (lib_nemo shop_lib) m))"
      "rt_record_visit rt = (\<lambda>c. in_customers (record_visit c))"
    using shop_loads by (auto simp: shop_start_def)
  define a where "a = shop_start\<lparr>pl_env := (pl_env shop_start)\<lparr>we_registry := [(''15'', rt)]\<rparr>, pl_platform := platform,
       pl_hook := with_conv shop_conv (pl_hook shop_start)\<rparr>"
  have run: "app_run shop_io shop_lib shop_start [RegistryLoaded] a"
    using app_run.step [OF app_run.start app_step.loaded [OF load, of shop_conv]] by (simp add: a_def)
  have parts: "wh_layer (pl_hook a) = \<lparr>il_dedupe = dedupe_init 86400, il_limiter = limiter_init 20 3600, il_conv = shop_conv\<rparr>"
    "wh_sent (pl_hook a) = []" "we_access_token (pl_env a) = ''token''" "we_registry (pl_env a) = [(''15'', rt)]"
    "we_hmac_hex (pl_env a) = we_hmac_hex (pl_env shop_start)" "we_app_secret (pl_env a) = ''secret''"
    "delivered (pl_env a) = delivered (pl_env shop_start)"
    by (simp_all add: a_def shop_start_def with_conv_def fun_eq_iff delivered_def)
  have keys: "whatsapp_key ''1'' = ''whatsapp:1''" "pm_text shop_parsed = ''hi''"
    "pm_phone_number_id shop_parsed = ''15''" "pm_customer_id shop_parsed = ''1''"
    and customer: "customer_of ''whatsapp:1'' = Inr ''1''" and fits: "py_len (pm_text shop_parsed) \<le> max_message_length"
    and on: "rl_input_enabled (bc_rails shop)"
    by code_simp+
  have "fst (handle_message rt ''whatsapp:1'' ''hi'' (shop_conv ''15'')) = Inr ''no''"
    by (simp add: handle_message_def bindC_def customer external_def input_rail_def rt on in_customers_def zoom_def outside_def
        in_google_def g_on_world_def nemo_check_input_def shop_lib_def nemo_to_verdict_def nemo_extract_text_def Let_def
        append_turns_def on_session_def record_visit_def customer_now_def split: prod.splits)
  then obtain c where handled: "handle_message rt ''whatsapp:1'' ''hi'' (shop_conv ''15'') = (Inr ''no'', c)"
    by (metis prod.collapse)
  have "\<exists>r h. receive_webhook (pl_env a) (7, 7) ''body'' (Some shop_header) (pl_hook a) = (r, h)
    \<and> wh_sent h = wh_sent (pl_hook a) @ [message_post (pm_phone_number_id shop_parsed) (we_access_token (pl_env a))
        ((if so_get_pending (rt_session rt) (cv_session c) (whatsapp_key (pm_customer_id shop_parsed)) \<noteq> None
          then buttons_payload else text_payload) (pm_customer_id shop_parsed) (Some ''no''))]
    \<and> il_conv (wh_layer h) = (il_conv (wh_layer (pl_hook a)))(pm_phone_number_id shop_parsed := c)"
    by (rule fresh_message_is_answered [OF shop_starts run _ _ fits])
      (use shop_signed shop_delivered handled in \<open>simp_all add: parts keys dedupe_init_def limiter_init_def in_window_def dget_default_def\<close>)
  moreover have "dget (we_registry (pl_env a)) ''15'' = Some rt" by (simp add: parts)
  ultimately show ?thesis using run handled unfolding parts(2,3) keys append_Nil by blast
qed

end
