(* ===== verification/Cli.thy ===== *)
theory Cli
  imports Business_Runtime
begin

text \<open>
  The command-line harness (\<open>cli.py\<close>): load one Business, then read lines until the input ends
  or asks to quit. The lines still to be typed are a function from positions, \<open>None\<close> standing for
  the end of the input or an interrupt at the prompt; the loop need not end, so it is a partial
  function. What is printed to standard output is kept, without the prompts.
\<close>

definition cli_session_key :: string where
  "cli_session_key = ''cli:local''"

datatype cli_exit =
    Finished
  | SystemExit int
  | Crashed exn

definition loaded_banner :: "string \<Rightarrow> string" where
  "loaded_banner display_name = ''Loaded '' @ display_name @ ''. Type a message ('' @ [CHR 0x27] @ ''quit'' @ [CHR 0x27] @ '' to exit).''"

partial_function (option) cli_loop ::
  "('ss, 'w) runtime \<Rightarrow> (nat \<Rightarrow> string option) \<Rightarrow> nat \<Rightarrow> string list \<Rightarrow> ('ss, 'w) conv_state
     \<Rightarrow> (cli_exit \<times> string list \<times> ('ss, 'w) conv_state) option" where
  [code]: "cli_loop rt input i printed s =
     (case input i of
        None \<Rightarrow> Some (Finished, printed @ [[]], s)
      | Some line \<Rightarrow>
          let user_input = py_strip line in
          if user_input = [] then cli_loop rt input (Suc i) printed s
          else if py_lower user_input \<in> set [''quit'', ''exit''] then Some (Finished, printed, s)
          else (case handle_message rt cli_session_key user_input s of
              (Inl e, s') \<Rightarrow> Some (Crashed e, printed, s')
            | (Inr reply, s') \<Rightarrow> cli_loop rt input (Suc i) (printed @ [reply]) s'))"

definition cli_main ::
  "'x libraries \<Rightarrow> string \<Rightarrow> (nat \<Rightarrow> string option) \<Rightarrow> sqlite_store \<Rightarrow> 'x world
     \<Rightarrow> (cli_exit \<times> string list \<times> (sqlite_store, 'x world) conv_state) option" where
  "cli_main lib business input store w =
     (case load_conversation_runtime lib business w of
        (Inl e, w') \<Rightarrow>
          Some (case e of BusinessConfigError \<Rightarrow> SystemExit 1 | BusinessDisabledError _ \<Rightarrow> SystemExit 1 | _ \<Rightarrow> Crashed e,
            [], \<lparr>cv_session = store, cv_world = w', cv_trace = []\<rparr>)
      | (Inr rt, w') \<Rightarrow>
          cli_loop rt input 0 [loaded_banner (bc_display_name (ac_config (rt_core rt)))]
            \<lparr>cv_session = store, cv_world = w', cv_trace = []\<rparr>)"

subsection \<open>Specification\<close>

text \<open>The conversation over finitely many messages, and the messages among the lines typed.\<close>

fun converse ::
  "('ss, 'w) runtime \<Rightarrow> string list \<Rightarrow> string list \<Rightarrow> ('ss, 'w) conv_state \<Rightarrow> exn option \<times> string list \<times> ('ss, 'w) conv_state" where
  "converse rt [] replies s = (None, replies, s)"
| "converse rt (m # ms) replies s = (case handle_message rt cli_session_key m s of
     (Inl e, s') \<Rightarrow> (Some e, replies, s')
   | (Inr reply, s') \<Rightarrow> converse rt ms (replies @ [reply]) s')"

definition ends :: "string option \<Rightarrow> bool" where
  "ends typed = (case typed of None \<Rightarrow> True | Some line \<Rightarrow> py_lower (py_strip line) = ''quit'' \<or> py_lower (py_strip line) = ''exit'')"

definition typed_messages :: "(nat \<Rightarrow> string option) \<Rightarrow> nat \<Rightarrow> nat \<Rightarrow> string list" where
  "typed_messages input i n = filter (\<lambda>m. m \<noteq> []) (map (\<lambda>j. py_strip (the (input j))) [i..<n])"

lemma typed_messages_done [simp]: "typed_messages input n n = []"
  by (simp add: typed_messages_def)

lemma typed_messages_step:
  "i < n \<Longrightarrow> typed_messages input i n =
     (if py_strip (the (input i)) = [] then [] else [py_strip (the (input i))]) @ typed_messages input (Suc i) n"
  by (simp add: typed_messages_def upt_conv_Cons)

lemma ends_blank: "py_strip line = [] \<Longrightarrow> \<not> ends (Some line)"
  by (simp add: ends_def py_lower_def)

abbreviation cli_body ::
  "(('ss, 'w) runtime \<Rightarrow> (nat \<Rightarrow> string option) \<Rightarrow> nat \<Rightarrow> string list \<Rightarrow> ('ss, 'w) conv_state
      \<Rightarrow> (cli_exit \<times> string list \<times> ('ss, 'w) conv_state) option)
     \<Rightarrow> ('ss, 'w) runtime \<Rightarrow> (nat \<Rightarrow> string option) \<Rightarrow> nat \<Rightarrow> string list \<Rightarrow> ('ss, 'w) conv_state
     \<Rightarrow> (cli_exit \<times> string list \<times> ('ss, 'w) conv_state) option" where
  "cli_body loop rt input i printed s \<equiv>
     (case input i of
        None \<Rightarrow> Some (Finished, printed @ [[]], s)
      | Some line \<Rightarrow>
          let user_input = py_strip line in
          if user_input = [] then loop rt input (Suc i) printed s
          else if py_lower user_input \<in> set [''quit'', ''exit''] then Some (Finished, printed, s)
          else (case handle_message rt cli_session_key user_input s of
              (Inl e, s') \<Rightarrow> Some (Crashed e, printed, s')
            | (Inr reply, s') \<Rightarrow> loop rt input (Suc i) (printed @ [reply]) s'))"

lemma cli_body_cases:
  obtains (ended) out where "ends (input i)" "cli_body loop rt input i printed s = Some (Finished, out, s)"
      "out = printed @ (if input i = None then [[]] else [])"
  | (blank) line where "input i = Some line" "py_strip line = []" "\<not> ends (input i)"
      "cli_body loop rt input i printed s = loop rt input (Suc i) printed s"
  | (crash) line e s' where "input i = Some line" "py_strip line \<noteq> []" "\<not> ends (input i)"
      "handle_message rt cli_session_key (py_strip line) s = (Inl e, s')"
      "cli_body loop rt input i printed s = Some (Crashed e, printed, s')"
  | (reply) line reply s' where "input i = Some line" "py_strip line \<noteq> []" "\<not> ends (input i)"
      "handle_message rt cli_session_key (py_strip line) s = (Inr reply, s')"
      "cli_body loop rt input i printed s = loop rt input (Suc i) (printed @ [reply]) s'"
proof (cases "input i")
  case None
  then show ?thesis by (intro ended) (simp_all add: ends_def)
next
  case (Some line)
  obtain r s' where run: "handle_message rt cli_session_key (py_strip line) s = (r, s')" by fastforce
  show ?thesis
  proof (cases "py_strip line = []")
    case True
    with Some ends_blank [OF True] show ?thesis by (intro blank) simp_all
  next
    case False
    show ?thesis
    proof (cases "ends (input i)")
      case True
      with False Some show ?thesis by (intro ended) (auto simp add: ends_def)
    next
      case going: False
      with False Some run show ?thesis by (cases r; intro crash reply) (auto simp add: ends_def)
    qed
  qed
qed

lemmas cli_loop_cases [case_names ended blank crash reply] = cli_body_cases [where loop = cli_loop, folded cli_loop.simps]

lemma converse_step:
  assumes "input i = Some line" and "py_strip line \<noteq> []" and "i < n"
    and "handle_message rt cli_session_key (py_strip line) s = (Inr reply, s')"
  shows "converse rt (typed_messages input i n) printed s =
    converse rt (typed_messages input (Suc i) n) (printed @ [reply]) s'"
  using assms by (simp add: typed_messages_step)

text \<open>The loop returns once the input ends or a message's handling raises, in any order.\<close>

lemma cli_loop_returns:
  assumes "ends (input (i + d)) \<or> fst (converse rt (typed_messages input i (i + d)) printed s) \<noteq> None"
  shows "cli_loop rt input i printed s \<noteq> None"
  using assms
proof (induction d arbitrary: i printed s)
  case 0
  then have "ends (input i)" by simp
  then show ?case by (cases rule: cli_loop_cases [of input i rt printed s]) auto
next
  case (Suc d)
  show ?case
  proof (cases rule: cli_loop_cases [of input i rt printed s])
    case (ended out)
    then show ?thesis by simp
  next
    case (blank line)
    with Suc.prems Suc.IH [of "Suc i" printed s] show ?thesis by (simp add: typed_messages_step [of i])
  next
    case (crash line e s')
    then show ?thesis by simp
  next
    case (reply line reply s')
    with Suc.prems Suc.IH [of "Suc i" "printed @ [reply]" s'] show ?thesis
      by (simp add: converse_step [where input = input and i = i, OF reply(1,2) _ reply(4)])
  qed
qed

definition cli_result ::
  "('ss, 'w) runtime \<Rightarrow> (nat \<Rightarrow> string option) \<Rightarrow> nat \<Rightarrow> string list \<Rightarrow> ('ss, 'w) conv_state
     \<Rightarrow> cli_exit \<times> string list \<times> ('ss, 'w) conv_state \<Rightarrow> nat \<Rightarrow> bool" where
  "cli_result rt input i printed s result n \<longleftrightarrow>
     (case converse rt (typed_messages input i n) printed s of
        (Some e, replies, s') \<Rightarrow> result = (Crashed e, replies, s')
      | (None, replies, s') \<Rightarrow> ends (input n) \<and> result = (Finished, replies @ (if input n = None then [[]] else []), s'))"

lemma cli_result_later:
  assumes "\<not> ends (input i)"
    and "\<exists>n \<ge> Suc i. list_all (\<lambda>m. \<not> ends (input m)) [Suc i..<n] \<and> cli_result rt input (Suc i) printed' s' result n"
    and "\<And>n. i < n \<Longrightarrow> cli_result rt input (Suc i) printed' s' result n = cli_result rt input i printed s result n"
  shows "\<exists>n \<ge> i. list_all (\<lambda>m. \<not> ends (input m)) [i..<n] \<and> cli_result rt input i printed s result n"
proof -
  obtain n where "Suc i \<le> n" "list_all (\<lambda>m. \<not> ends (input m)) [Suc i..<n]" "cli_result rt input (Suc i) printed' s' result n"
    using assms(2) by blast
  with assms(1,3) show ?thesis by (intro exI [of _ n]) (simp add: upt_conv_Cons)
qed

lemma cli_loop_result:
  assumes "cli_loop rt input i printed s = Some result"
  shows "\<exists>n \<ge> i. list_all (\<lambda>m. \<not> ends (input m)) [i..<n] \<and> cli_result rt input i printed s result n"
proof (rule cli_loop.raw_induct [OF _ assms, where P = "\<lambda>rt input i printed s result.
    \<exists>n \<ge> i. list_all (\<lambda>m. \<not> ends (input m)) [i..<n] \<and> cli_result rt input i printed s result n"])
  fix loop and rt :: "('ss, 'w) runtime" and input i printed s result
  assume IH: "\<And>rt input i printed s result. loop rt input i printed s = Some result \<Longrightarrow>
      \<exists>n \<ge> i. list_all (\<lambda>m. \<not> ends (input m)) [i..<n] \<and> cli_result rt input i printed s result n"
    and step: "cli_body loop rt input i printed s = Some result"
  show "\<exists>n \<ge> i. list_all (\<lambda>m. \<not> ends (input m)) [i..<n] \<and> cli_result rt input i printed s result n"
  proof (cases rule: cli_body_cases [where loop = loop and rt = rt and input = input and i = i and printed = printed and s = s])
    case (ended out)
    with step show ?thesis by (intro exI [of _ i]) (simp add: cli_result_def)
  next
    case (blank line)
    from blank(3) IH [OF trans [OF blank(4) [symmetric] step]] show ?thesis
      by (rule cli_result_later) (simp add: cli_result_def typed_messages_step blank(1,2))
  next
    case (crash line e s')
    with step have "cli_result rt input i printed s result (Suc i)"
      by (simp add: cli_result_def typed_messages_step)
    with crash(3) show ?thesis by (intro exI [of _ "Suc i"]) simp
  next
    case (reply line reply s')
    from reply(3) IH [OF trans [OF reply(5) [symmetric] step]] show ?thesis
      by (rule cli_result_later)
        (simp add: cli_result_def converse_step [where input = input and i = i, OF reply(1,2) _ reply(4)])
  qed
qed

text \<open>
  C29: when the command line returns, and with what. The loop goes on for ever exactly when the
  input neither ends nor asks to quit and no message's handling raises. When it returns, it has
  conversed about the non-blank lines before the first line that ends the session (up to the message
  whose handling raised, if one did), all under one session key, printed the replies in order, and
  left the state that conversation leaves.
\<close>

theorem cli_returns_iff:
  "case cli_loop rt input 0 printed s of
     None \<Rightarrow> (\<forall>n. \<not> ends (input n) \<and> fst (converse rt (typed_messages input 0 n) printed s) = None)
   | Some result \<Rightarrow> (\<exists>n. list_all (\<lambda>m. \<not> ends (input m)) [0..<n] \<and> cli_result rt input 0 printed s result n)"
proof (cases "cli_loop rt input 0 printed s")
  case None
  have "\<not> ends (input n) \<and> fst (converse rt (typed_messages input 0 n) printed s) = None" for n
    using None cli_loop_returns [where i = 0 and d = n and input = input and rt = rt and printed = printed and s = s]
    by (auto simp del: not_None_eq)
  with None show ?thesis by simp
next
  case (Some result)
  from cli_loop_result [OF this] show ?thesis by (auto simp: Some)
qed

text \<open>An interactive session that never asks to quit, over a runtime that always answers, never returns.\<close>

lemma cli_loop_forever:
  assumes "\<And>n. \<not> ends (input n)" and "\<And>m s. \<not> isl (fst (handle_message rt cli_session_key m s))"
  shows "cli_loop rt input i printed s = None"
proof (cases "cli_loop rt input i printed s")
  case (Some result)
  have quiet: "fst (converse rt ms replies s) = None" for ms replies s
  proof (induction ms arbitrary: replies s)
    case (Cons m ms)
    obtain reply s' where "handle_message rt cli_session_key m s = (Inr reply, s')"
      using assms(2) [of m s] by (cases "handle_message rt cli_session_key m s"; cases "fst (handle_message rt cli_session_key m s)") auto
    then show ?case by (simp add: Cons)
  qed simp
  from cli_loop_result [OF Some] obtain n where "cli_result rt input i printed s result n" by blast
  with quiet [of "typed_messages input i n" printed s] assms(1) [of n] show ?thesis
    by (auto simp: cli_result_def split: prod.splits)
qed simp

end
