(* ===== verification/Seeds.thy ===== *)
theory Seeds
  imports Admin Menu Agent_Core
begin

text \<open>
  The seed scripts run at every boot: the default owner of each Business
  (\<open>scripts/seed_admin_owner.py\<close>) and the menu of one of them
  (\<open>scripts/seed_kampuscrave_menu.py\<close>). What they print is left out, except the counts.
\<close>

subsection \<open>Owners\<close>

definition upper_char :: "char \<Rightarrow> char" where
  "upper_char c = (let n = (of_char c :: nat) in if 97 \<le> n \<and> n \<le> 122 then char_of (n - 32) else c)"

definition owner_business_ids :: "string list" where
  "owner_business_ids = [''kampuscrave'', ''hotel'']"

definition owner_pair :: "string dict \<Rightarrow> string \<Rightarrow> (string \<times> string) option" where
  "owner_pair environ business_id =
     (let prefix = map upper_char business_id in
      case (nonempty (dget environ (''ADMIN_OWNER_EMAIL_'' @ prefix)),
            nonempty (dget environ (''ADMIN_OWNER_PASSWORD_'' @ prefix))) of
        (Some email, Some password) \<Rightarrow> Some (email, password)
      | _ \<Rightarrow> None)"

fun seed_owners :: "auth_env \<Rightarrow> string dict \<Rightarrow> string list \<Rightarrow> nat \<Rightarrow> (admin_state, nat) cmd" where
  "seed_owners env environ [] seeded = ret seeded"
| "seed_owners env environ (business_id # business_ids) seeded =
     (case owner_pair environ business_id of
        None \<Rightarrow> seed_owners env environ business_ids seeded
      | Some (email, password) \<Rightarrow>
          bindC (hash_password env password) (\<lambda>password_hash.
          bindC (upsert_user \<lparr>au_email = email, au_password_hash = password_hash, au_role = Owner,
                              au_business_id = Some business_id\<rparr>) (\<lambda>_.
          seed_owners env environ business_ids (seeded + 1))))"

definition seed_admin_owner :: "auth_env \<Rightarrow> string dict \<Rightarrow> (admin_state, nat) cmd" where
  "seed_admin_owner env environ = seed_owners env environ owner_business_ids 0"

subsection \<open>The menu\<close>

definition menu_items :: "menu_item list" where
  "menu_items =
     [\<lparr>mi_name = ''Classic Beef Burger'', mi_category = ''burgers'', mi_price = 6.50, mi_stock_quantity = 25\<rparr>,
      \<lparr>mi_name = ''Veggie Burger'', mi_category = ''burgers'', mi_price = 6.00, mi_stock_quantity = 20\<rparr>,
      \<lparr>mi_name = ''Double Cheese Burger'', mi_category = ''burgers'', mi_price = 8.00, mi_stock_quantity = 15\<rparr>,
      \<lparr>mi_name = ''Fries'', mi_category = ''sides'', mi_price = 2.50, mi_stock_quantity = 40\<rparr>,
      \<lparr>mi_name = ''Sweet Potato Fries'', mi_category = ''sides'', mi_price = 3.00, mi_stock_quantity = 30\<rparr>,
      \<lparr>mi_name = ''Onion Rings'', mi_category = ''sides'', mi_price = 3.50, mi_stock_quantity = 30\<rparr>,
      \<lparr>mi_name = ''Fountain Soda'', mi_category = ''drinks'', mi_price = 1.75, mi_stock_quantity = 50\<rparr>,
      \<lparr>mi_name = ''Bottled Water'', mi_category = ''drinks'', mi_price = 1.50, mi_stock_quantity = 50\<rparr>,
      \<lparr>mi_name = ''Iced Tea'', mi_category = ''drinks'', mi_price = 2.00, mi_stock_quantity = 40\<rparr>,
      \<lparr>mi_name = ''Burger + Fries + Drink combo'', mi_category = ''combos'', mi_price = 9.50, mi_stock_quantity = 20\<rparr>]"

definition seed_kampuscrave_menu :: "sql_engine \<Rightarrow> (entity_db, nat) cmd" where
  "seed_kampuscrave_menu eng =
     bindC (resolve_or_create_menu_table eng) (\<lambda>table_name.
     bindC (menu_seed eng table_name menu_items) (\<lambda>_. ret (length menu_items)))"

subsection \<open>What the owners' seed leaves\<close>

text \<open>The last Business in the order of the script whose pair names this email.\<close>

definition claimant :: "string dict \<Rightarrow> string list \<Rightarrow> string \<Rightarrow> (string \<times> string) option" where
  "claimant environ business_ids email =
     map_option (\<lambda>b. (b, snd (the (owner_pair environ b))))
       (List.find (\<lambda>b. map_option fst (owner_pair environ b) = Some email) (rev business_ids))"

definition stored_user :: "string \<Rightarrow> admin_state \<Rightarrow> user_row option" where
  "stored_user email s = List.find (\<lambda>r. ur_email r = email) (as_users s)"

lemma find_upsert:
  "stored_user email (snd (upsert_user u s)) =
     (if email = au_email u
      then Some \<lparr>ur_email = au_email u, ur_password_hash = au_password_hash u, ur_role = role_value (au_role u),
                 ur_business_id = au_business_id u\<rparr>
      else stored_user email s)"
proof -
  let ?row = "\<lparr>ur_email = au_email u, ur_password_hash = au_password_hash u, ur_role = role_value (au_role u),
                 ur_business_id = au_business_id u\<rparr>"
  have mapped: "List.find (\<lambda>r. ur_email r = email) (map (\<lambda>r. if ur_email r = au_email u then ?row else r) rows) =
      (if email = au_email u then (if list_ex (\<lambda>r. ur_email r = email) rows then Some ?row else None)
       else List.find (\<lambda>r. ur_email r = email) rows)" for rows
    by (induction rows) auto
  have appended: "List.find (\<lambda>r. ur_email r = email) (rows @ [?row]) =
      (if email = au_email u \<and> \<not> list_ex (\<lambda>r. ur_email r = email) rows then Some ?row
       else List.find (\<lambda>r. ur_email r = email) rows)" for rows
    by (induction rows) auto
  show ?thesis
    unfolding stored_user_def upsert_user_def Let_def cmd_apply snd_conv
    by (cases "list_ex (\<lambda>r. ur_email r = au_email u) (as_users s)"; cases "email = au_email u")
      (use mapped [of "as_users s"] appended [of "as_users s"] in simp_all)
qed

lemma claimant_Cons:
  "claimant environ (b # bs) email =
     (case claimant environ bs email of
        Some x \<Rightarrow> Some x
      | None \<Rightarrow> (case owner_pair environ b of
          Some (e, p) \<Rightarrow> if e = email then Some (b, p) else None | None \<Rightarrow> None))"
proof -
  have "List.find P (xs @ [b]) = (case List.find P xs of None \<Rightarrow> if P b then Some b else None | Some x \<Rightarrow> Some x)" for P xs
    by (induction xs) auto
  then show ?thesis by (auto simp: claimant_def split: option.splits)
qed

text \<open>
  After the script every email named by a pair is the owner account of the last Business that names
  it, with a fresh hash of its password; every other account is as it was.
\<close>

lemma seeded_accounts:
  assumes "seed_owners env environ bs n s = (Inr m, s')"
  shows "case claimant environ bs email of
      None \<Rightarrow> stored_user email s' = stored_user email s
    | Some (b, password) \<Rightarrow> \<exists>k h. ev_pw_hash env k password = Inr h
        \<and> stored_user email s' = Some \<lparr>ur_email = email, ur_password_hash = h, ur_role = role_value Owner, ur_business_id = Some b\<rparr>"
  using assms
proof (induction bs arbitrary: n s)
  case Nil
  then show ?case by (simp add: claimant_def)
next
  case (Cons b bs)
  show ?case
  proof (cases "owner_pair environ b")
    case None
    with Cons show ?thesis by (auto simp: claimant_Cons split: option.splits)
  next
    case (Some pair)
    obtain e p where pair: "pair = (e, p)" by (cases pair)
    with Some Cons.prems obtain h s1 where hash: "hash_password env p s = (Inr h, s1)"
      and rest: "seed_owners env environ bs (n + 1) (snd (upsert_user
          \<lparr>au_email = e, au_password_hash = h, au_role = Owner, au_business_id = Some b\<rparr> s1)) = (Inr m, s')"
      by (auto elim!: bindC_InrE simp: upsert_user_def)
    have k: "ev_pw_hash env (as_salt_count s) p = Inr h" and users: "stored_user x s1 = stored_user x s" for x
      using hash by (auto simp: hash_password_def stored_user_def)
    from Cons.IH [OF rest] show ?thesis
      using k by (auto simp: claimant_Cons Some pair find_upsert users split: option.splits)
  qed
qed

end
