(* ===== verification/Session_Text.thy ===== *)
theory Session_Text
  imports Session_Store Json_Text
begin

text \<open>
  The SQLite session store as it is on disk (\<open>session/sqlite_store.py\<close>): a row holds the history
  as the text \<open>json.dumps\<close> writes and the pending Confirmation Request as the text pydantic
  writes, and every operation parses and rewrites them, so it may raise. The store of parsed rows in
  theory Session_Store is the specification; \<open>encode_store\<close> maps its states to states on disk.
\<close>

subsection \<open>The rows on disk\<close>

record text_row =
  tx_history_json :: string
  tx_pending_json :: "string option"
  tx_last_active :: time

record text_store =
  tx_rows :: "(string \<times> text_row) list"
  tx_write_count :: nat
  tx_idle_ttl :: time
  tx_clock :: "nat \<Rightarrow> time \<times> time"

text \<open>
  What turns values into texts and back: Python's rendering and parsing of floats, and pydantic's
  \<open>model_dump_json\<close> and \<open>model_validate_json\<close> of a Confirmation Request.
\<close>

record text_codec =
  cx_float_repr :: "real \<Rightarrow> string"
  cx_float_parse :: "string \<Rightarrow> real"
  cx_dump_request :: "confirmation_request \<Rightarrow> string"
  cx_load_request :: "string \<Rightarrow> confirmation_request result"

definition tx_loads :: "text_codec \<Rightarrow> string \<Rightarrow> json result" where
  "tx_loads cx text = (case json_loads (cx_float_parse cx) text of None \<Rightarrow> Inl ValueError | Some v \<Rightarrow> Inr v)"

definition tx_init :: "time \<Rightarrow> (nat \<Rightarrow> time \<times> time) \<Rightarrow> text_store" where
  "tx_init ttl clock = \<lparr>tx_rows = [], tx_write_count = 0, tx_idle_ttl = ttl, tx_clock = clock\<rparr>"

definition tx_get_history :: "text_codec \<Rightarrow> string \<Rightarrow> (text_store, json) cmd" where
  "tx_get_history cx k =
     bindC (gets (\<lambda>s. dget (tx_rows s) k)) (\<lambda>row.
     case row of None \<Rightarrow> ret (JArr []) | Some r \<Rightarrow> liftR (tx_loads cx (tx_history_json r)))"

definition tx_get_row :: "text_codec \<Rightarrow> string \<Rightarrow> (text_store, json \<times> string option) cmd" where
  "tx_get_row cx k =
     bindC (gets (\<lambda>s. dget (tx_rows s) k)) (\<lambda>row.
     case row of
       None \<Rightarrow> ret (JArr [], None)
     | Some r \<Rightarrow> bindC (liftR (tx_loads cx (tx_history_json r))) (\<lambda>h. ret (h, tx_pending_json r)))"

definition tx_upsert :: "string \<Rightarrow> string \<Rightarrow> string option \<Rightarrow> (text_store, unit) cmd" where
  "tx_upsert k history_json pending_json =
     modify (\<lambda>s. s\<lparr>tx_rows := AList.update k
       \<lparr>tx_history_json = history_json, tx_pending_json = pending_json,
        tx_last_active = fst (tx_clock s (tx_write_count s))\<rparr> (tx_rows s)\<rparr>)"

definition tx_maybe_sweep :: "(text_store, unit) cmd" where
  "tx_maybe_sweep =
     bindC (modify (\<lambda>s. s\<lparr>tx_write_count := tx_write_count s + 1\<rparr>)) (\<lambda>_.
     bindC (gets tx_write_count) (\<lambda>n.
     if n mod session_sweep_interval \<noteq> 0 then ret ()
     else modify (\<lambda>s. let cutoff = snd (tx_clock s (n - 1)) - tx_idle_ttl s
                      in s\<lparr>tx_rows := filter (\<lambda>(k, r). \<not> tx_last_active r < cutoff) (tx_rows s)\<rparr>)))"

text \<open>\<open>history.append(...)\<close>: only a list has it.\<close>

definition py_append :: "json \<Rightarrow> json \<Rightarrow> json result" where
  "py_append xs x = (case xs of JArr vs \<Rightarrow> Inr (JArr (vs @ [x])) | _ \<Rightarrow> Inl AttributeError)"

definition tx_append :: "text_codec \<Rightarrow> string \<Rightarrow> string \<Rightarrow> string \<Rightarrow> (text_store, unit) cmd" where
  "tx_append cx k role content =
     bindC (tx_get_row cx k) (\<lambda>(history, pending_json).
     bindC (liftR (py_append history (JObj (turn role content)))) (\<lambda>history'.
     bindC (tx_upsert k (json_dumps (cx_float_repr cx) history') pending_json) (\<lambda>_.
     tx_maybe_sweep)))"

definition tx_get_pending :: "text_codec \<Rightarrow> string \<Rightarrow> (text_store, confirmation_request option) cmd" where
  "tx_get_pending cx k =
     bindC (tx_get_row cx k) (\<lambda>(_, pending_json).
     case pending_json of
       None \<Rightarrow> ret None
     | Some text \<Rightarrow> bindC (liftR (cx_load_request cx text)) (\<lambda>p. ret (Some p)))"

definition tx_set_pending :: "text_codec \<Rightarrow> string \<Rightarrow> confirmation_request option \<Rightarrow> (text_store, unit) cmd" where
  "tx_set_pending cx k request =
     bindC (tx_get_row cx k) (\<lambda>(history, _).
     let pending_json = map_option (cx_dump_request cx) request in
     bindC (tx_upsert k (json_dumps (cx_float_repr cx) history) pending_json) (\<lambda>_.
     tx_maybe_sweep))"

subsection \<open>The encoding of a store\<close>

definition encode_row :: "text_codec \<Rightarrow> session_row \<Rightarrow> text_row" where
  "encode_row cx r =
     \<lparr>tx_history_json = json_dumps (cx_float_repr cx) (JArr (map JObj (sr_history r))),
      tx_pending_json = map_option (cx_dump_request cx) (sr_pending r), tx_last_active = sr_last_active r\<rparr>"

definition encode_store :: "text_codec \<Rightarrow> sqlite_store \<Rightarrow> text_store" where
  "encode_store cx s =
     \<lparr>tx_rows = map (\<lambda>(k, r). (k, encode_row cx r)) (sq_rows s), tx_write_count = sq_write_count s,
      tx_idle_ttl = sq_idle_ttl s, tx_clock = sq_clock s\<rparr>"

text \<open>What can be stored and found again: valid texts, and a request pydantic reads back.\<close>

definition request_kept :: "text_codec \<Rightarrow> confirmation_request option \<Rightarrow> bool" where
  "request_kept cx p = (case p of None \<Rightarrow> True | Some q \<Rightarrow> cx_load_request cx (cx_dump_request cx q) = Inr q)"

definition row_kept :: "text_codec \<Rightarrow> session_row \<Rightarrow> bool" where
  "row_kept cx r \<longleftrightarrow> storables (map JObj (sr_history r)) \<and> request_kept cx (sr_pending r)"

definition rows_kept :: "text_codec \<Rightarrow> sqlite_store \<Rightarrow> bool" where
  "rows_kept cx s \<longleftrightarrow> list_all (\<lambda>(k, r). row_kept cx r) (sq_rows s)"

lemma storables_append [simp]: "storables (xs @ ys) \<longleftrightarrow> storables xs \<and> storables ys"
  by (induction xs) auto

lemma storable_turn:
  assumes "utf8_valid role" and "utf8_valid content"
  shows "storable (JObj (turn role content))"
proof -
  have "utf8_valid ''role''" "utf8_valid ''content''" by (simp_all add: ascii_valid ascii_text_def)
  with assms show ?thesis unfolding turn_def by simp
qed

lemma dget_map_values: "dget (map (\<lambda>(k, v). (k, f v)) d) k = map_option f (dget d k)"
  by (induction d) auto

lemma update_map_values:
  "AList.update k (f v) (map (\<lambda>(k, v). (k, f v)) d) = map (\<lambda>(k, v). (k, f v)) (AList.update k v d)"
  by (induction d) auto

lemma filter_map_values:
  "filter (\<lambda>(k, v). P k v) (map (\<lambda>(k, v). (k, f v)) d) = map (\<lambda>(k, v). (k, f v)) (filter (\<lambda>(k, v). P k (f v)) d)"
  by (induction d) auto

lemma tx_loads_dumps: "storable v \<Longrightarrow> tx_loads cx (json_dumps (cx_float_repr cx) v) = Inr v"
  by (simp add: tx_loads_def loads_dumps)

lemma rows_kept_get: "rows_kept cx s \<Longrightarrow> dget (sq_rows s) k = Some r \<Longrightarrow> row_kept cx r"
  by (auto simp: rows_kept_def list_all_iff dest: map_of_SomeD)

lemma encoded_row:
  "row_kept cx r \<Longrightarrow> tx_loads cx (tx_history_json (encode_row cx r)) = Inr (JArr (map JObj (sr_history r)))"
  "tx_pending_json (encode_row cx r) = map_option (cx_dump_request cx) (sr_pending r)"
  "tx_last_active (encode_row cx r) = sr_last_active r"
  by (simp_all add: encode_row_def row_kept_def tx_loads_dumps del: json_dumps.simps)

lemma encoded_get: "dget (tx_rows (encode_store cx s)) k = map_option (encode_row cx) (dget (sq_rows s) k)"
  by (simp add: encode_store_def dget_map_values)

lemma get_row_encoded:
  assumes "rows_kept cx s"
  shows "tx_get_row cx k (encode_store cx s) =
    (Inr (JArr (map JObj (fst (sq_get_row s k))), map_option (cx_dump_request cx) (snd (sq_get_row s k))), encode_store cx s)"
  using rows_kept_get [OF assms, of k]
  by (cases "dget (sq_rows s) k") (simp_all add: tx_get_row_def bindC_def sq_get_row_def encoded_get encoded_row)

lemma upsert_encoded:
  "tx_upsert k (json_dumps (cx_float_repr cx) (JArr (map JObj h))) (map_option (cx_dump_request cx) p) (encode_store cx s)
     = (Inr (), encode_store cx (sq_upsert k h p s))"
  by (simp add: tx_upsert_def sq_upsert_def encode_store_def update_map_values [symmetric] del: json_dumps.simps)
    (simp add: encode_row_def)

lemma sweep_encoded: "tx_maybe_sweep (encode_store cx s) = (Inr (), encode_store cx (sq_maybe_sweep s))"
  by (simp add: tx_maybe_sweep_def sq_maybe_sweep_def bindC_def Let_def encode_store_def filter_map_values encoded_row)

subsection \<open>The operations on disk refine the operations on rows\<close>

lemma rows_kept_write:
  assumes "rows_kept cx s" and "storables (map JObj h)" and "request_kept cx p"
  shows "rows_kept cx (sq_maybe_sweep (sq_upsert k h p s))"
proof -
  have "set (AList.update k r d) \<subseteq> insert (k, r) (set d)" for r :: session_row and d
    by (induction d) auto
  with assms have "rows_kept cx (sq_upsert k h p s)"
    by (fastforce simp: rows_kept_def sq_upsert_def list_all_iff row_kept_def)
  then show ?thesis by (auto simp: rows_kept_def sq_maybe_sweep_def Let_def list_all_iff)
qed

lemma rows_kept_row: "rows_kept cx s \<Longrightarrow> storables (map JObj (fst (sq_get_row s k))) \<and> request_kept cx (snd (sq_get_row s k))"
  using rows_kept_get [of cx s k]
  by (cases "dget (sq_rows s) k") (auto simp: sq_get_row_def row_kept_def request_kept_def)

lemma append_encoded:
  assumes "rows_kept cx s" and "utf8_valid role" and "utf8_valid content"
  shows "tx_append cx k role content (encode_store cx s) = (Inr (), encode_store cx (sq_append k role content s))"
    and "rows_kept cx (sq_append k role content s)"
proof -
  let ?h = "fst (sq_get_row s k) @ [turn role content]"
  have "JArr (map JObj (fst (sq_get_row s k)) @ [JObj (turn role content)]) = JArr (map JObj ?h)" by simp
  then show "tx_append cx k role content (encode_store cx s) = (Inr (), encode_store cx (sq_append k role content s))"
    by (simp add: tx_append_def bindC_def get_row_encoded [OF assms(1)] py_append_def upsert_encoded sweep_encoded
        sq_append_def split_beta del: json_dumps.simps map_append)
  from rows_kept_row [OF assms(1), of k] storable_turn [OF assms(2,3)]
  show "rows_kept cx (sq_append k role content s)"
    by (simp add: sq_append_def split_beta rows_kept_write [OF assms(1)] del: storable.simps)
qed

lemma set_pending_encoded:
  assumes "rows_kept cx s" and "request_kept cx p"
  shows "tx_set_pending cx k p (encode_store cx s) = (Inr (), encode_store cx (sq_set_pending k p s))"
    and "rows_kept cx (sq_set_pending k p s)"
  using rows_kept_row [OF assms(1), of k] rows_kept_write [OF assms(1) _ assms(2)]
  by (simp_all add: tx_set_pending_def bindC_def get_row_encoded [OF assms(1)] Let_def upsert_encoded sweep_encoded
      sq_set_pending_def split_beta del: json_dumps.simps)

lemma get_history_encoded:
  assumes "rows_kept cx s"
  shows "tx_get_history cx k (encode_store cx s) = (Inr (JArr (map JObj (sq_get_history s k))), encode_store cx s)"
  using rows_kept_get [OF assms, of k]
  by (cases "dget (sq_rows s) k") (simp_all add: tx_get_history_def bindC_def sq_get_history_def encoded_get encoded_row)

lemma get_pending_encoded:
  assumes "rows_kept cx s"
  shows "tx_get_pending cx k (encode_store cx s) = (Inr (sq_get_pending s k), encode_store cx s)"
  using rows_kept_row [OF assms, of k]
  by (cases "snd (sq_get_row s k)")
    (simp_all add: tx_get_pending_def bindC_def get_row_encoded [OF assms] sq_get_pending_def request_kept_def)

text \<open>A row whose history text is not JSON makes every operation on its session raise, and stays.\<close>

lemma corrupt_row_raises:
  assumes "dget (tx_rows s) k = Some r" and "json_loads (cx_float_parse cx) (tx_history_json r) = None"
  shows "tx_get_history cx k s = (Inl ValueError, s)" "tx_get_pending cx k s = (Inl ValueError, s)"
    "tx_append cx k role content s = (Inl ValueError, s)" "tx_set_pending cx k p s = (Inl ValueError, s)"
  using assms
  by (simp_all add: tx_get_history_def tx_get_pending_def tx_append_def tx_set_pending_def tx_get_row_def
      tx_loads_def bindC_def)

text \<open>
  C13: the session file refines the in-memory store. If the file holds what the in-memory store
  holds, then reading a session, which parses the JSON texts of its row, gives the in-memory store's
  history and pending Confirmation Request and changes nothing; and after an append, or a write of the
  pending request, which parse the row and write new texts, the file again holds what the in-memory
  store holds, except that it has forgotten exactly those other sessions whose rows the periodic sweep
  found idle for longer than the lifetime. This needs texts that are valid UTF-8 and a request pydantic
  reads back as it wrote it.
\<close>

theorem session_file_refines_memory:
  assumes "sq_inv s" and "rows_kept cx s" and "\<And>k. sq_session s k = mem_session m k"
    and "utf8_valid role" and "utf8_valid content" and "request_kept cx p"
  shows "tx_get_history cx k (encode_store cx s) = (Inr (JArr (map JObj (mem_get_history m k))), encode_store cx s)
    \<and> tx_get_pending cx k (encode_store cx s) = (Inr (mem_get_pending m k), encode_store cx s)
    \<and> (\<exists>s'. tx_append cx k role content (encode_store cx s) = (Inr (), encode_store cx s') \<and> sq_inv s' \<and> rows_kept cx s'
      \<and> (\<forall>k'. sq_session s' k' =
          (if k' \<noteq> k \<and> sq_expires s k' then ([], None) else mem_session (mem_append k role content m) k')))
    \<and> (\<exists>s'. tx_set_pending cx k p (encode_store cx s) = (Inr (), encode_store cx s') \<and> sq_inv s' \<and> rows_kept cx s'
      \<and> (\<forall>k'. sq_session s' k' =
          (if k' \<noteq> k \<and> sq_expires s k' then ([], None) else mem_session (mem_set_pending k p m) k')))"
proof (intro conjI)
  note same = assms(3) [unfolded sq_session_def mem_session_def prod.inject]
  show "tx_get_history cx k (encode_store cx s) = (Inr (JArr (map JObj (mem_get_history m k))), encode_store cx s)"
    and "tx_get_pending cx k (encode_store cx s) = (Inr (mem_get_pending m k), encode_store cx s)"
    using same [of k] by (simp_all add: get_history_encoded [OF assms(2)] get_pending_encoded [OF assms(2)])
qed (use append_encoded [OF assms(2,4,5)] set_pending_encoded [OF assms(2,6)]
    sqlite_store_refines_memory [OF assms(1,3)] in blast)+

subsection \<open>Witness\<close>

definition demo_codec :: text_codec where
  "demo_codec =
     \<lparr>cx_float_repr = (\<lambda>_. ''0.0''), cx_float_parse = (\<lambda>_. 0), cx_dump_request = (\<lambda>p. tc_id (cr_tool_call p)),
      cx_load_request = (\<lambda>i. Inr \<lparr>cr_tool_call =
        \<lparr>tc_id = i, tc_name = ''book_room'', tc_arguments = [], tc_provider_data = None\<rparr>\<rparr>)\<rparr>"

lemma session_file_refines_memory_witness:
  "let request = \<lparr>cr_tool_call = \<lparr>tc_id = ''c1'', tc_name = ''book_room'', tc_arguments = [], tc_provider_data = None\<rparr>\<rparr>;
       opened = encode_store demo_codec (sq_init 604800 (\<lambda>n. (real n, real n)))
   in (\<exists>s'. tx_append demo_codec ''cli:a'' ''user'' ''hi'' opened = (Inr (), encode_store demo_codec s')
        \<and> sq_get_history s' ''cli:a'' = [turn ''user'' ''hi''])
    \<and> (\<exists>s'. tx_set_pending demo_codec ''cli:a'' (Some request) opened = (Inr (), encode_store demo_codec s')
        \<and> sq_get_pending s' ''cli:a'' = Some request)"
proof -
  let ?p = "Some \<lparr>cr_tool_call = \<lparr>tc_id = ''c1'', tc_name = ''book_room'', tc_arguments = [], tc_provider_data = None\<rparr>\<rparr>"
  let ?s = "sq_init 604800 (\<lambda>n. (real n, real n))"
  have inv: "sq_inv ?s" and kept: "rows_kept demo_codec ?s" by (simp_all add: sq_inv_def sq_init_def rows_kept_def)
  have eq: "sq_session ?s k = mem_session mem_init k" for k
    by (simp add: sq_session_def mem_session_def sq_defs sq_init_def mem_init_def mem_defs)
  have texts: "utf8_valid ''user''" "utf8_valid ''hi''" by (simp_all add: ascii_valid ascii_text_def)
  have request: "request_kept demo_codec ?p" by (simp add: request_kept_def demo_codec_def)
  note facts = session_file_refines_memory [OF inv kept eq texts request, of "''cli:a''"]
  obtain s1 where s1: "tx_append demo_codec ''cli:a'' ''user'' ''hi'' (encode_store demo_codec ?s) = (Inr (), encode_store demo_codec s1)"
    "sq_session s1 ''cli:a'' = mem_session (mem_append ''cli:a'' ''user'' ''hi'' mem_init) ''cli:a''"
    using facts by auto
  obtain s2 where s2: "tx_set_pending demo_codec ''cli:a'' ?p (encode_store demo_codec ?s) = (Inr (), encode_store demo_codec s2)"
    "sq_session s2 ''cli:a'' = mem_session (mem_set_pending ''cli:a'' ?p mem_init) ''cli:a''"
    using facts by auto
  have "sq_get_history s1 ''cli:a'' = [turn ''user'' ''hi'']" "sq_get_pending s2 ''cli:a'' = ?p"
    using s1(2) s2(2)
    by (simp_all add: mem_session_append mem_session_set_pending sq_session_def) (simp_all add: mem_session_def mem_init_def mem_defs)
  with s1(1) s2(1) show ?thesis unfolding Let_def by blast
qed

end
