(* ===== verification/Columns_Text.thy ===== *)
theory Columns_Text
  imports Entities_Props Json_Text Frames
begin

text \<open>
  The columns of a table are stored as a JSON text (\<open>columns_json\<close> of
  \<open>entities/sqlite_repository.py\<close>); the model of the repository keeps the value that the text
  encodes. Here: whatever operations are run, that value is a list of columns with valid names, whose
  text \<open>json.loads\<close> reads back, so nothing is lost in the text.
\<close>

subsection \<open>Names are plain ASCII\<close>

lemma ident_char_ascii: "ident_char c \<Longrightarrow> (of_char c :: nat) < 128"
proof -
  have "of_char CHR ''_'' = (95 :: nat)" by simp
  then show "ident_char c \<Longrightarrow> (of_char c :: nat) < 128"
    by (auto simp: ident_char_def ident_start_def is_lower_def is_upper_def is_digit_def Let_def)
qed

lemma identifier_valid: "sql_identifier_match s \<Longrightarrow> utf8_valid s"
  unfolding sql_identifier_match_def
  by (erule matches_at_dollar_cases; rule ascii_valid)
    (auto simp: ascii_text_def list_all_iff dest!: ident_body_chars intro: ident_char_ascii)

definition named_columns :: "column_def list \<Rightarrow> bool" where
  "named_columns cs \<longleftrightarrow> list_all (\<lambda>c. sql_identifier_match (cd_name c)) cs"

lemma storable_column: "sql_identifier_match (cd_name c) \<Longrightarrow> storable (dump_column c)"
proof -
  have "utf8_valid ''name''" "utf8_valid ''type''" "utf8_valid ''required''" "utf8_valid (column_type_value t)" for t
    by (cases t; simp add: ascii_valid ascii_text_def)+
  then show "sql_identifier_match (cd_name c) \<Longrightarrow> storable (dump_column c)"
    unfolding dump_column_def by (simp add: identifier_valid)
qed

lemma columns_text:
  assumes "named_columns cs"
  shows "json_loads rf (json_dumps fr (JArr (map dump_column cs))) = Some (JArr (map dump_column cs))"
proof (rule loads_dumps)
  have "storables (map dump_column cs)"
    using assms by (induction cs) (simp_all add: named_columns_def storable_column)
  then show "storable (JArr (map dump_column cs))" by simp
qed

subsection \<open>Every operation keeps them\<close>

definition texts_ok :: "entity_db \<Rightarrow> bool" where
  "texts_ok db \<longleftrightarrow> (\<forall>m \<in> set (ed_meta db). \<exists>cs. mt_columns m = JArr (map dump_column cs) \<and> named_columns cs)"

definition keeps_texts :: "entity_db \<Rightarrow> entity_db \<Rightarrow> bool" where
  "keeps_texts db db' \<longleftrightarrow> (texts_ok db \<longrightarrow> texts_ok db')"

interpretation texts: frame keeps_texts
  by unfold_locales (auto simp: keeps_texts_def)

named_theorems texts_intros \<open>commands that keep the column texts\<close>

lemmas [texts_intros] = texts.intros

lemma texts_same_meta: "(\<And>s r s'. m s = (r, s') \<Longrightarrow> ed_meta s' = ed_meta s) \<Longrightarrow> obeys keeps_texts m"
  by (rule obeysI) (simp add: keeps_texts_def texts_ok_def)

lemma texts_sql [texts_intros]:
  "obeys keeps_texts begin_transaction" "obeys keeps_texts sql_commit" "obeys keeps_texts fresh_uuid"
  "obeys keeps_texts clock_now" "obeys keeps_texts (the_table name)" "obeys keeps_texts (guard_sql ok)"
  "obeys keeps_texts (modify (put_table t))" "obeys keeps_texts list_tables" "obeys keeps_texts (require_table name)"
  "obeys keeps_texts (sql_drop_table name)"
  by (auto simp: sql_drop_table_def begin_transaction_def sql_commit_def fresh_uuid_def clock_now_def the_table_def guard_sql_def
      put_table_def list_tables_def require_table_def split: option.splits intro!: texts_same_meta)

lemma texts_statements [texts_intros]:
  "obeys keeps_texts (sql_create_table eng name auto cols)"
  "obeys keeps_texts (sql_add_column eng name c)" "obeys keeps_texts (sql_rename_column eng name old new)"
  "obeys keeps_texts (sql_drop_column name column)" "obeys keeps_texts (sql_insert eng name columns values)"
  "obeys keeps_texts (sql_replace eng name columns i values)" "obeys keeps_texts (sql_select_id eng name columns i)"
  "obeys keeps_texts (sql_delete_id eng name i)"
  unfolding sql_create_table_def sql_add_column_def sql_rename_column_def sql_drop_column_def sql_insert_def
    sql_replace_def sql_select_id_def sql_delete_id_def Let_def
  by (intro texts_intros; auto intro!: texts_same_meta)+

lemma texts_validated:
  "(sql_identifier_match x \<Longrightarrow> obeys keeps_texts (f x)) \<Longrightarrow>
     obeys keeps_texts (bindC (liftR (validate_identifier x e)) f)"
  by (auto simp: obeys_def bindC_def validate_identifier_def texts.same)

lemma texts_required:
  assumes "\<And>td. named_columns (td_columns td) \<Longrightarrow> obeys keeps_texts (f td)"
  shows "obeys keeps_texts (bindC (require_table name) f)"
proof (rule obeysI)
  fix db r db' assume run: "bindC (require_table name) f db = (r, db')"
  show "keeps_texts db db'"
  proof (cases "texts_ok db \<and> (\<exists>td. require_table name db = (Inr td, db))")
    case True
    then obtain td m where m: "find_meta name db = Some m" and td: "table_def_from_row m = Inr td"
      and req: "require_table name db = (Inr td, db)"
      by (auto simp: require_table_def split: option.splits)
    from m have "m \<in> set (ed_meta db)" by (auto simp: find_meta_def dest: find_SomeD)
    with True td have "named_columns (td_columns td)"
      by (auto simp: texts_ok_def table_def_from_row_def bindR_Inr_iff)
    from obeysD [OF assms [OF this]] run req show ?thesis by (simp add: bindC_def)
  next
    case False
    with run show ?thesis
      by (auto simp: keeps_texts_def bindC_def require_table_def split: option.splits sum.splits)
  qed
qed

lemma texts_written: "named_columns cs \<Longrightarrow> obeys keeps_texts (write_columns_metadata name cs)"
  unfolding write_columns_metadata_def
  by (intro texts_intros obeysI) (auto simp: keeps_texts_def texts_ok_def)

lemma texts_alter:
  "obeys keeps_texts (add_column eng name c)" "obeys keeps_texts (rename_column eng name old new)"
  "obeys keeps_texts (drop_column name column)"
  unfolding add_column_def rename_column_def drop_column_def Let_def
  by (intro texts_required texts_validated texts_intros texts_written;
      auto simp: named_columns_def list_all_iff)+

lemma validated_columns: "mapMR validate_column cs = Inr ds \<Longrightarrow> named_columns cs"
  by (induction cs arbitrary: ds)
    (auto simp: named_columns_def bindR_Inr_iff mapR_Inr_iff validate_column_def validate_identifier_Inr_iff)

lemma texts_create: "obeys keeps_texts (create_table eng td)"
proof (rule obeysI)
  fix db r db' assume run: "create_table eng td db = (r, db')"
  show "keeps_texts db db'"
  proof (cases r)
    case (Inl e)
    with create_table_cases [OF run] show ?thesis by (simp add: texts.same)
  next
    case (Inr u)
    with run have "named_columns (td_columns td)"
      unfolding create_table_def by (auto elim!: bindC_InrE dest: validated_columns)
    with create_table_cases [OF run] Inr show ?thesis
      by (auto simp: keeps_texts_def texts_ok_def created_def new_meta_def)
  qed
qed

lemma texts_drop: "obeys keeps_texts (drop_table name)"
  unfolding drop_table_def
  by (intro texts_intros obeysI) (auto simp: keeps_texts_def texts_ok_def)

lemma texts_rows:
  "obeys keeps_texts (upsert_row eng name row)" "obeys keeps_texts (delete_row eng name i)"
  unfolding upsert_row_def delete_row_def get_row_def Let_def by (intro texts_intros)+

lemma texts_result: "obeys keeps_texts m \<Longrightarrow> texts_ok db \<Longrightarrow> texts_ok (snd (m db))"
  using obeysD [of keeps_texts m db "fst (m db)" "snd (m db)"] by (simp add: keeps_texts_def)

lemma texts_op: "texts_ok db \<Longrightarrow> texts_ok (run_op eng op db)"
  by (cases op) (simp_all add: texts_result texts_create texts_drop texts_alter texts_rows)

lemma texts_ops: "texts_ok db \<Longrightarrow> texts_ok (fold (run_op eng) ops db)"
  by (induction ops arbitrary: db) (simp_all add: texts_op)

text \<open>
  What is stored of a table's columns comes back. After any operations on a fresh repository the
  column text of every listed table is read back by \<open>json.loads\<close> as the value that was written, and
  that value parses to the table's columns.
\<close>

lemma columns_text_reads_back:
  assumes "db = fold (run_op eng) ops (repo_open others uuids clock)" and "m \<in> set (ed_meta db)"
  shows "json_loads rf (json_dumps fr (mt_columns m)) = Some (mt_columns m)
    \<and> (\<exists>cs. mt_columns m = JArr (map dump_column cs) \<and> mapMR parse_column (map dump_column cs) = Inr cs)"
proof -
  have "texts_ok (repo_open others uuids clock)" by (simp add: texts_ok_def repo_open_def)
  from texts_ops [OF this] assms obtain cs where "mt_columns m = JArr (map dump_column cs)" "named_columns cs"
    unfolding texts_ok_def by blast
  with columns_text [of cs rf fr] show ?thesis by (auto simp del: json_dumps.simps)
qed

end
