(* ===== verification/Owner_To_Customer.thy ===== *)
theory Owner_To_Customer
  imports Route_Props Row_Types Business_Runtime
begin

text \<open>
  From the owner to the customer and back: a table created over the admin routes
  (\<open>interfaces/admin/entities_router.py\<close>), the runtime of the Business loaded afterwards
  (\<open>conversation.py\<close>), a call of one of the table's generated Tools in a conversation
  (\<open>tools/entity_crud_provider.py\<close>), and the rows the owner is then shown. The two sides meet in
  the configuration file and in the Business's database.
\<close>

lemma loaded_config:
  assumes "load_conversation_runtime lib path v = (Inr rt, v')"
  shows "fst (load_business_config (lib_io lib) path (wd_disk v)) = Inr (ac_config (rt_core rt))"
proof -
  obtain core w1 where core: "load_agent_core lib path v = (Inr core, w1)" and "rt_core rt = core"
    using assms unfolding load_conversation_runtime_def by (auto elim!: bindC_InrE)
  moreover have "fst (load_business_config (lib_io lib) path (wd_disk v)) = Inr (ac_config core)"
    using core unfolding load_agent_core_def
    by (auto elim!: bindC_InrE simp: in_disk_def zoom_def split: if_splits prod.splits)
  ultimately show ?thesis by simp
qed

text \<open>The names of the generated Tools are none of the built-in providers' names.\<close>

lemma generated_not_base:
  assumes "verb \<in> set crud_verbs" and "t \<noteq> []"
  shows "\<not> base_knows base (crud_tool_name verb t)"
proof -
  have "parse_tool_name (crud_tool_name verb t) = Some (verb, t)" using assms by (simp add: parse_tool_name_Some_iff)
  moreover have "parse_tool_name ''check_room_availability'' = None" "parse_tool_name ''book_room'' = None"
    "parse_tool_name ''check_menu_item'' = None" by code_simp+
  ultimately show ?thesis by (cases base) (auto simp: base_knows_def)
qed

lemma crud_target_named:
  assumes "repo_inv eng tds db" and "td \<in> set tds" and "td_tool_linked td = None"
    and "verb \<in> set crud_verbs" and "td_table_name td \<noteq> []"
  shows "crud_target tds (crud_tool_name verb (td_table_name td)) = Some (verb, td)"
proof -
  have "distinct (map def_key tds)" using assms(1) by (simp add: repo_inv_def catalogue_wf_def)
  then have "distinct (map td_table_name tds)" by (auto simp: distinct_map inj_on_def def_key_def)
  from find_unique [OF this assms(2)] have "find_def (td_table_name td) tds = Some td" by (simp add: find_def_def)
  moreover have "parse_tool_name (crud_tool_name verb (td_table_name td)) = Some (verb, td_table_name td)"
    using assms(4,5) by (simp add: parse_tool_name_Some_iff)
  ultimately show ?thesis using assms(3) by (simp add: crud_target_def)
qed

text \<open>The row an insertion returns is listed.\<close>

lemma inserted_is_listed:
  assumes "repo_inv eng tds db" and "upserted eng tds name row db stored db'"
  shows "\<exists>rows. list_rows name db' = (Inr rows, db') \<and> stored \<in> set rows"
proof (rule upsertedE [OF assms])
  fix td k
  assume td: "find_def name tds = Some td" and inv: "repo_inv eng tds db'"
    and map: "\<And>other k'. row_at tds db' other k' = (if other = name \<and> k' = k then Some stored else row_at tds db other k')"
  obtain t where t: "find_table (td_table_name td) db' = Some t"
    and rows: "list_rows name db' = (Inr (map (stored_row td) (tb_rows t)), db')"
    by (rule list_rows_run [OF inv td])
  from map have "row_at tds db' name k = Some stored" by simp
  with td t have "stored \<in> set (map (stored_row td) (tb_rows t))"
    by (auto simp: row_at_def dest: find_SomeD)
  with rows show ?thesis by blast
qed

lemma listed_by_route:
  assumes "repo_inv (sv_eng sv) tds (bk_dbs w b)" and "list_rows_route sv b name auth w = (Inr rows, w')"
  shows "list_rows name (bk_dbs w b) = (Inr rows, bk_dbs w b)"
  using assms(2) unfolding list_rows_route_def
proof (cases rule: same_data.step [OF _ quiet_authorize, consumes 1, case_names refused admitted])
  case (admitted user w1)
  from admitted(3) show ?thesis
  proof (cases rule: same_data.step [OF _ quiet_entity_repo, consumes 1, case_names no_repo opened])
    case (opened u w2)
    have db: "bk_dbs w2 b = bk_dbs w b" using admitted(2) opened(2) by (simp add: same_data_def)
    from opened(3) have "rethrow (\<lambda>e. case e of UnknownTableError _ \<Rightarrow> HTTPException 404 | _ \<Rightarrow> e)
        (on_repo b (list_rows name)) w2 = (Inr rows, w')"
      using require_listed_run [of "sv_eng sv" tds w2 b name] assms(1) db
      by (auto simp: bindC_def split: option.splits)
    then show ?thesis
      using list_rows_state [of name "bk_dbs w b"]
      by (auto simp: rethrow_apply on_repo_run db split: prod.splits sum.splits)
  qed simp
qed simp

lemma create_call_listed:
  assumes rt: "load_conversation_runtime lib path v0 = (Inr rt, v1)"
    and v: "repo_inv (sv_eng sv) (tds @ [td]) (wd_db v)" and unlinked: "td_tool_linked td = None"
    and name: "td_table_name td \<noteq> []" and num: "numbers_only (sv_eng sv)" and eng: "lib_eng lib = sv_eng sv"
    and run: "rt_tool_call rt (crud_tool_name ''create'' (td_table_name td)) args v = (Inr result, v')"
  shows "\<exists>stored. result = success_with stored \<and> (\<forall>w auth rows w'. bk_dbs w b = wd_db v' \<longrightarrow>
      list_rows_route sv b (td_table_name td) auth w = (Inr rows, w') \<longrightarrow> stored \<in> set rows)"
proof -
  let ?t = "td_table_name td"
  obtain base where "rt_tool_call rt = composite_call (business_providers lib base (bc_tools (rt_config rt)))"
    using loaded_runtime [OF rt] .
  moreover have create: "''create'' \<in> set crud_verbs" by (simp add: crud_verbs_def)
  note target = crud_target_named [OF v _ unlinked create name]
  moreover have "world_inv lib v" using v num eng by (auto simp: world_inv_def crud_inv_def)
  ultimately have "crud_provider lib (crud_tool_name ''create'' ?t) args v = (Inr result, v')"
    using run dispatch [of lib v base] generated_not_base [OF create name] v eng
    by (simp add: crud_knows_def repo_inv_def)
  then obtain stored where result: "result = success_with stored"
    and up: "upsert_row (sv_eng sv) ?t (dwithout ''id'' args) (wd_db v) = (Inr stored, wd_db v')"
    using crud_call_known(1) [OF v target] eng
    by (auto simp: crud_provider_def in_db_def zoom_def bindC_def split: prod.splits sum.splits)
  from upsert_row_cases [OF v num up] have new: "upserted (sv_eng sv) (tds @ [td]) ?t (dwithout ''id'' args) (wd_db v) stored (wd_db v')"
    by simp
  have "stored \<in> set rows" if "bk_dbs w b = wd_db v'" "list_rows_route sv b ?t auth w = (Inr rows, w')" for w auth rows w'
    using inserted_is_listed [OF v new] listed_by_route [OF _ that(2)] upsertedE [OF v new] that(1)
    by (metis Pair_inject sum.inject(2))
  with result show ?thesis by blast
qed

text \<open>
  C9: a new table serves customers at once. Let an owner's create-table request for a table with no
  Tool linked to it succeed, and let a runtime of the Business be loaded from the file it has left.
  Then the LLM is offered the four generated Tools after those already there, the Tool Rail lets the
  listing Tool through, asks for a confirmation before each of the three that write, and decides every
  call of another name as before; and in every state in which the database has the table, as it has
  right after the request, what a successful call of the create Tool reports to the customer is a row
  of the table, which the owner's list-rows request on that database shows.
\<close>

theorem new_table_serves_customers:
  assumes "create_table_route sv b td auth w = (Inr td', w1)" and "td_tool_linked td = None" and "td_table_name td \<noteq> []"
    and "repo_inv (sv_eng sv) tds (bk_dbs w b)" and "numbers_only (sv_eng sv)" and "yaml_round_trip (sv_io sv)"
    and "load_business_config (sv_io sv) (business_yaml sv b) (bk_disk w) = (Inr current, bk_disk w)"
    and "accepts_tools (sv_io sv) current (bc_tools current @ new_tool_configs td)"
    and "lib_io lib = sv_io sv" and "lib_eng lib = sv_eng sv" and "wd_disk v0 = bk_disk w1"
    and "load_conversation_runtime lib (business_yaml sv b) v0 = (Inr rt, v1)"
  shows "bc_tools (rt_config rt) = bc_tools current @ derive_crud_tool_configs td
    \<and> (\<forall>tc verb. verb \<in> set crud_verbs \<longrightarrow> tc_name tc = crud_tool_name verb (td_table_name td) \<longrightarrow>
         decide tc (bc_tools (rt_config rt)) = (if verb = ''list'' then Allow else RequireConfirmation))
    \<and> (\<forall>tc. tc_name tc \<notin> set (crud_tool_names (td_table_name td)) \<longrightarrow>
         decide tc (bc_tools (rt_config rt)) = decide tc (bc_tools current))
    \<and> repo_inv (sv_eng sv) (tds @ [td]) (bk_dbs w1 b)
    \<and> (\<forall>v args result v'. repo_inv (sv_eng sv) (tds @ [td]) (wd_db v) \<longrightarrow>
         rt_tool_call rt (crud_tool_name ''create'' (td_table_name td)) args v = (Inr result, v') \<longrightarrow>
         (\<exists>stored. result = success_with stored
            \<and> (\<forall>w2 auth2 rows w3. bk_dbs w2 b = wd_db v' \<longrightarrow>
                 list_rows_route sv b (td_table_name td) auth2 w2 = (Inr rows, w3) \<longrightarrow> stored \<in> set rows)))"
proof -
  let ?t = "td_table_name td" and ?tools = "bc_tools current @ derive_crud_tool_configs td"
  from create_route_run [OF assms(1,6,7,8)] assms(2) have ok: "creatable td (bk_dbs w b)"
    and db: "bk_dbs w1 b = created td (bk_dbs w b)"
    and apart: "set (map tl_name (bc_tools current)) \<inter> set (map tl_name (derive_crud_tool_configs td)) = {}"
    and saved: "fst (load_business_config (sv_io sv) (business_yaml sv b) (bk_disk w1)) = Inr (current\<lparr>bc_tools := ?tools\<rparr>)"
    by (auto simp: new_tool_configs_def created_together_def)
  have "rt_config rt = current\<lparr>bc_tools := ?tools\<rparr>"
    using loaded_config [OF assms(12)] saved assms(9,11) by simp
  then have tools: "bc_tools (rt_config rt) = ?tools" by simp
  have inv: "repo_inv (sv_eng sv) (tds @ [td]) (bk_dbs w1 b)"
    unfolding db by (rule repo_inv_created [OF assms(4) ok])
  have rail: "decide tc ?tools = (if verb = ''list'' then Allow else RequireConfirmation)"
    if "verb \<in> set crud_verbs" "tc_name tc = crud_tool_name verb ?t" for tc verb
  proof -
    have "tc_name tc \<in> set (map tl_name (derive_crud_tool_configs td))"
      using that unfolding derived_names by (simp add: crud_tool_names_def)
    with apart have "tc_name tc \<notin> set (map tl_name (bc_tools current))" by blast
    with crud_names_round_trip [OF assms(3)] that show ?thesis by (simp add: decide_appended)
  qed
  note call = create_call_listed [OF assms(12) _ assms(2,3,5,10)]
  have others: "decide tc ?tools = decide tc (bc_tools current)" if "tc_name tc \<notin> set (crud_tool_names ?t)" for tc
    using that by (simp only: decide_other_names derived_names not_False_eq_True)
  show ?thesis unfolding tools using rail others inv call by blast
qed

subsection \<open>Witness\<close>

definition demo_tools_libraries :: "unit libraries" where
  "demo_tools_libraries = demo_libraries\<lparr>lib_io := sv_io demo_tools_server, lib_eng := sv_eng demo_tools_server\<rparr>"

lemma demo_tools_loadable:
  "bc_enabled demo_tools_config" "bc_tool_provider demo_tools_config = ''in_memory''"
  "build_llm_provider (bc_llm demo_tools_config) = Inr (GoogleLLMProvider ''gemini-flash-lite-latest'')"
  "bc_tools demo_tools_config = derive_crud_tool_configs demo_table"
  by code_simp+

lemma new_table_serves_customers_witness:
  "\<exists>rt v. load_conversation_runtime demo_tools_libraries (business_yaml demo_tools_server ''acme'')
       (demo_world\<lparr>wd_disk := bk_disk (snd (create_table_route demo_tools_server ''acme'' demo_table (Some ''Bearer jwt'') demo_new_office))\<rparr>)
     = (Inr rt, v)
   \<and> decide \<lparr>tc_id = ''c1'', tc_name = ''create_rooms'', tc_arguments = [], tc_provider_data = None\<rparr> (bc_tools (rt_config rt))
     = RequireConfirmation"
proof -
  let ?run = "create_table_route demo_tools_server ''acme'' demo_table (Some ''Bearer jwt'') demo_new_office"
  let ?world = "demo_world\<lparr>wd_disk := bk_disk (snd ?run)\<rparr>" and ?path = "business_yaml demo_tools_server ''acme''"
  obtain td where ok: "?run = (Inr td, snd ?run)" using demo_table_runs(1) by (metis prod.collapse sum.collapse(2))
  have linked: "td_tool_linked demo_table = None" "td_table_name demo_table \<noteq> []" by (simp_all add: demo_table_def)
  have inv: "repo_inv (sv_eng demo_tools_server) [] (bk_dbs demo_new_office ''acme'')"
    by (simp add: demo_new_office_def demo_file_def repo_inv_open)
  have num: "numbers_only (sv_eng demo_tools_server)"
    using demo_numbers by (simp add: demo_tools_server_def demo_server_def auth_env.extend_def)
  have load: "load_business_config (sv_io demo_tools_server) ?path (bk_disk demo_new_office)
      = (Inr demo_signup_config, bk_disk demo_new_office)"
    using demo_loads(1) load_keeps_disk by (metis prod.collapse)
  have same: "lib_io demo_tools_libraries = sv_io demo_tools_server" "lib_eng demo_tools_libraries = sv_eng demo_tools_server"
    by (simp_all add: demo_tools_libraries_def)
  have new: "new_tool_configs demo_table = derive_crud_tool_configs demo_table" using linked by (simp add: new_tool_configs_def)
  have "fst (load_business_config (sv_io demo_tools_server) ?path (bk_disk (snd ?run))) = Inr demo_tools_config"
    using create_route_run [OF ok demo_tools_round_trip load demo_accepts(1)]
    by (auto simp: created_together_def demo_tools_no_base new demo_tools_config_def)
  then have saved: "load_business_config (lib_io demo_tools_libraries) ?path (wd_disk ?world) = (Inr demo_tools_config, wd_disk ?world)"
    unfolding same using load_keeps_disk by simp (metis prod.collapse)
  have nemo: "lib_nemo_init demo_tools_libraries = ret ()" by (simp add: demo_tools_libraries_def demo_libraries_def)
  obtain rt v where rt: "load_conversation_runtime demo_tools_libraries ?path ?world = (Inr rt, v)"
    using runtime_loads [OF saved demo_tools_loadable(1,3,2) nemo] by blast
  have "''create_rooms'' = crud_tool_name ''create'' (td_table_name demo_table)" "''create'' \<in> set crud_verbs"
    by (simp_all add: crud_tool_name_def crud_verbs_def demo_table_def)
  with new_table_serves_customers [OF ok linked inv num demo_tools_round_trip load demo_accepts(1) same _ rt] rt
  show ?thesis by auto
qed

end
