(* ===== verification/Concurrent_Writes.thy ===== *)
theory Concurrent_Writes
  imports Config_Store "HOL-Library.Sublist"
begin

text \<open>
  Writes and reads of one Business Config that overlap in time. In theory Config_Store the temporary
  file and \<open>os.replace\<close> of \<open>write_business_config_atomically\<close> (\<open>business_config/writer.py\<close>) are two
  steps nothing comes between; the routes run in threads and processes, and take no lock. Here the
  write is split into the system calls that \<open>Path.write_text\<close> and \<open>os.replace\<close> make, the read of
  \<open>load_business_config\<close> into those of \<open>Path.read_text\<close>, over a file system of names and inodes: an
  open file stays the inode it was opened as, whatever happens to its name.
\<close>

subsection \<open>System calls\<close>

datatype writer =
    Ready string
  | Writing string nat nat
  | Written
  | Failed

datatype reader =
    Idle
  | Reading nat string
  | Got string

record fs =
  fs_names :: "string \<Rightarrow> nat option"
  fs_inodes :: "nat \<Rightarrow> string"
  fs_next :: nat
  fs_writers :: "nat \<Rightarrow> writer"
  fs_readers :: "nat \<Rightarrow> reader"

text \<open>
  A writer in state \<open>Writing text n w\<close> has the inode \<open>n\<close> open and has written \<open>w\<close> bytes of \<open>text\<close>. The
  buffers of Python's file objects decide how a text is cut into chunks; any way is allowed.
\<close>

datatype fs_event =
    TmpOpened nat
  | ChunkWritten nat nat
  | FileReplaced nat
  | ReplaceFailed nat
  | WriterKilled nat
  | FileOpened nat
  | ChunkRead nat nat
  | ReadEnded nat

definition tmp_of :: "string \<Rightarrow> string" where
  "tmp_of path = path @ ''.tmp''"

definition write_at :: "nat \<Rightarrow> string \<Rightarrow> string \<Rightarrow> string" where
  "write_at offset chunk old =
     take offset old @ replicate (offset - length old) CHR 0x00 @ chunk @ drop (offset + length chunk) old"

definition set_writer :: "nat \<Rightarrow> writer \<Rightarrow> fs \<Rightarrow> fs" where
  "set_writer i wr s = s\<lparr>fs_writers := (fs_writers s)(i := wr)\<rparr>"

definition set_reader :: "nat \<Rightarrow> reader \<Rightarrow> fs \<Rightarrow> fs" where
  "set_reader j rd s = s\<lparr>fs_readers := (fs_readers s)(j := rd)\<rparr>"

definition set_inode :: "nat \<Rightarrow> string \<Rightarrow> fs \<Rightarrow> fs" where
  "set_inode n text s = s\<lparr>fs_inodes := (fs_inodes s)(n := text)\<rparr>"

text \<open>\<open>open(tmp, 'w')\<close> truncates the file that has the name, or creates one.\<close>

definition open_truncated :: "string \<Rightarrow> fs \<Rightarrow> nat \<times> fs" where
  "open_truncated name s = (case fs_names s name of
     Some n \<Rightarrow> (n, set_inode n [] s)
   | None \<Rightarrow> (fs_next s, set_inode (fs_next s) []
       (s\<lparr>fs_names := (fs_names s)(name := Some (fs_next s)), fs_next := Suc (fs_next s)\<rparr>)))"

inductive fs_step :: "string \<Rightarrow> fs \<Rightarrow> fs_event \<Rightarrow> fs \<Rightarrow> bool" for path where
  open_tmp: "fs_writers s i = Ready text \<Longrightarrow> open_truncated (tmp_of path) s = (n, s') \<Longrightarrow>
     fs_step path s (TmpOpened i) (set_writer i (Writing text n 0) s')"
| write_chunk: "fs_writers s i = Writing text n w \<Longrightarrow> 0 < k \<Longrightarrow> w + k \<le> length text \<Longrightarrow>
     fs_step path s (ChunkWritten i k)
       (set_writer i (Writing text n (w + k)) (set_inode n (write_at w (take k (drop w text)) (fs_inodes s n)) s))"
| replace: "fs_writers s i = Writing text n (length text) \<Longrightarrow> fs_names s (tmp_of path) = Some m \<Longrightarrow>
     fs_step path s (FileReplaced i)
       (set_writer i Written (s\<lparr>fs_names := (fs_names s)(path := Some m, tmp_of path := None)\<rparr>))"
| replace_missing: "fs_writers s i = Writing text n (length text) \<Longrightarrow> fs_names s (tmp_of path) = None \<Longrightarrow>
     fs_step path s (ReplaceFailed i) (set_writer i Failed s)"
| kill: "fs_writers s i = Writing text n w \<Longrightarrow> fs_step path s (WriterKilled i) (set_writer i Failed s)"
| open_file: "fs_readers s j = Idle \<Longrightarrow> fs_names s path = Some n \<Longrightarrow>
     fs_step path s (FileOpened j) (set_reader j (Reading n []) s)"
| read_chunk: "fs_readers s j = Reading n got \<Longrightarrow> 0 < k \<Longrightarrow>
     fs_step path s (ChunkRead j k) (set_reader j (Reading n (got @ take k (drop (length got) (fs_inodes s n)))) s)"
| end_read: "fs_readers s j = Reading n got \<Longrightarrow> length (fs_inodes s n) \<le> length got \<Longrightarrow>
     fs_step path s (ReadEnded j) (set_reader j (Got got) s)"

inductive fs_run :: "string \<Rightarrow> fs \<Rightarrow> fs_event list \<Rightarrow> fs \<Rightarrow> bool" for path where
  stop: "fs_run path s [] s"
| more: "fs_step path s ev s1 \<Longrightarrow> fs_run path s1 evs s' \<Longrightarrow> fs_run path s (ev # evs) s'"

inductive_simps fs_run_simps: "fs_run path s [] s'" "fs_run path s (ev # evs) s'"

text \<open>The same steps as a function, to run a schedule; \<open>None\<close> is a step that cannot be taken.\<close>

fun fs_exec :: "string \<Rightarrow> fs_event \<Rightarrow> fs \<Rightarrow> fs option" where
  "fs_exec path (TmpOpened i) s = (case fs_writers s i of
     Ready text \<Rightarrow> (case open_truncated (tmp_of path) s of (n, s') \<Rightarrow> Some (set_writer i (Writing text n 0) s'))
   | _ \<Rightarrow> None)"
| "fs_exec path (ChunkWritten i k) s = (case fs_writers s i of
     Writing text n w \<Rightarrow>
       if 0 < k \<and> w + k \<le> length text
       then Some (set_writer i (Writing text n (w + k)) (set_inode n (write_at w (take k (drop w text)) (fs_inodes s n)) s))
       else None
   | _ \<Rightarrow> None)"
| "fs_exec path (FileReplaced i) s = (case fs_writers s i of
     Writing text n w \<Rightarrow>
       if w \<noteq> length text then None
       else map_option (\<lambda>m. set_writer i Written (s\<lparr>fs_names := (fs_names s)(path := Some m, tmp_of path := None)\<rparr>))
              (fs_names s (tmp_of path))
   | _ \<Rightarrow> None)"
| "fs_exec path (ReplaceFailed i) s = (case fs_writers s i of
     Writing text n w \<Rightarrow> if w = length text \<and> fs_names s (tmp_of path) = None then Some (set_writer i Failed s) else None
   | _ \<Rightarrow> None)"
| "fs_exec path (WriterKilled i) s = (case fs_writers s i of
     Writing text n w \<Rightarrow> Some (set_writer i Failed s) | _ \<Rightarrow> None)"
| "fs_exec path (FileOpened j) s = (case fs_readers s j of
     Idle \<Rightarrow> map_option (\<lambda>n. set_reader j (Reading n []) s) (fs_names s path) | _ \<Rightarrow> None)"
| "fs_exec path (ChunkRead j k) s = (case fs_readers s j of
     Reading n got \<Rightarrow>
       if 0 < k then Some (set_reader j (Reading n (got @ take k (drop (length got) (fs_inodes s n)))) s) else None
   | _ \<Rightarrow> None)"
| "fs_exec path (ReadEnded j) s = (case fs_readers s j of
     Reading n got \<Rightarrow> if length (fs_inodes s n) \<le> length got then Some (set_reader j (Got got) s) else None
   | _ \<Rightarrow> None)"

fun fs_execs :: "string \<Rightarrow> fs_event list \<Rightarrow> fs \<Rightarrow> fs option" where
  "fs_execs path [] s = Some s"
| "fs_execs path (ev # evs) s = Option.bind (fs_exec path ev s) (fs_execs path evs)"

lemma fs_exec_step: "fs_exec path ev s = Some s' \<Longrightarrow> fs_step path s ev s'"
  by (cases ev) (auto split: writer.splits reader.splits prod.splits if_splits intro: fs_step.intros)

lemma fs_step_exec: "fs_step path s ev s' \<Longrightarrow> fs_exec path ev s = Some s'"
  by (induction rule: fs_step.induct) auto

lemma fs_execs_iff: "fs_execs path evs s = Some s' \<longleftrightarrow> fs_run path s evs s'"
  by (induction evs arbitrary: s) (auto simp: fs_run_simps Option.bind_eq_Some_conv dest: fs_exec_step fs_step_exec)

definition fs_text :: "string \<Rightarrow> fs \<Rightarrow> string option" where
  "fs_text name s = map_option (fs_inodes s) (fs_names s name)"

subsection \<open>Specification\<close>

text \<open>
  Writers take turns: none opens the temporary file while another is between its opening and its
  replacing, unless that one was killed. Readers come at any time.
\<close>

fun take_turns :: "nat option \<Rightarrow> fs_event list \<Rightarrow> bool" where
  "take_turns busy [] = True"
| "take_turns busy (TmpOpened i # evs) = (busy = None \<and> take_turns (Some i) evs)"
| "take_turns busy (FileReplaced i # evs) = take_turns None evs"
| "take_turns busy (ReplaceFailed i # evs) = take_turns None evs"
| "take_turns busy (WriterKilled i # evs) = take_turns None evs"
| "take_turns busy (_ # evs) = take_turns busy evs"

text \<open>
  The same events on whole files: a replacing is the atomic write of theory Config_Store, of the
  values \<open>raw i\<close> that writer \<open>i\<close> writes, and a reader has seen the text the file had when it was opened.
\<close>

fun whole_step :: "config_io \<Rightarrow> (nat \<Rightarrow> json dict) \<Rightarrow> string \<Rightarrow> fs_event
    \<Rightarrow> disk \<times> (nat \<Rightarrow> string option) \<Rightarrow> disk \<times> (nat \<Rightarrow> string option)" where
  "whole_step io raw path (FileReplaced i) (dk, seen) = (snd (write_business_config_atomically io path (raw i) dk), seen)"
| "whole_step io raw path (FileOpened j) (dk, seen) = (dk, seen(j := dget (dk_files dk) path))"
| "whole_step io raw path _ x = x"

text \<open>The two sides agree while writers take turns, \<open>busy\<close> being the one at work.\<close>

definition names_agree :: "string \<Rightarrow> fs \<Rightarrow> disk \<Rightarrow> bool" where
  "names_agree path s dk \<longleftrightarrow>
     (case fs_names s path of
        None \<Rightarrow> False
      | Some p \<Rightarrow> p < fs_next s \<and> fs_names s (tmp_of path) \<noteq> Some p \<and> dget (dk_files dk) path = Some (fs_inodes s p))
   \<and> (case fs_names s (tmp_of path) of None \<Rightarrow> True | Some n \<Rightarrow> n < fs_next s)"

definition writer_agrees :: "config_io \<Rightarrow> (nat \<Rightarrow> json dict) \<Rightarrow> string \<Rightarrow> nat option \<Rightarrow> fs \<Rightarrow> nat \<Rightarrow> bool" where
  "writer_agrees io raw path busy s i \<longleftrightarrow> (case fs_writers s i of
     Ready text \<Rightarrow> text = io_dump io (raw i)
   | Writing text n w \<Rightarrow> text = io_dump io (raw i) \<and> busy = Some i \<and> fs_names s (tmp_of path) = Some n
       \<and> w \<le> length text \<and> fs_inodes s n = take w text
   | _ \<Rightarrow> True)"

definition reader_agrees :: "string \<Rightarrow> fs \<Rightarrow> (nat \<Rightarrow> string option) \<Rightarrow> nat \<Rightarrow> bool" where
  "reader_agrees path s seen j \<longleftrightarrow> (case fs_readers s j of
     Idle \<Rightarrow> True
   | Reading n got \<Rightarrow> n < fs_next s \<and> fs_names s (tmp_of path) \<noteq> Some n \<and> seen j = Some (fs_inodes s n)
       \<and> prefix got (fs_inodes s n)
   | Got text \<Rightarrow> seen j = Some text)"

definition agrees :: "config_io \<Rightarrow> (nat \<Rightarrow> json dict) \<Rightarrow> string \<Rightarrow> nat option \<Rightarrow> fs
    \<Rightarrow> disk \<times> (nat \<Rightarrow> string option) \<Rightarrow> bool" where
  "agrees io raw path busy s x \<longleftrightarrow> names_agree path s (fst x)
     \<and> (\<forall>i. writer_agrees io raw path busy s i) \<and> (\<forall>j. reader_agrees path s (snd x) j)"

lemma tmp_of_other [simp]: "tmp_of path \<noteq> path" "path \<noteq> tmp_of path"
  by (simp_all add: tmp_of_def)

lemmas fs_defs = set_writer_def set_reader_def set_inode_def
lemmas agree_defs = names_agree_def writer_agrees_def reader_agrees_def

lemma write_next_chunk: "w + k \<le> length text \<Longrightarrow> write_at w (take k (drop w text)) (take w text) = take (w + k) text"
  by (simp add: write_at_def take_add)

lemma read_chunk_prefix: "prefix got text \<Longrightarrow> prefix (got @ take k (drop (length got) text)) text"
  by (auto simp: prefix_def) (metis append_take_drop_id)

lemma read_all: "prefix got text \<Longrightarrow> length text \<le> length got \<Longrightarrow> got = text"
  by (auto simp: prefix_def)

text \<open>Each system call keeps the agreement: names first, then every writer, then every reader.\<close>

lemma agreesI:
  "names_agree path s (fst x) \<Longrightarrow> (\<And>i. writer_agrees io raw path busy s i) \<Longrightarrow> (\<And>j. reader_agrees path s (snd x) j)
     \<Longrightarrow> agrees io raw path busy s x"
  by (simp add: agrees_def)

lemma agreesD:
  assumes "agrees io raw path busy s x"
  shows "names_agree path s (fst x)" and "writer_agrees io raw path busy s i" and "reader_agrees path s (snd x) j"
  using assms by (simp_all add: agrees_def)

lemma agrees_opened:
  assumes inv: "agrees io raw path None s x" and ready: "fs_writers s i = Ready text"
    and new: "open_truncated (tmp_of path) s = (n, s1)"
  shows "agrees io raw path (Some i) (set_writer i (Writing text n 0) s1) x"
proof (rule agreesI)
  note names = agreesD(1) [OF inv]
  show "names_agree path (set_writer i (Writing text n 0) s1) (fst x)"
    using names new by (auto simp: names_agree_def open_truncated_def fs_defs split: option.splits)
  show "writer_agrees io raw path (Some i) (set_writer i (Writing text n 0) s1) i'" for i'
    using agreesD(2) [OF inv, of i] agreesD(2) [OF inv, of i'] ready new
    by (auto simp: writer_agrees_def open_truncated_def fs_defs split: option.splits writer.splits)
  show "reader_agrees path (set_writer i (Writing text n 0) s1) (snd x) j" for j
    using names agreesD(3) [OF inv, of j] new
    by (auto simp: reader_agrees_def names_agree_def open_truncated_def fs_defs split: option.splits reader.splits)
qed

lemma agrees_written:
  assumes inv: "agrees io raw path busy s x" and at: "fs_writers s i = Writing text n w" and "0 < k" "w + k \<le> length text"
  shows "agrees io raw path busy (set_writer i (Writing text n (w + k))
      (set_inode n (write_at w (take k (drop w text)) (fs_inodes s n)) s)) x"
    (is "agrees _ _ _ _ ?s _")
proof (rule agreesI)
  have w: "busy = Some i" "fs_names s (tmp_of path) = Some n" "fs_inodes s n = take w text" "text = io_dump io (raw i)"
    using agreesD(2) [OF inv, of i] at by (simp_all add: writer_agrees_def)
  show "names_agree path ?s (fst x)"
    using agreesD(1) [OF inv] w by (auto simp: names_agree_def fs_defs split: option.splits)
  show "writer_agrees io raw path busy ?s i'" for i'
    using agreesD(2) [OF inv, of i'] w assms(4) by (auto simp: writer_agrees_def fs_defs write_next_chunk split: writer.splits)
  show "reader_agrees path ?s (snd x) j" for j
    using agreesD(3) [OF inv, of j] w by (auto simp: reader_agrees_def fs_defs split: reader.splits)
qed

lemma agrees_replaced:
  assumes inv: "agrees io raw path busy s x" and at: "fs_writers s i = Writing text n (length text)"
    and m: "fs_names s (tmp_of path) = Some m"
  shows "agrees io raw path None (set_writer i Written (s\<lparr>fs_names := (fs_names s)(path := Some m, tmp_of path := None)\<rparr>))
      (whole_step io raw path (FileReplaced i) x)"
    (is "agrees _ _ _ _ ?s ?x")
proof (rule agreesI)
  have w: "busy = Some i" "m = n" "fs_inodes s n = text" "text = io_dump io (raw i)"
    using agreesD(2) [OF inv, of i] at m by (simp_all add: writer_agrees_def)
  obtain dk seen where x: "x = (dk, seen)" by (cases x)
  show "names_agree path ?s (fst ?x)"
    using agreesD(1) [OF inv] m w by (simp add: names_agree_def fs_defs x write_atomically_run)
  show "writer_agrees io raw path None ?s i'" for i'
    using agreesD(2) [OF inv, of i'] w by (auto simp: writer_agrees_def fs_defs split: writer.splits)
  show "reader_agrees path ?s (snd ?x) j" for j
    using agreesD(3) [OF inv, of j] by (auto simp: reader_agrees_def fs_defs x split: reader.splits)
qed

lemma agrees_failed:
  assumes inv: "agrees io raw path busy s x" and at: "fs_writers s i = Writing text n w"
  shows "agrees io raw path None (set_writer i Failed s) x"
proof (rule agreesI)
  have "busy = Some i" using agreesD(2) [OF inv, of i] at by (simp add: writer_agrees_def)
  then show "writer_agrees io raw path None (set_writer i Failed s) i'" for i'
    using agreesD(2) [OF inv, of i'] by (auto simp: writer_agrees_def fs_defs split: writer.splits)
  show "reader_agrees path (set_writer i Failed s) (snd x) j" for j
    using agreesD(3) [OF inv, of j] by (auto simp: reader_agrees_def fs_defs split: reader.splits)
qed (use agreesD(1) [OF inv] in \<open>auto simp: names_agree_def fs_defs split: option.splits\<close>)

lemma agrees_reader:
  assumes inv: "agrees io raw path busy s x" and at: "reader_agrees path (set_reader j rd s) seen j"
    and other: "\<And>j'. j' \<noteq> j \<Longrightarrow> seen j' = snd x j'"
  shows "agrees io raw path busy (set_reader j rd s) (fst x, seen)"
proof (rule agreesI)
  show "reader_agrees path (set_reader j rd s) (snd (fst x, seen)) j'" for j'
    using at agreesD(3) [OF inv, of j'] other [of j'] by (cases "j' = j") (auto simp: reader_agrees_def fs_defs split: reader.splits)
  show "writer_agrees io raw path busy (set_reader j rd s) i" for i
    using agreesD(2) [OF inv, of i] by (auto simp: writer_agrees_def fs_defs split: writer.splits)
qed (use agreesD(1) [OF inv] in \<open>auto simp: names_agree_def fs_defs split: option.splits\<close>)

lemma agrees_step:
  assumes step: "fs_step path s ev s'" and turns: "take_turns busy (ev # evs)" and inv: "agrees io raw path busy s x"
  obtains busy' where "take_turns busy' evs" and "agrees io raw path busy' s' (whole_step io raw path ev x)"
    and "\<And>i. ev \<noteq> ReplaceFailed i"
proof -
  obtain dk seen where x: "x = (dk, seen)" by (cases x)
  from step show thesis
  proof cases
    case (open_tmp i content n s1)
    with turns inv agrees_opened [of io raw path s x i content n s1] show thesis by (intro that [of "Some i"]) (auto simp: x)
  next
    case (write_chunk i content n w k)
    with turns agrees_written [OF inv write_chunk(3-5)] show thesis by (intro that [of busy]) (auto simp: x)
  next
    case (replace i content n m)
    with turns agrees_replaced [OF inv replace(3,4)] show thesis by (intro that [of None]) auto
  next
    case (replace_missing i content n)
    with agreesD(2) [OF inv, of i] show thesis by (simp add: writer_agrees_def)
  next
    case (kill i content n w)
    with turns agrees_failed [OF inv kill(3)] show thesis by (intro that [of None]) (auto simp: x)
  next
    case (open_file j n)
    then have "reader_agrees path (set_reader j (Reading n []) s) (seen(j := dget (dk_files dk) path)) j"
      using agreesD(1) [OF inv] by (simp add: reader_agrees_def names_agree_def fs_defs x split: option.splits)
    with turns open_file agrees_reader [OF inv this] show thesis by (intro that [of busy]) (auto simp: x)
  next
    case (read_chunk j n got k)
    then have "reader_agrees path (set_reader j (Reading n (got @ take k (drop (length got) (fs_inodes s n)))) s) seen j"
      using agreesD(3) [OF inv, of j] by (simp add: reader_agrees_def fs_defs x read_chunk_prefix)
    with turns read_chunk agrees_reader [OF inv this] show thesis by (intro that [of busy]) (auto simp: x)
  next
    case (end_read j n got)
    then have "reader_agrees path (set_reader j (Got got) s) seen j"
      using agreesD(3) [OF inv, of j] read_all [of got "fs_inodes s n"] by (simp add: reader_agrees_def fs_defs x)
    with turns end_read agrees_reader [OF inv this] show thesis by (intro that [of busy]) (auto simp: x)
  qed
qed

lemma agrees_run:
  assumes "fs_run path s evs s'" and "take_turns busy evs" and "agrees io raw path busy s x"
  shows "\<exists>busy'. agrees io raw path busy' s' (fold (whole_step io raw path) evs x) \<and> (\<forall>i. ReplaceFailed i \<notin> set evs)"
  using assms
proof (induction arbitrary: busy x)
  case (more s ev s1 evs s')
  obtain busy' where "take_turns busy' evs" and "agrees io raw path busy' s1 (whole_step io raw path ev x)"
    and "\<And>i. ev \<noteq> ReplaceFailed i"
    by (rule agrees_step [OF more.hyps(1) more.prems]) (rule that)
  with more.IH [of busy'] show ?case by auto
qed auto

subsection \<open>Properties\<close>

text \<open>
  The start: nobody at work, the writers with the texts of their values. A temporary file may be left
  over from a write that was killed.
\<close>

definition fs_start :: "config_io \<Rightarrow> (nat \<Rightarrow> json dict) \<Rightarrow> string \<Rightarrow> disk \<Rightarrow> fs \<Rightarrow> bool" where
  "fs_start io raw path dk s \<longleftrightarrow> names_agree path s dk
     \<and> fs_writers s = (\<lambda>i. Ready (io_dump io (raw i))) \<and> fs_readers s = (\<lambda>_. Idle)"

text \<open>
  C14: writes that take turns are atomic for every reader. Cut every write of a configuration into its
  system calls, and every read too, in any way, and interleave them in any order in which no writer
  opens the temporary file while another is at work on it; writers may also be killed at any point.
  Then at every moment the file holds the text that the writes completed so far, as atomic operations
  one after another, have left, each reader that has finished has got the whole text the file held when
  it was opened, although the file may have been replaced since, and no replacing fails.
\<close>

theorem readers_get_whole_files:
  assumes "fs_run path s evs s'" and "take_turns None evs" and "fs_start io raw path dk s"
    and "fold (whole_step io raw path) evs (dk, \<lambda>_. None) = (dk', seen)"
  shows "fs_text path s' = dget (dk_files dk') path
    \<and> (\<forall>j text. fs_readers s' j = Got text \<longrightarrow> seen j = Some text)
    \<and> (\<forall>i. ReplaceFailed i \<notin> set evs)"
proof -
  have "agrees io raw path None s (dk, \<lambda>_. None)"
    using assms(3) by (auto simp: agrees_def fs_start_def writer_agrees_def reader_agrees_def)
  from agrees_run [OF assms(1,2) this] obtain busy where inv: "agrees io raw path busy s' (dk', seen)"
    and none: "\<forall>i. ReplaceFailed i \<notin> set evs" unfolding assms(4) by blast
  have "fs_text path s' = dget (dk_files dk') path"
    using agreesD(1) [OF inv] by (auto simp: names_agree_def fs_text_def split: option.splits)
  moreover have "seen j = Some content" if "fs_readers s' j = Got content" for j content
    using agreesD(3) [OF inv, of j] that by (simp add: reader_agrees_def)
  ultimately show ?thesis using none by blast
qed

text \<open>
  The program does not make writers take turns. When a second writer opens the temporary file before
  the first replaces with it, the configuration is an empty file from then on until the second has
  written, and then the second cannot replace: its request ends in an exception that is not caught,
  although its text is in the file.
\<close>

lemma overlapping_writers_tear:
  assumes start: "fs_start io raw path dk s" and "io_dump io (raw 0) \<noteq> []" and "io_dump io (raw 1) \<noteq> []"
    and tmp: "fs_names s (tmp_of path) = None"
  shows "\<exists>s1 s2. fs_run path s [TmpOpened 0, ChunkWritten 0 (length (io_dump io (raw 0))), TmpOpened 1, FileReplaced 0] s1
    \<and> fs_text path s1 = Some []
    \<and> fs_run path s1 [ChunkWritten 1 (length (io_dump io (raw 1))), ReplaceFailed 1] s2
    \<and> fs_text path s2 = Some (io_dump io (raw 1)) \<and> fs_writers s2 1 = Failed"
  using assms
  by (simp flip: fs_execs_iff add: fs_start_def open_truncated_def fs_defs write_at_def fs_text_def)

subsection \<open>Witness\<close>

definition turns_io :: config_io where
  "turns_io = \<lparr>io_load = (\<lambda>_. None), io_dump = (\<lambda>raw. case raw of [(k, v)] \<Rightarrow> k | _ \<Rightarrow> []), io_validate = (\<lambda>_. None)\<rparr>"

definition turns_raw :: "nat \<Rightarrow> json dict" where
  "turns_raw i = [(if i = 0 then ''first'' else ''second'', JNull)]"

definition turns_start :: fs where
  "turns_start = \<lparr>fs_names = (\<lambda>_. None)(''business.yaml'' := Some 0), fs_inodes = (\<lambda>_. [])(0 := ''old''), fs_next = 1,
     fs_writers = (\<lambda>i. Ready (io_dump turns_io (turns_raw i))), fs_readers = (\<lambda>_. Idle)\<rparr>"

definition turns_events :: "fs_event list" where
  "turns_events = [FileOpened 0, ChunkRead 0 1, TmpOpened 0, ChunkWritten 0 2, ChunkWritten 0 3, FileReplaced 0,
     TmpOpened 1, ChunkWritten 1 4, FileOpened 1, ChunkWritten 1 2, FileReplaced 1, ChunkRead 0 9, ReadEnded 0,
     ChunkRead 1 5, ReadEnded 1]"

lemma readers_get_whole_files_witness:
  "\<exists>s. fs_run ''business.yaml'' turns_start turns_events s \<and> fs_text ''business.yaml'' s = Some ''second''
    \<and> fs_readers s 0 = Got ''old'' \<and> fs_readers s 1 = Got ''first''"
proof -
  let ?path = "''business.yaml''" and ?dk = "\<lparr>dk_files = [(''business.yaml'', ''old'')], dk_dirs = []\<rparr>"
  have "map_option (\<lambda>s. (\<exists>t. fs_readers s 0 = Got t) \<and> (\<exists>t. fs_readers s 1 = Got t)) (fs_execs ?path turns_events turns_start)
      = Some True"
    by (simp add: turns_events_def turns_start_def turns_io_def turns_raw_def open_truncated_def fs_defs write_at_def)
  then obtain s t0 t1 where run: "fs_run ?path turns_start turns_events s"
    and got: "fs_readers s 0 = Got t0" "fs_readers s 1 = Got t1"
    by (auto simp: fs_execs_iff)
  have turns: "take_turns None turns_events" by (simp add: turns_events_def)
  have start: "fs_start turns_io turns_raw ?path ?dk turns_start"
    by (simp add: fs_start_def names_agree_def turns_start_def tmp_of_def)
  obtain dk' seen where spec: "fold (whole_step turns_io turns_raw ?path) turns_events (?dk, \<lambda>_. None) = (dk', seen)"
    by fastforce
  have "dget (dk_files dk') ?path = Some ''second''" "seen 0 = Some ''old''" "seen 1 = Some ''first''"
    using spec by (auto simp: turns_events_def write_atomically_run turns_io_def turns_raw_def)
  with readers_get_whole_files [OF run turns start spec] run got show ?thesis by auto
qed

end
