(* ===== verification/Spec2Isabelle.thy ===== *)
theory Spec2Isabelle
  imports Route_Tokens Row_Types Deployment Cli Seeds Session_Text Columns_Text Owner_To_Customer
    Concurrent_Writes
begin

text \<open>
  \<^bold>\<open>The adaptive LLM agent: a model and its properties.\<close>

  The program (package \<open>src/adaptive_agent\<close>) serves many Businesses from one process. A customer's
  message comes in from a frontend (WhatsApp webhook or command line), passes the Interface Layer
  (dedupe, rate limit, routing), and is handled by the Conversation Runtime of its Business: the
  Input Rail, a pending Confirmation Request or a fresh turn of the Agent Core over an LLM, the Tool
  Rail with its confirmation protocol, the Tool providers, the Output Rail, the Session store. An
  owner administers a Business through authenticated HTTP routes: its configuration file, and its
  own database tables, for which the program generates Tools.

  \<^bold>\<open>How the code is modelled.\<close> Every function of the source that the development covers is a
  definition of the same name (with a prefix where names clash), branch by branch. Code that may
  raise returns \<open>'a result = exn + 'a\<close>; code that also mutates is a command
  \<open>('s, 'a) cmd = 's \<Rightarrow> 'a result \<times> 's\<close>, which returns the state also when it raises, so what a
  failing operation leaves behind is part of every statement (theory Prelude: \<open>bindC\<close>, \<open>catch\<close>,
  \<open>rethrow\<close>, \<open>zoom\<close>). Python dictionaries are association lists in insertion order, JSON-like values
  a datatype (Py_Values), texts lists of UTF-8 bytes, Python integers \<open>int\<close>, floats \<open>real\<close>, clocks and
  random identifiers streams of readings with a counter in the state.

  \<^bold>\<open>Theories, in the order they build on one another, and what they model.\<close>
  \<^item> Prelude, Py_Values, Identifiers, Base64, Json_Text: exceptions, results, commands, dictionaries, JSON
    values; \<open>sql_identifiers.py\<close>; the standard library's base64 and the scanner of \<open>json.loads\<close>, proved to
    read back what \<open>json.dumps\<close> writes.
  \<^item> Llm_Types, Config_Schema, Tool_Rail, Agent_Core: \<open>llm/base.py\<close>, \<open>llm/tool_types.py\<close>,
    \<open>business_config/schema.py\<close>, \<open>rails/\<close>, \<open>prompt.py\<close>, \<open>agent_core.py\<close>.
  \<^item> Session_Store: \<open>session/\<close>; locale \<open>session_store\<close>, interpreted on the in-memory and the SQLite store,
    and the refinement between them. Session_Text: the SQLite store with its rows as the JSON texts on
    disk, which every operation parses and rewrites.
  \<^item> Conversation, Conversation_Safety: \<open>conversation.py\<close>; every call the runtime makes to something
    outside it is an event of a trace, over which the safety properties speak.
  \<^item> Dedupe, Rate_Limiter, Interface_Layer: \<open>interface_layer/\<close>; the two stores refine specifications
    that never forget, and the layer's properties follow for whole runs of requests.
  \<^item> Sql_Engine, Entities, Entities_Inv, Entities_Rows, Entities_Props: \<open>entities/base.py\<close> and
    \<open>entities/sqlite_repository.py\<close> over the statements of sqlite3 that the program executes, with
    implicit transactions; \<open>repo_inv\<close> is the invariant, \<open>tds\<close> the abstract catalogue. Row_Types: the
    types of the rows that are handed out. Columns_Text: the JSON text of a table's columns reads back.
  \<^item> Crud_Tools: \<open>entities/crud_tools.py\<close>, \<open>tools/entity_crud_provider.py\<close>.
  \<^item> Tool_Providers, Menu: \<open>tools/\<close>, \<open>menu/\<close>, \<open>entities/menu_repository_adapter.py\<close>; locale
    \<open>tool_provider\<close> is what a composite relies on, interpreted on each provider.
  \<^item> Config_Store, Admin, Provisioning: \<open>business_config/\<close> over a state of files, \<open>admin/\<close>.
    Concurrent_Writes: the atomic write of a configuration and the read of it as system calls, over names
    and inodes, interleaved with other writers and readers.
  \<^item> Admin_Routes, Entity_Routes, Frames, Route_Props, Route_Tokens: \<open>interfaces/admin/\<close>, each route a
    command on the backend (files, admin store, one database per Business); locale \<open>frame\<close> says what
    part of the backend a route may touch, and \<open>blind\<close> relates two runs: what part its answer depends on.
  \<^item> Llm_Providers, Nemo_Checker, Customers, Context_Files: \<open>llm/\<close>, \<open>rails/nemo_checker.py\<close>,
    \<open>customers/\<close>, \<open>context/file_provider.py\<close>.
  \<^item> Business_Runtime: \<open>load_agent_core\<close>, \<open>build_tool_provider\<close>, \<open>load_conversation_runtime\<close>: a Business
    put together from all of the above; the providers' contracts give the dispatch of Tool calls.
    Owner_To_Customer: admin routes, runtime and Tool calls composed over one configuration file and
    one database.
  \<^item> Whatsapp, Whatsapp_Registry, Cli: \<open>interfaces/whatsapp/\<close> and \<open>interfaces/cli.py\<close>; locale
    \<open>runtime_loader\<close> is what the registry asks of a loader, interpreted on the program's own.
  \<^item> Deployment: \<open>create_app\<close> and the runs of the process, a labelled step relation over deliveries, the
    deferred load of the registry, and changes of the Businesses from outside (the admin routes, other
    processes); invariants by rule induction. Seeds: \<open>scripts/\<close>.

  \<^bold>\<open>What the properties say.\<close> A write Tool is called only with leave, and a yes releases exactly the
  pending call (Conversation_Safety); replies have passed the Output Rail and turns are recorded once;
  a delivery is handled at most once and within its customer's budget, and over every run of the
  process a message is answered at most once within the dedupe lifetime, a fresh one at once, and only
  to the signed sender (Interface_Layer, Whatsapp, Deployment); the
  repository stays consistent and its operations refine operations on an abstract catalogue and on
  maps from ids to rows, which read back typed (Entities_Props, Row_Types); generated Tools write only when confirmed; admin requests act
  as the owner of their Business and on nothing else, and answer from nothing else; tokens and
  confirmations hold for their time;
  tables and their Tools come and go together, as long as the configuration file loads; signup and configuration changes are all or nothing,
  with the exceptions the code has; writes of a configuration that take turns are atomic for every
  reader, and what happens when they do not (Concurrent_Writes); the session file forgets nothing but idle sessions, through its
  JSON texts (Session_Text); a table an owner creates is served to customers by the next runtime, and
  the owner sees what they enter (Owner_To_Customer); a menu that was seeded, an issued token, a Gemini Tool call come
  back unchanged; the registry isolates a broken Business; the command line returns exactly when its
  input ends or a message raises. Some properties state behaviour the authors may not want: they say
  so, and PROJECT.json lists the finding.

  \<^bold>\<open>Loops and bounds.\<close> No fuel is used. Recursion is structural or proved terminating, except the
  command-line loop, a partial function with value \<open>None\<close> for a session that never ends. The bounds are the
  code's: 4096 code points a message, \<open>max_per_minute\<close> in 60 seconds, five minutes for a confirmation
  token, a day for a bearer token.

  \<^bold>\<open>Parameters.\<close> Third-party code is an argument of the definitions that use it: the vendors' LLM
  clients, NeMo Guardrails, PyYAML, pydantic's validation of untyped data, PyJWT, bcrypt, the MCP client,
  \<open>httpx.post\<close>, the web framework's parser of request bodies, HMAC, Python's \<open>float()\<close> and \<open>repr\<close> of
  floats, the SQLite rules for identifiers and stored
  numbers (\<open>sql_engine\<close>). What is assumed of one is a hypothesis of the theorem that needs it
  (\<open>yaml_round_trip\<close>, \<open>accepts_tools\<close>, \<open>menu_validation_ok\<close>, \<open>numbers_only\<close>, PyJWT's check of the times
  in a payload), and a witness instantiates it.

  \<^bold>\<open>Not modelled.\<close> Threads and locks: but for the writes of a configuration, which take no lock, operations
  run one after another, which is what the locks are for;
  FastAPI's routing and parsing of request bodies; undecodable bytes in files; write-ahead logging and connections that share a file; the
  rendering of log messages; the creation of a missing Businesses directory by a signup; patterns of context files with subdirectories; in \<open>json.loads\<close>, the
  constants \<open>NaN\<close> and \<open>Infinity\<close> and the limits on nesting and on the digits of an integer (and the
  round trip of its texts excludes floats).
\<close>

end
